(* ===== verification/Prelude.thy ===== *)
theory Prelude
  imports Main "HOL-Library.Word" "HOL-Library.Char_ord" "HOL-Library.List_Lexorder"
    "HOL-Library.Signed_Division"
begin

text \<open>
  Shared vocabulary of the development: the machine integers of the Rust source
  (\<open>i64\<close>, \<open>i32\<close>, \<open>u32\<close>, \<open>usize\<close> on a 64-bit target, with the
  wrapping arithmetic of the release profile), Rust's checked and panicking
  operations on them, strings as UTF-8 byte sequences with their view as
  characters, and the generic list and sum lemmas the component theories use.
\<close>

unbundle bit_operations_syntax

named_theorems kcl_simps \<open>evaluation rules of the runtime model\<close>

section \<open>Panics of the Rust language and its standard library\<close>

datatype rust_panic =
    DivideByZero
  | DivideOverflow
  | RemByZero
  | RemOverflow
  | IndexOutOfBounds
  | UnwrapNone
  | CapacityOverflow
  | AlreadyMutablyBorrowed
  | AssertionFailed

section \<open>\<open>std::cmp::Ordering\<close>\<close>

datatype ordering = Less | Equal | Greater

definition ordering_of :: "('a \<Rightarrow> 'a \<Rightarrow> bool) \<Rightarrow> 'a \<Rightarrow> 'a \<Rightarrow> ordering" where
  "ordering_of lt a b = (if lt a b then Less else if lt b a then Greater else Equal)"

section \<open>Machine integers\<close>

type_synonym i64 = "64 word"
type_synonym i32 = "32 word"
type_synonym u32 = "32 word"

definition i64_range :: "int \<Rightarrow> bool" where
  "i64_range x \<longleftrightarrow> - (2 ^ 63) \<le> x \<and> x < 2 ^ 63"

definition i32_range :: "int \<Rightarrow> bool" where
  "i32_range x \<longleftrightarrow> - (2 ^ 31) \<le> x \<and> x < 2 ^ 31"

abbreviation i64_max :: i64 where
  "i64_max \<equiv> 0x7FFFFFFFFFFFFFFF"

abbreviation i64_min :: i64 where
  "i64_min \<equiv> 0x8000000000000000"

text \<open>\<open>v as i32\<close> and \<open>v as u32\<close> keep the low 32 bits of \<open>v\<close>;
  \<open>v as usize\<close> reads its 64 bits as an unsigned number.\<close>

definition as_i32 :: "i64 \<Rightarrow> i32" where
  "as_i32 v = word_of_int (sint v)"

definition as_usize :: "i64 \<Rightarrow> nat" where
  "as_usize v = unat v"

lemma i64_range_sint [simp]: "i64_range (sint (x :: i64))"
  using sint_range_size [of x] by (simp add: i64_range_def word_size)

lemma i32_range_sint [simp]: "i32_range (sint (x :: i32))"
  using sint_range_size [of x] by (simp add: i32_range_def word_size)

lemma sint_of_int_i64: "i64_range x \<Longrightarrow> sint (word_of_int x :: i64) = x"
  by (simp add: i64_range_def sint_sbintrunc' signed_take_bit_int_eq_self)

lemma sint_of_int_i32: "i32_range x \<Longrightarrow> sint (word_of_int x :: i32) = x"
  by (simp add: i32_range_def sint_sbintrunc' signed_take_bit_int_eq_self)

lemma sint_as_i32: "i32_range (sint v) \<Longrightarrow> sint (as_i32 v) = sint v"
  by (simp only: as_i32_def sint_of_int_i32)

lemma sint_add_i64: "i64_range (sint a + sint b) \<Longrightarrow> sint (a + b :: i64) = sint a + sint b"
  by (simp add: i64_range_def sint_word_add signed_take_bit_int_eq_self)

lemma sint_sub_i64: "i64_range (sint a - sint b) \<Longrightarrow> sint (a - b :: i64) = sint a - sint b"
  by (simp add: i64_range_def sint_word_diff signed_take_bit_int_eq_self)

lemma sint_mul_i64: "i64_range (sint a * sint b) \<Longrightarrow> sint (a * b :: i64) = sint a * sint b"
  by (simp add: i64_range_def sint_word_mult signed_take_bit_int_eq_self)

lemma sint_pow_i64: "i64_range (sint a ^ n) \<Longrightarrow> sint (a ^ n :: i64) = sint a ^ n"
proof -
  have "word_of_int (sint a ^ n) = (word_of_int (sint a) :: i64) ^ n"
    by (rule of_int_power)
  then have "a ^ n = word_of_int (sint a ^ n)"
    by simp
  moreover assume "i64_range (sint a ^ n)"
  ultimately show ?thesis by (simp only: sint_of_int_i64)
qed

lemma i32_range_i64: "i32_range x \<Longrightarrow> i64_range x"
  by (simp add: i32_range_def i64_range_def)

lemma sint_eq_iff_i64: "sint a = sint b \<longleftrightarrow> a = (b :: i64)"
  by (auto dest: arg_cong [where f = "word_of_int :: int \<Rightarrow> i64"])

lemma sint_eq_0_iff_i64: "sint a = 0 \<longleftrightarrow> a = (0 :: i64)"
  using sint_eq_iff_i64 [of a 0] by simp

lemma sint_eq_m1_iff_i64: "sint a = - 1 \<longleftrightarrow> a = (- 1 :: i64)"
  using sint_eq_iff_i64 [of a "- 1"] by simp

subsection \<open>Checked operations\<close>

text \<open>\<open>checked_*\<close> return \<open>None\<close> exactly when the mathematical result does not
  fit the type; \<open>checked_shl\<close> and \<open>checked_shr\<close> when the shift amount is not
  smaller than the width.\<close>

definition checked_add_i64 :: "i64 \<Rightarrow> i64 \<Rightarrow> i64 option" where
  "checked_add_i64 a b = (if i64_range (sint a + sint b) then Some (a + b) else None)"

definition checked_sub_i64 :: "i64 \<Rightarrow> i64 \<Rightarrow> i64 option" where
  "checked_sub_i64 a b = (if i64_range (sint a - sint b) then Some (a - b) else None)"

definition checked_mul_i64 :: "i64 \<Rightarrow> i64 \<Rightarrow> i64 option" where
  "checked_mul_i64 a b = (if i64_range (sint a * sint b) then Some (a * b) else None)"

definition checked_div_i64 :: "i64 \<Rightarrow> i64 \<Rightarrow> i64 option" where
  "checked_div_i64 a b =
     (if b = 0 \<or> \<not> i64_range (sint a sdiv sint b) then None
      else Some (word_of_int (sint a sdiv sint b)))"

definition checked_pow_i64 :: "i64 \<Rightarrow> u32 \<Rightarrow> i64 option" where
  "checked_pow_i64 a n = (if i64_range (sint a ^ unat n) then Some (a ^ unat n) else None)"

definition checked_shl_i64 :: "i64 \<Rightarrow> u32 \<Rightarrow> i64 option" where
  "checked_shl_i64 a n = (if unat n < 64 then Some (push_bit (unat n) a) else None)"

definition checked_shr_i64 :: "i64 \<Rightarrow> u32 \<Rightarrow> i64 option" where
  "checked_shr_i64 a n = (if unat n < 64 then Some (signed_drop_bit (unat n) a) else None)"

definition checked_add_i32 :: "i32 \<Rightarrow> i32 \<Rightarrow> i32 option" where
  "checked_add_i32 a b = (if i32_range (sint a + sint b) then Some (a + b) else None)"

definition checked_sub_i32 :: "i32 \<Rightarrow> i32 \<Rightarrow> i32 option" where
  "checked_sub_i32 a b = (if i32_range (sint a - sint b) then Some (a - b) else None)"

definition checked_mul_i32 :: "i32 \<Rightarrow> i32 \<Rightarrow> i32 option" where
  "checked_mul_i32 a b = (if i32_range (sint a * sint b) then Some (a * b) else None)"

definition checked_div_i32 :: "i32 \<Rightarrow> i32 \<Rightarrow> i32 option" where
  "checked_div_i32 a b =
     (if b = 0 \<or> \<not> i32_range (sint a sdiv sint b) then None
      else Some (word_of_int (sint a sdiv sint b)))"

definition checked_pow_i32 :: "i32 \<Rightarrow> u32 \<Rightarrow> i32 option" where
  "checked_pow_i32 a n = (if i32_range (sint a ^ unat n) then Some (a ^ unat n) else None)"

definition checked_shl_i32 :: "i32 \<Rightarrow> u32 \<Rightarrow> i32 option" where
  "checked_shl_i32 a n = (if unat n < 32 then Some (push_bit (unat n) a) else None)"

definition checked_shr_i32 :: "i32 \<Rightarrow> u32 \<Rightarrow> i32 option" where
  "checked_shr_i32 a n = (if unat n < 32 then Some (signed_drop_bit (unat n) a) else None)"

lemmas checked_defs =
  checked_add_i64_def checked_sub_i64_def checked_mul_i64_def checked_pow_i64_def
  checked_shl_i64_def checked_shr_i64_def checked_add_i32_def checked_sub_i32_def
  checked_mul_i32_def checked_pow_i32_def checked_shl_i32_def checked_shr_i32_def

subsection \<open>Division, remainder and shifts\<close>

text \<open>Rust's \<open>/\<close> and \<open>%\<close> truncate towards zero and panic on a zero divisor
  and on \<open>i64::MIN / -1\<close>, in every build profile.\<close>

definition rust_div :: "i64 \<Rightarrow> i64 \<Rightarrow> rust_panic + i64" where
  "rust_div a b =
     (if b = 0 then Inl DivideByZero
      else if a = i64_min \<and> b = - 1 then Inl DivideOverflow
      else Inr (word_of_int (sint a sdiv sint b)))"

definition rust_rem :: "i64 \<Rightarrow> i64 \<Rightarrow> rust_panic + i64" where
  "rust_rem a b =
     (if b = 0 then Inl RemByZero
      else if a = i64_min \<and> b = - 1 then Inl RemOverflow
      else Inr (word_of_int (sint a smod sint b)))"

text \<open>\<open>a << b\<close> and \<open>a >> b\<close> use the low six bits of the shift amount in a
  release build.\<close>

definition rust_shl :: "i64 \<Rightarrow> i64 \<Rightarrow> i64" where
  "rust_shl a b = push_bit (unat b mod 64) a"

definition rust_shr :: "i64 \<Rightarrow> i64 \<Rightarrow> i64" where
  "rust_shr a b = signed_drop_bit (unat b mod 64) a"

text \<open>The magnitude of a truncated quotient is at most that of the dividend, so only
  \<open>MIN / -1\<close> leaves the range.\<close>

lemma sint_i64_min: "sint i64_min = - (2 ^ 63)"
  by simp

lemma abs_sdiv_le: "\<bar>a sdiv b\<bar> \<le> \<bar>a :: int\<bar>"
  using sdiv_int_range [of a b] by (auto simp: abs_le_iff)

lemma i64_range_sdiv:
  fixes a b :: i64
  assumes "\<not> (a = i64_min \<and> b = - 1)"
  shows "i64_range (sint a sdiv sint b)"
proof -
  have r: "i64_range (sint a)" by simp
  have le: "\<bar>sint a sdiv sint b\<bar> \<le> \<bar>sint a\<bar>" by (rule abs_sdiv_le)
  show ?thesis
  proof (cases "sint a sdiv sint b = - sint a \<and> sint a \<noteq> 0")
    case True
    then have "sint b = - 1" using int_sdiv_negated_is_minus1 by blast
    then have "b = - 1" by (simp add: sint_eq_m1_iff_i64)
    with assms have "a \<noteq> i64_min" by simp
    then have "sint a \<noteq> - (2 ^ 63)"
      using sint_eq_iff_i64 [of a i64_min] unfolding sint_i64_min by blast
    with r True show ?thesis by (auto simp: i64_range_def)
  next
    case False
    with r le show ?thesis unfolding i64_range_def by linarith
  qed
qed

lemma i64_range_smod:
  fixes a b :: i64
  assumes "b \<noteq> 0"
  shows "i64_range (sint a smod sint b)"
proof -
  have "sint b \<noteq> 0" using assms by (simp add: sint_eq_0_iff_i64)
  have rb: "i64_range (sint b)" by simp
  have "\<bar>sint a smod sint b\<bar> < \<bar>sint b\<bar>"
    using smod_int_range [of "sint b" "sint a"] \<open>sint b \<noteq> 0\<close> by auto
  with rb show ?thesis by (auto simp: i64_range_def abs_if split: if_splits)
qed

section \<open>Strings\<close>

text \<open>A Rust \<open>String\<close> is a sequence of UTF-8 bytes: \<open>len\<close> counts bytes and
  \<open><\<close> compares them. \<open>chars\<close> splits the bytes into the encodings of the
  characters, each led by a byte that gives its width.\<close>

definition utf8_width :: "char \<Rightarrow> nat" where
  "utf8_width c =
     (let b = (of_char c :: nat)
      in if b < 0xC0 then 1 else if b < 0xE0 then 2 else if b < 0xF0 then 3 else 4)"

function chars :: "string \<Rightarrow> string list" where
  "chars [] = []"
| "chars (c # cs) =
     (c # take (utf8_width c - 1) cs) # chars (drop (utf8_width c - 1) cs)"
  by pat_completeness auto
termination
  by (relation "measure length") auto

lemma concat_chars [simp]: "concat (chars s) = s"
  by (induction s rule: chars.induct) simp_all

lemma length_chars_le: "length (chars s) \<le> length s"
  by (induction s rule: chars.induct) simp_all

lemma chars_nonempty: "x \<in> set (chars s) \<Longrightarrow> x \<noteq> []"
  by (induction s rule: chars.induct) auto

subsection \<open>Splitting, numbers and substrings\<close>

text \<open>\<open>s.split(c)\<close> keeps empty pieces: it has one more piece than \<open>s\<close> has
  separators.\<close>

fun split_on :: "char \<Rightarrow> string \<Rightarrow> string list" where
  "split_on c [] = [[]]"
| "split_on c (x # xs) =
     (if x = c then [] # split_on c xs
      else case split_on c xs of
             [] \<Rightarrow> [[x]]
           | p # ps \<Rightarrow> (x # p) # ps)"

lemma split_on_nonempty: "split_on c s \<noteq> []"
  by (cases s) (auto split: list.splits)

fun join_with :: "string \<Rightarrow> string list \<Rightarrow> string" where
  "join_with sep [] = []"
| "join_with sep [s] = s"
| "join_with sep (s # ss) = s @ sep @ join_with sep ss"

lemma join_split: "join_with [c] (split_on c s) = s"
proof (induction s)
  case (Cons x xs)
  obtain p ps where "split_on c xs = p # ps"
    using split_on_nonempty [of c xs] by (cases "split_on c xs") auto
  with Cons show ?case by (cases ps) auto
qed simp

text \<open>\<open>s.parse::<usize>()\<close>: an optional \<open>+\<close>, then at least one decimal digit, within
  64 bits.\<close>

definition is_digit :: "char \<Rightarrow> bool" where
  "is_digit c \<longleftrightarrow> 48 \<le> (of_char c :: nat) \<and> (of_char c :: nat) \<le> 57"

definition digits_value :: "string \<Rightarrow> nat" where
  "digits_value s = fold (\<lambda>c n. 10 * n + (of_char c - 48)) s 0"

definition parse_usize :: "string \<Rightarrow> nat option" where
  "parse_usize s =
     (let t = (case s of [] \<Rightarrow> [] | c # cs \<Rightarrow> if c = CHR ''+'' then cs else s)
      in if t = [] \<or> \<not> list_all is_digit t \<or> 2 ^ 64 \<le> digits_value t then None
         else Some (digits_value t))"

fun show_nat :: "nat \<Rightarrow> string" where
  "show_nat n =
     (if n < 10 then [char_of (48 + n)] else show_nat (n div 10) @ [char_of (48 + n mod 10)])"

declare show_nat.simps [simp del]

definition show_int :: "int \<Rightarrow> string" where
  "show_int x = (if x < 0 then ''-'' @ show_nat (nat (- x)) else show_nat (nat x))"

text \<open>\<open>s.contains(p)\<close>.\<close>

fun is_substring :: "string \<Rightarrow> string \<Rightarrow> bool" where
  "is_substring p [] \<longleftrightarrow> p = []"
| "is_substring p (x # xs) \<longleftrightarrow> take (length p) (x # xs) = p \<or> is_substring p xs"

lemma is_substring_iff: "is_substring p s \<longleftrightarrow> (\<exists>u v. s = u @ p @ v)"
proof (induction s)
  case (Cons x xs)
  have "take (length p) (x # xs) = p \<longleftrightarrow> (\<exists>v. x # xs = p @ v)"
    by (metis append_eq_conv_conj append_take_drop_id)
  moreover have "(\<exists>u v. x # xs = u @ p @ v) \<longleftrightarrow>
      (\<exists>v. x # xs = p @ v) \<or> (\<exists>u v. xs = u @ p @ v)"
    by (metis Cons_eq_append_conv append_Cons append_Nil)
  ultimately show ?case using Cons by simp
qed simp

section \<open>Generic lemmas\<close>

lemma find_zip_fst: "List.find P (zip xs ys) = Some (a, b) \<Longrightarrow> a \<in> set xs"
  by (auto simp: find_Some_iff in_set_conv_nth)

lemma find_zip_snd: "List.find P (zip xs ys) = Some (a, b) \<Longrightarrow> b \<in> set ys"
  by (auto simp: find_Some_iff in_set_conv_nth)

lemma list_all_entryD: "list_all (\<lambda>(k, v). P v) m \<Longrightarrow> (k, v) \<in> set m \<Longrightarrow> P v"
  by (auto simp: list_all_iff)

lemma size_list_mem: "x \<in> set xs \<Longrightarrow> f x \<le> size_list f xs"
  by (induction xs) auto

end
