(* ===== verification/Float64.thy ===== *)
theory Float64
  imports Prelude
begin

text \<open>
  Rust's \<open>f64\<close>: IEEE 754 binary64 numbers with round-to-nearest-even arithmetic.
  A finite number is \<open>(-1)^s * m * 2^e\<close>; sums, products, quotients, remainders and
  the conversion from \<open>i64\<close> are computed exactly on integers and rounded once, as the
  standard prescribes. The payload and the sign of a NaN are not represented, since no
  operation of the modelled code reads them. The transcendental \<open>powf\<close> is not here:
  it is a parameter of the operations that call it.
\<close>

datatype f64 = NaN | Inf bool | Fin bool nat int

definition f64_zero :: f64 where
  "f64_zero = Fin False 0 (-1074)"

fun nat_bits :: "nat \<Rightarrow> nat" where
  "nat_bits n = (if n = 0 then 0 else Suc (nat_bits (n div 2)))"

declare nat_bits.simps [simp del]

lemma nat_bits_numeral [simp]:
  "nat_bits 0 = 0"
  "nat_bits (Suc 0) = 1"
  "nat_bits (numeral num.One) = 1"
  "nat_bits (numeral (num.Bit0 k)) = Suc (nat_bits (numeral k))"
  "nat_bits (numeral (num.Bit1 k)) = Suc (nat_bits (numeral k))"
  by (subst nat_bits.simps; simp add: nat_bits.simps)+

text \<open>\<open>f64_round s n d x\<close> is \<open>(-1)^s * (n / d) * 2^x\<close> rounded to the nearest
  number, ties to the even mantissa; too large a magnitude is an infinity.\<close>

definition f64_round :: "bool \<Rightarrow> nat \<Rightarrow> nat \<Rightarrow> int \<Rightarrow> f64" where
  "f64_round s n d x =
     (if n = 0 then Fin s 0 (-1074)
      else let e0 = int (nat_bits n) - int (nat_bits d) - 53 + x;
               e1 = (if n * 2 ^ nat (x - e0) < d * 2 ^ nat (e0 - x) * 2 ^ 53 then e0 else e0 + 1);
               e = max e1 (-1074);
               N = n * 2 ^ nat (x - e);
               D = d * 2 ^ nat (e - x);
               q = N div D;
               r = N mod D;
               q' = (if D < 2 * r \<or> (2 * r = D \<and> odd q) then Suc q else q);
               m = (if q' = 2 ^ 53 then 2 ^ 52 else q');
               ee = (if q' = 2 ^ 53 then e + 1 else e)
           in if 971 < ee then Inf s else Fin s m ee)"

text \<open>The exact value of a finite number, scaled by \<open>2^1074\<close> to an integer.\<close>

fun f64_scaled :: "f64 \<Rightarrow> int" where
  "f64_scaled (Fin s m e) = (if s then -1 else 1) * int m * 2 ^ nat (e + 1074)"
| "f64_scaled _ = 0"

definition signed_nat :: "bool \<Rightarrow> nat \<Rightarrow> int" where
  "signed_nat s m = (if s then - int m else int m)"

definition f64_is_zero :: "f64 \<Rightarrow> bool" where
  "f64_is_zero x = (case x of Fin s m e \<Rightarrow> m = 0 | _ \<Rightarrow> False)"

definition f64_of_i64 :: "i64 \<Rightarrow> f64" where
  "f64_of_i64 a = f64_round (sint a < 0) (nat \<bar>sint a\<bar>) 1 0"

section \<open>Arithmetic\<close>

fun f64_neg :: "f64 \<Rightarrow> f64" where
  "f64_neg (Fin s m e) = Fin (\<not> s) m e"
| "f64_neg (Inf s) = Inf (\<not> s)"
| "f64_neg NaN = NaN"

fun f64_add :: "f64 \<Rightarrow> f64 \<Rightarrow> f64" where
  "f64_add NaN y = NaN"
| "f64_add x NaN = NaN"
| "f64_add (Inf s) (Inf t) = (if s = t then Inf s else NaN)"
| "f64_add (Inf s) y = Inf s"
| "f64_add x (Inf t) = Inf t"
| "f64_add (Fin s m e) (Fin t n f) =
     (let x = min e f;
          z = signed_nat s (m * 2 ^ nat (e - x)) + signed_nat t (n * 2 ^ nat (f - x))
      in if z = 0 then Fin (s \<and> t) 0 (-1074)
         else f64_round (z < 0) (nat \<bar>z\<bar>) 1 x)"

definition f64_sub :: "f64 \<Rightarrow> f64 \<Rightarrow> f64" where
  "f64_sub x y = f64_add x (f64_neg y)"

fun f64_mul :: "f64 \<Rightarrow> f64 \<Rightarrow> f64" where
  "f64_mul NaN y = NaN"
| "f64_mul x NaN = NaN"
| "f64_mul (Inf s) (Inf t) = Inf (s \<noteq> t)"
| "f64_mul (Inf s) (Fin t n f) = (if n = 0 then NaN else Inf (s \<noteq> t))"
| "f64_mul (Fin s m e) (Inf t) = (if m = 0 then NaN else Inf (s \<noteq> t))"
| "f64_mul (Fin s m e) (Fin t n f) =
     f64_round (s \<noteq> t) (m * n) 1 (e + f)"

fun f64_div :: "f64 \<Rightarrow> f64 \<Rightarrow> f64" where
  "f64_div NaN y = NaN"
| "f64_div x NaN = NaN"
| "f64_div (Inf s) (Inf t) = NaN"
| "f64_div (Inf s) (Fin t n f) = Inf (s \<noteq> t)"
| "f64_div (Fin s m e) (Inf t) = Fin (s \<noteq> t) 0 (-1074)"
| "f64_div (Fin s m e) (Fin t n f) =
     (if n = 0 then (if m = 0 then NaN else Inf (s \<noteq> t))
      else f64_round (s \<noteq> t) m n (e - f))"

text \<open>Rust's \<open>%\<close> on floats is the truncated remainder, with the sign of the dividend.\<close>

fun f64_rem :: "f64 \<Rightarrow> f64 \<Rightarrow> f64" where
  "f64_rem NaN y = NaN"
| "f64_rem x NaN = NaN"
| "f64_rem (Inf s) y = NaN"
| "f64_rem (Fin s m e) (Inf t) = Fin s m e"
| "f64_rem (Fin s m e) (Fin t n f) =
     (if n = 0 then NaN
      else let x = min e f
           in f64_round s ((m * 2 ^ nat (e - x)) mod (n * 2 ^ nat (f - x))) 1 x)"

fun f64_floor :: "f64 \<Rightarrow> f64" where
  "f64_floor (Fin s m e) =
     (if 0 \<le> e then Fin s m e
      else f64_round s (nat \<bar>signed_nat s m div 2 ^ nat (- e)\<bar>) 1 0)"
| "f64_floor x = x"

text \<open>\<open>x as i64\<close> and \<open>x as u32\<close> truncate, saturate at the bounds and map NaN to 0.\<close>

fun f64_trunc :: "f64 \<Rightarrow> int" where
  "f64_trunc (Fin s m e) = signed_nat s (m * 2 ^ nat e div 2 ^ nat (- e))"
| "f64_trunc (Inf s) = (if s then - (2 ^ 63) else 2 ^ 63 - 1)"
| "f64_trunc NaN = 0"

definition f64_to_i64 :: "f64 \<Rightarrow> i64" where
  "f64_to_i64 x = word_of_int (max (- (2 ^ 63)) (min (2 ^ 63 - 1) (f64_trunc x)))"

definition f64_to_u32 :: "f64 \<Rightarrow> u32" where
  "f64_to_u32 x = word_of_int (max 0 (min (2 ^ 32 - 1) (f64_trunc x)))"

section \<open>Comparison\<close>

fun f64_eq :: "f64 \<Rightarrow> f64 \<Rightarrow> bool" where
  "f64_eq (Inf s) (Inf t) \<longleftrightarrow> s = t"
| "f64_eq (Fin s m e) (Fin t n f) \<longleftrightarrow> f64_scaled (Fin s m e) = f64_scaled (Fin t n f)"
| "f64_eq _ _ \<longleftrightarrow> False"

fun f64_lt :: "f64 \<Rightarrow> f64 \<Rightarrow> bool" where
  "f64_lt (Inf s) (Inf t) \<longleftrightarrow> s \<and> \<not> t"
| "f64_lt (Inf s) (Fin t n f) \<longleftrightarrow> s"
| "f64_lt (Fin s m e) (Inf t) \<longleftrightarrow> \<not> t"
| "f64_lt (Fin s m e) (Fin t n f) \<longleftrightarrow> f64_scaled (Fin s m e) < f64_scaled (Fin t n f)"
| "f64_lt _ _ \<longleftrightarrow> False"

definition f64_le :: "f64 \<Rightarrow> f64 \<Rightarrow> bool" where
  "f64_le x y \<longleftrightarrow> f64_lt x y \<or> f64_eq x y"

lemma f64_eq_refl [simp]: "f64_eq x x \<longleftrightarrow> x \<noteq> NaN"
  by (cases x) auto

lemma f64_eq_sym: "f64_eq x y \<longleftrightarrow> f64_eq y x"
  by (cases x; cases y) auto

lemma f64_eq_trans: "f64_eq x y \<Longrightarrow> f64_eq y z \<Longrightarrow> f64_eq x z"
  by (cases x; cases y; cases z) auto

lemma f64_trichotomy: "x \<noteq> NaN \<Longrightarrow> y \<noteq> NaN \<Longrightarrow> f64_lt x y \<or> f64_eq x y \<or> f64_lt y x"
  by (cases x; cases y) auto

lemma f64_lt_asym: "f64_lt x y \<Longrightarrow> \<not> f64_lt y x \<and> \<not> f64_eq x y"
  by (cases x; cases y) auto

lemma f64_lt_trans: "f64_lt x y \<Longrightarrow> f64_lt y z \<Longrightarrow> f64_lt x z"
  by (cases x; cases y; cases z) auto

lemma f64_lt_NaN [simp]: "\<not> f64_lt NaN y" "\<not> f64_lt x NaN"
  by (cases y; simp) (cases x; simp)

lemma f64_add_commute: "f64_add x y = f64_add y x"
  by (cases x; cases y) (auto simp: Let_def add.commute conj_commute min.commute)

lemma f64_mul_commute: "f64_mul x y = f64_mul y x"
  by (cases x; cases y) (simp_all add: mult.commute add.commute eq_commute)

lemmas f64_eval =
  f64_of_i64_def f64_round_def Let_def f64_sub_def f64_to_i64_def
  f64_to_u32_def signed_nat_def f64_le_def f64_is_zero_def f64_zero_def

end
