(* ===== verification/Index_Map.thy ===== *)
theory Index_Map
  imports Prelude
begin

text \<open>
  The insertion-ordered hash map \<open>IndexMap\<close> (\<open>crates/primitives/src/map.rs\<close>
  re-exports it from the \<open>indexmap\<close> crate), seen through its documented behaviour:
  a sequence of key-value pairs with distinct keys, in which \<open>insert\<close> replaces the
  value of a present key in place and appends a new key at the end, and
  \<open>swap_remove\<close> takes an entry out and moves the last entry into its place.
  The locale \<open>index_map\<close> states the contract the runtime relies on; the
  association-list representation used by the model is its interpretation.
\<close>

type_synonym ('k, 'v) imap = "('k \<times> 'v) list"

definition im_keys :: "('k, 'v) imap \<Rightarrow> 'k list" where
  "im_keys m = map fst m"

definition im_values :: "('k, 'v) imap \<Rightarrow> 'v list" where
  "im_values m = map snd m"

definition im_get :: "('k, 'v) imap \<Rightarrow> 'k \<Rightarrow> 'v option" where
  "im_get m k = map_of m k"

definition im_contains :: "('k, 'v) imap \<Rightarrow> 'k \<Rightarrow> bool" where
  "im_contains m k \<longleftrightarrow> im_get m k \<noteq> None"

fun im_insert :: "('k, 'v) imap \<Rightarrow> 'k \<Rightarrow> 'v \<Rightarrow> ('k, 'v) imap" where
  "im_insert [] k v = [(k, v)]"
| "im_insert ((k', v') # m) k v =
     (if k' = k then (k, v) # m else (k', v') # im_insert m k v)"

fun im_insert_all :: "('k, 'v) imap \<Rightarrow> ('k \<times> 'v) list \<Rightarrow> ('k, 'v) imap" where
  "im_insert_all m [] = m"
| "im_insert_all m ((k, v) # kvs) = im_insert_all (im_insert m k v) kvs"

fun im_swap_remove :: "('k, 'v) imap \<Rightarrow> 'k \<Rightarrow> ('k, 'v) imap" where
  "im_swap_remove [] k = []"
| "im_swap_remove ((k', v') # m) k =
     (if k' = k then (if m = [] then [] else last m # butlast m)
      else (k', v') # im_swap_remove m k)"

definition im_wf :: "('k, 'v) imap \<Rightarrow> bool" where
  "im_wf m \<longleftrightarrow> distinct (im_keys m)"

section \<open>Laws of the association-list representation\<close>

lemma im_get_Nil [simp]: "im_get [] k = None"
  by (simp add: im_get_def)

lemma im_get_Cons [simp]: "im_get ((k', v) # m) k = (if k' = k then Some v else im_get m k)"
  by (simp add: im_get_def)

lemma im_keys_simps [simp]: "im_keys [] = []" "im_keys ((k, v) # m) = k # im_keys m"
  by (simp_all add: im_keys_def)

lemma im_contains_iff: "im_contains m k \<longleftrightarrow> k \<in> set (im_keys m)"
  by (induction m) (auto simp: im_contains_def)

lemma im_get_None_iff: "im_get m k = None \<longleftrightarrow> k \<notin> set (im_keys m)"
  by (simp add: im_get_def im_keys_def map_of_eq_None_iff)

lemma im_get_Some_mem: "im_get m k = Some v \<Longrightarrow> (k, v) \<in> set m"
  by (simp add: im_get_def map_of_SomeD)

lemma im_get_eq_iff: "im_wf m \<Longrightarrow> im_get m k = Some v \<longleftrightarrow> (k, v) \<in> set m"
  by (simp add: im_wf_def im_get_def im_keys_def)

lemma im_get_insert: "im_get (im_insert m k v) = (im_get m)(k \<mapsto> v)"
  by (induction m) (auto simp: fun_eq_iff)

lemma im_keys_insert:
  "im_keys (im_insert m k v) = (if k \<in> set (im_keys m) then im_keys m else im_keys m @ [k])"
  by (induction m) auto

lemma im_wf_insert [simp]: "im_wf m \<Longrightarrow> im_wf (im_insert m k v)"
  by (simp add: im_wf_def im_keys_insert)

lemma im_insert_same: "im_get m k = Some v \<Longrightarrow> im_insert m k v = m"
  by (induction m) (auto split: if_splits)

lemma im_insert_new: "k \<notin> set (im_keys m) \<Longrightarrow> im_insert m k v = m @ [(k, v)]"
  by (induction m) auto

lemma im_get_insert_all:
  "im_get (im_insert_all m kvs) = im_get m ++ map_of (rev kvs)"
  by (induction m kvs rule: im_insert_all.induct)
    (auto simp: im_get_insert map_add_def fun_eq_iff split: option.splits)

lemma im_wf_insert_all [simp]: "im_wf m \<Longrightarrow> im_wf (im_insert_all m kvs)"
  by (induction m kvs rule: im_insert_all.induct) auto

lemma im_insert_all_same:
  "(\<forall>(k, v) \<in> set kvs. im_get m k = Some v) \<Longrightarrow> im_insert_all m kvs = m"
  by (induction kvs) (auto simp: im_insert_same)


lemma set_im_swap_remove:
  "im_wf m \<Longrightarrow> set (im_swap_remove m k) = {e \<in> set m. fst e \<noteq> k}"
proof (induction m)
  case (Cons e m)
  have "set (last m # butlast m) = set m" if "m \<noteq> []"
    using that by (cases m rule: rev_cases) auto
  with Cons show ?case
    by (cases e) (auto simp: im_wf_def im_keys_def split: if_splits)
qed simp

lemma im_wf_swap_remove [simp]: "im_wf m \<Longrightarrow> im_wf (im_swap_remove m k)"
proof (induction m)
  case (Cons e m)
  have "im_wf (last m # butlast m)" if "m \<noteq> []"
    using that Cons.prems by (cases m rule: rev_cases) (auto simp: im_wf_def im_keys_def)
  moreover have "im_wf (e # im_swap_remove m k)"
    using Cons set_im_swap_remove [of m k] by (auto simp: im_wf_def im_keys_def)
  ultimately show ?case
    by (cases e) (auto simp: im_wf_def)
qed simp

section \<open>The contract\<close>

text \<open>What the runtime relies on: a lookup after an insertion or a removal, and that
  both keep the map well formed. The client lemmas below are proved once from the
  laws.\<close>

locale index_map =
  fixes lookup :: "'m \<Rightarrow> 'k \<Rightarrow> 'v option"
    and insert_kv :: "'m \<Rightarrow> 'k \<Rightarrow> 'v \<Rightarrow> 'm"
    and remove_k :: "'m \<Rightarrow> 'k \<Rightarrow> 'm"
    and keys_of :: "'m \<Rightarrow> 'k list"
    and wf_map :: "'m \<Rightarrow> bool"
  assumes lookup_insert: "lookup (insert_kv m k v) = (lookup m)(k \<mapsto> v)"
    and lookup_remove: "wf_map m \<Longrightarrow> lookup (remove_k m k) = (lookup m)(k := None)"
    and wf_insert: "wf_map m \<Longrightarrow> wf_map (insert_kv m k v)"
    and wf_remove: "wf_map m \<Longrightarrow> wf_map (remove_k m k)"
    and keys_lookup: "set (keys_of m) = dom (lookup m)"
    and keys_insert: "keys_of (insert_kv m k v) =
          (if k \<in> set (keys_of m) then keys_of m else keys_of m @ [k])"
begin

lemma keys_remove: "wf_map m \<Longrightarrow> set (keys_of (remove_k m k)) = set (keys_of m) - {k}"
  by (auto simp: keys_lookup lookup_remove)

lemma insert_frame: "k' \<noteq> k \<Longrightarrow> lookup (insert_kv m k v) k' = lookup m k'"
  by (simp add: lookup_insert)

lemma insert_hit: "lookup (insert_kv m k v) k = Some v"
  by (simp add: lookup_insert)

lemma remove_insert_lookup:
  "wf_map m \<Longrightarrow> lookup (remove_k (insert_kv m k v) k) = (lookup m)(k := None)"
  by (simp add: lookup_remove wf_insert lookup_insert)

lemma fold_insert_lookup:
  "lookup (fold (\<lambda>(k, v) m. insert_kv m k v) kvs m) = lookup m ++ map_of (rev kvs)"
  by (induction kvs arbitrary: m) (auto simp: lookup_insert)

lemma fold_insert_wf: "wf_map m \<Longrightarrow> wf_map (fold (\<lambda>(k, v) m. insert_kv m k v) kvs m)"
  by (induction kvs arbitrary: m) (auto intro: wf_insert)

lemma fold_insert_keys:
  "distinct (map fst kvs) \<Longrightarrow>
   keys_of (fold (\<lambda>(k, v) m. insert_kv m k v) kvs m) =
     keys_of m @ filter (\<lambda>k. k \<notin> set (keys_of m)) (map fst kvs)"
proof (induction kvs arbitrary: m)
  case (Cons e kvs)
  obtain k v where e: "e = (k, v)" by fastforce
  have "filter (\<lambda>k'. k' \<notin> set (keys_of (insert_kv m k v))) (map fst kvs) =
        filter (\<lambda>k'. k' \<notin> set (keys_of m)) (map fst kvs)"
    using Cons.prems e by (intro filter_cong) (auto simp: keys_insert)
  with Cons e show ?case by (simp add: keys_insert)
qed simp

end

lemma im_get_swap_remove:
  assumes "im_wf m"
  shows "im_get (im_swap_remove m k) = (im_get m)(k := None)"
proof
  fix k'
  have "im_get (im_swap_remove m k) k' = Some v \<longleftrightarrow> ((im_get m)(k := None)) k' = Some v" for v
    using assms by (auto simp: im_get_eq_iff set_im_swap_remove)
  then show "im_get (im_swap_remove m k) k' = ((im_get m)(k := None)) k'"
    by (metis not_Some_eq)
qed

interpretation imap: index_map im_get im_insert im_swap_remove im_keys im_wf
proof unfold_locales
  fix m :: "('k \<times> 'v) list"
  show "set (im_keys m) = dom (im_get m)"
    by (auto simp: dom_def im_get_None_iff dest: im_get_None_iff [THEN iffD2])
qed (simp_all add: im_get_insert im_get_swap_remove im_keys_insert)

end
