(* ===== verification/Value.thy ===== *)
theory Value
  imports Float64 Index_Map
begin

text \<open>
  Runtime values (\<open>crates/runtime/src/api/kcl.rs\<close>) and the basic queries on them:
  kinds and type tests (\<open>val_kind.rs\<close>, \<open>val_is_in.rs\<close>), conversions
  (\<open>val_as_val.rs\<close>), truth values (\<open>val_logic.rs\<close>), lengths (\<open>val_len.rs\<close>),
  unary operators (\<open>val_unary.rs\<close>), type names (\<open>val_type.rs\<close>), constructors
  (\<open>val.rs\<close>) and lookups by key and path (\<open>val_get_set.rs\<close>).

  A \<open>ValueRef\<close> is a reference-counted cell; the model is the tree of values it
  reaches, and an operation that mutates the cell returns the new tree. This is exact for
  values no part of which is reachable twice, such as the fresh copy \<open>deep_copy\<close>
  makes before a union.
\<close>

section \<open>Data\<close>

datatype config_entry_op = Union | Override | Insert

datatype 'v dict_value = DictValue
  (dv_values: "(string, 'v) imap")
  (dv_ops: "(string, config_entry_op) imap")
  (dv_insert_indexs: "(string, i32) imap")
  (dv_attr_map: "(string, string) imap")
  (dv_potential_schema: "string option")
  (dv_schema_args: "('v \<times> 'v) option")

datatype 'v schema_value = SchemaValue
  (sv_name: string)
  (sv_pkgpath: string)
  (sv_config: "'v dict_value")
  (sv_config_keys: "string list")
  (sv_config_meta: 'v)
  (sv_optional_mapping: 'v)
  (sv_args: 'v)
  (sv_kwargs: 'v)

datatype 'v func_value = FuncValue
  (fv_fn_ptr: "64 word")
  (fv_check_fn_ptr: "64 word")
  (fv_closure: 'v)
  (fv_name: string)
  (fv_runtime_type: string)
  (fv_is_external: bool)
  (fv_proxy: "(64 word \<times> 64 word) option")

datatype val =
    undefined_value
  | none_value
  | bool_value bool
  | int_value i64
  | float_value f64
  | str_value string
  | list_value "val list"
  | dict_value "val dict_value"
  | schema_value "val schema_value"
  | func_value "val func_value"
  | unit_value f64 i64 string

datatype value_kind =
    KInvalid | KUndefined | KNone | KBool | KInt | KFloat | KStr | KList | KDict | KSchema
  | KError | KAny | KUnion | KBoolLit | KIntLit | KFloatLit | KStrLit | KUnit | KFunc

record context_config =
  debug_mode :: bool
  strict_range_check :: bool
  disable_schema_check :: bool

text \<open>Panics of the runtime. Each constructor names one message of the source and carries
  the values the message is formatted from; \<open>RustPanic\<close> is a panic of the language or of
  the standard library.\<close>

datatype json_repr = EmptyRepr | ConfigRepr | ListRepr | JsonRepr val

datatype panic =
    RustPanic rust_panic
  | I32Overflow int
  | I64Overflow int
  | F32Overflow f64
  | UnsupportedBinOp string val val
  | CannotConcat val
  | UnsupportedCmp string val val
  | CannotCompare val val
  | BadUnaryOperand string val
  | NoLen val
  | IndexNormalize i32 nat
  | StrIndexOutOfRange i64
  | ListIndexOutOfRange i64
  | NotSubscriptable val val
  | InvalidListObject string
  | InvalidIntValue
  | SliceStepZero
  | InvalidSlice val
  | NotIterable val
  | UnpackOperand val
  | InvalidConfig string
  | DictUpdateExpected val string
  | AttrNotFound val string
  | UnionTypeMismatch val val
  | OnlyListUnionIndex i32
  | OnlyNonEmptyListUnionIndex i32
  | OnlyListOverrideIndex i32
  | ConflictingValues string json_repr json_repr "string list"
  | ConflictingBetween json_repr json_repr
  | UnionOperands val val
  | RequiredAttr string string
  | CheckFailed string
  | SchemaResolve

type_synonym 'a res = "panic + 'a"

section \<open>Updates of single fields\<close>

definition set_values :: "(string, 'v) imap \<Rightarrow> 'v dict_value \<Rightarrow> 'v dict_value" where
  "set_values vs d = DictValue vs (dv_ops d) (dv_insert_indexs d) (dv_attr_map d)
     (dv_potential_schema d) (dv_schema_args d)"

definition set_ops :: "(string, config_entry_op) imap \<Rightarrow> 'v dict_value \<Rightarrow> 'v dict_value" where
  "set_ops os d = DictValue (dv_values d) os (dv_insert_indexs d) (dv_attr_map d)
     (dv_potential_schema d) (dv_schema_args d)"

definition set_insert_indexs :: "(string, i32) imap \<Rightarrow> 'v dict_value \<Rightarrow> 'v dict_value" where
  "set_insert_indexs is d = DictValue (dv_values d) (dv_ops d) is (dv_attr_map d)
     (dv_potential_schema d) (dv_schema_args d)"

definition set_attr_map :: "(string, string) imap \<Rightarrow> 'v dict_value \<Rightarrow> 'v dict_value" where
  "set_attr_map am d = DictValue (dv_values d) (dv_ops d) (dv_insert_indexs d) am
     (dv_potential_schema d) (dv_schema_args d)"

definition set_potential_schema :: "string option \<Rightarrow> 'v dict_value \<Rightarrow> 'v dict_value" where
  "set_potential_schema p d = DictValue (dv_values d) (dv_ops d) (dv_insert_indexs d)
     (dv_attr_map d) p (dv_schema_args d)"

lemma dict_fields [simp]:
  "dv_values (set_values vs d) = vs"
  "dv_ops (set_values vs d) = dv_ops d"
  "dv_insert_indexs (set_values vs d) = dv_insert_indexs d"
  "dv_attr_map (set_values vs d) = dv_attr_map d"
  "dv_potential_schema (set_values vs d) = dv_potential_schema d"
  "dv_schema_args (set_values vs d) = dv_schema_args d"
  "dv_values (set_ops os d) = dv_values d"
  "dv_ops (set_ops os d) = os"
  "dv_insert_indexs (set_ops os d) = dv_insert_indexs d"
  "dv_attr_map (set_ops os d) = dv_attr_map d"
  "dv_potential_schema (set_ops os d) = dv_potential_schema d"
  "dv_schema_args (set_ops os d) = dv_schema_args d"
  "dv_values (set_insert_indexs is d) = dv_values d"
  "dv_ops (set_insert_indexs is d) = dv_ops d"
  "dv_insert_indexs (set_insert_indexs is d) = is"
  "dv_attr_map (set_insert_indexs is d) = dv_attr_map d"
  "dv_potential_schema (set_insert_indexs is d) = dv_potential_schema d"
  "dv_schema_args (set_insert_indexs is d) = dv_schema_args d"
  "dv_values (set_attr_map am d) = dv_values d"
  "dv_ops (set_attr_map am d) = dv_ops d"
  "dv_attr_map (set_attr_map am d) = am"
  "dv_values (set_potential_schema p d) = dv_values d"
  "dv_ops (set_potential_schema p d) = dv_ops d"
  "dv_insert_indexs (set_potential_schema p d) = dv_insert_indexs d"
  "dv_attr_map (set_potential_schema p d) = dv_attr_map d"
  "dv_potential_schema (set_potential_schema p d) = p"
  "dv_schema_args (set_potential_schema p d) = dv_schema_args d"
  by (simp_all add: set_values_def set_ops_def set_insert_indexs_def set_attr_map_def
      set_potential_schema_def)

lemma set_same [simp]:
  "set_values (dv_values d) d = d"
  "set_ops (dv_ops d) d = d"
  "set_insert_indexs (dv_insert_indexs d) d = d"
  "set_potential_schema (dv_potential_schema d) d = d"
  by (simp_all add: set_values_def set_ops_def set_insert_indexs_def set_potential_schema_def)

definition set_config :: "'v dict_value \<Rightarrow> 'v schema_value \<Rightarrow> 'v schema_value" where
  "set_config c s = SchemaValue (sv_name s) (sv_pkgpath s) c (sv_config_keys s)
     (sv_config_meta s) (sv_optional_mapping s) (sv_args s) (sv_kwargs s)"

lemma schema_fields [simp]:
  "sv_config (set_config c s) = c"
  "sv_name (set_config c s) = sv_name s"
  "sv_pkgpath (set_config c s) = sv_pkgpath s"
  "sv_config_keys (set_config c s) = sv_config_keys s"
  "sv_config_meta (set_config c s) = sv_config_meta s"
  "sv_optional_mapping (set_config c s) = sv_optional_mapping s"
  "sv_args (set_config c s) = sv_args s"
  "sv_kwargs (set_config c s) = sv_kwargs s"
  "set_config (sv_config s) s = s"
  by (simp_all add: set_config_def)

definition default_dict :: "'v dict_value" where
  "default_dict = DictValue [] [] [] [] None None"

lemma default_dict_fields [simp]:
  "dv_values default_dict = []" "dv_ops default_dict = []"
  "dv_insert_indexs default_dict = []" "dv_attr_map default_dict = []"
  "dv_potential_schema default_dict = None" "dv_schema_args default_dict = None"
  by (simp_all add: default_dict_def)

section \<open>Size of nested values\<close>

text \<open>The values stored in a list, dict or schema are smaller than it: the termination
  measure of every recursion over values.\<close>

lemma size_dict_entry: "(k, v) \<in> set (dv_values d) \<Longrightarrow> size v < size_dict_value size d"
  by (cases d) (use size_list_mem [of "(k, v)" _ "size_prod (\<lambda>_. 0) size"] in fastforce)

lemma size_list_value_mem [termination_simp]: "v \<in> set vs \<Longrightarrow> size v < size (list_value vs)"
  using size_list_mem [of v vs size] by simp

lemma size_dict_value_mem [termination_simp]:
  "(k, v) \<in> set (dv_values d) \<Longrightarrow> size v < size (dict_value d)"
  using size_dict_entry [of k v d] by simp

lemma size_schema_value_mem [termination_simp]:
  "(k, v) \<in> set (dv_values (sv_config s)) \<Longrightarrow> size v < size (schema_value s)"
  using size_dict_entry [of k v "sv_config s"] by (cases s) simp

section \<open>Kinds and type tests\<close>

fun kind :: "val \<Rightarrow> value_kind" where
  "kind undefined_value = KUndefined"
| "kind none_value = KNone"
| "kind (bool_value _) = KBool"
| "kind (int_value _) = KInt"
| "kind (float_value _) = KFloat"
| "kind (str_value _) = KStr"
| "kind (list_value _) = KList"
| "kind (dict_value _) = KDict"
| "kind (schema_value _) = KSchema"
| "kind (func_value _) = KFunc"
| "kind (unit_value _ _ _) = KUnit"

definition is_undefined :: "val \<Rightarrow> bool" where
  "is_undefined v = (case v of undefined_value \<Rightarrow> True | _ \<Rightarrow> False)"

definition is_none :: "val \<Rightarrow> bool" where
  "is_none v = (case v of none_value \<Rightarrow> True | _ \<Rightarrow> False)"

definition is_bool :: "val \<Rightarrow> bool" where "is_bool v \<longleftrightarrow> kind v = KBool"
definition is_int :: "val \<Rightarrow> bool" where "is_int v \<longleftrightarrow> kind v = KInt"
definition is_float :: "val \<Rightarrow> bool" where "is_float v \<longleftrightarrow> kind v = KFloat"
definition is_str :: "val \<Rightarrow> bool" where "is_str v \<longleftrightarrow> kind v = KStr"
definition is_list :: "val \<Rightarrow> bool" where "is_list v \<longleftrightarrow> kind v = KList"
definition is_dict :: "val \<Rightarrow> bool" where "is_dict v \<longleftrightarrow> kind v = KDict"
definition is_schema :: "val \<Rightarrow> bool" where "is_schema v \<longleftrightarrow> kind v = KSchema"
definition is_func :: "val \<Rightarrow> bool" where "is_func v \<longleftrightarrow> kind v = KFunc"

definition is_number :: "val \<Rightarrow> bool" where
  "is_number v = (case v of int_value _ \<Rightarrow> True | float_value _ \<Rightarrow> True | _ \<Rightarrow> False)"

definition is_builtin :: "val \<Rightarrow> bool" where
  "is_builtin v = (case v of int_value _ \<Rightarrow> True | float_value _ \<Rightarrow> True
     | bool_value _ \<Rightarrow> True | str_value _ \<Rightarrow> True | _ \<Rightarrow> False)"

definition is_config :: "val \<Rightarrow> bool" where
  "is_config v = (case v of schema_value _ \<Rightarrow> True | dict_value _ \<Rightarrow> True | _ \<Rightarrow> False)"

definition is_list_or_config :: "val \<Rightarrow> bool" where
  "is_list_or_config v = (case v of list_value _ \<Rightarrow> True | schema_value _ \<Rightarrow> True
     | dict_value _ \<Rightarrow> True | _ \<Rightarrow> False)"

definition is_none_or_undefined :: "val \<Rightarrow> bool" where
  "is_none_or_undefined v = (case v of none_value \<Rightarrow> True | undefined_value \<Rightarrow> True | _ \<Rightarrow> False)"

definition is_unit :: "val \<Rightarrow> bool" where
  "is_unit v = (case v of unit_value _ _ _ \<Rightarrow> True | _ \<Rightarrow> False)"

definition is_scalar :: "val \<Rightarrow> bool" where
  "is_scalar v = (case v of none_value \<Rightarrow> True | bool_value _ \<Rightarrow> True | int_value _ \<Rightarrow> True
     | float_value _ \<Rightarrow> True | str_value _ \<Rightarrow> True | unit_value _ _ _ \<Rightarrow> True | _ \<Rightarrow> False)"

lemmas type_test_defs =
  is_undefined_def is_none_def is_bool_def is_int_def is_float_def is_str_def is_list_def
  is_dict_def is_schema_def is_func_def is_number_def is_builtin_def is_config_def
  is_list_or_config_def is_none_or_undefined_def is_unit_def is_scalar_def

section \<open>Truth values and conversions\<close>

fun is_truthy :: "val \<Rightarrow> bool" where
  "is_truthy undefined_value = False"
| "is_truthy none_value = False"
| "is_truthy (bool_value v) = v"
| "is_truthy (int_value v) = (v \<noteq> 0)"
| "is_truthy (float_value v) = (\<not> f64_eq v f64_zero)"
| "is_truthy (str_value v) = (v \<noteq> [])"
| "is_truthy (list_value v) = (v \<noteq> [])"
| "is_truthy (dict_value v) = (dv_values v \<noteq> [])"
| "is_truthy (schema_value v) = (dv_values (sv_config v) \<noteq> [])"
| "is_truthy (func_value _) = True"
| "is_truthy (unit_value v _ _) = (\<not> f64_eq v f64_zero)"

definition logic_and :: "val \<Rightarrow> val \<Rightarrow> bool" where
  "logic_and v x \<longleftrightarrow> is_truthy v \<and> is_truthy x"

definition logic_or :: "val \<Rightarrow> val \<Rightarrow> bool" where
  "logic_or v x \<longleftrightarrow> is_truthy v \<or> is_truthy x"

definition as_bool :: "val \<Rightarrow> bool" where
  "as_bool v = is_truthy v"

definition as_int :: "val \<Rightarrow> i64" where
  "as_int v = (case v of
     int_value x \<Rightarrow> x
   | float_value x \<Rightarrow> f64_to_i64 x
   | unit_value x _ _ \<Rightarrow> f64_to_i64 x
   | _ \<Rightarrow> 0)"

definition must_as_strict_int :: "val \<Rightarrow> i64 res" where
  "must_as_strict_int v = (case v of int_value x \<Rightarrow> Inr x | _ \<Rightarrow> Inl InvalidIntValue)"

definition as_float :: "val \<Rightarrow> f64" where
  "as_float v = (case v of
     int_value x \<Rightarrow> f64_of_i64 x
   | float_value x \<Rightarrow> x
   | unit_value x _ _ \<Rightarrow> x
   | _ \<Rightarrow> f64_zero)"

definition as_num :: "val \<Rightarrow> f64" where
  "as_num v = (case v of float_value x \<Rightarrow> x | int_value x \<Rightarrow> f64_of_i64 x | _ \<Rightarrow> f64_zero)"

definition as_str :: "val \<Rightarrow> string" where
  "as_str v = (case v of str_value s \<Rightarrow> s | _ \<Rightarrow> [])"

definition as_list_ref :: "val \<Rightarrow> val list res" where
  "as_list_ref v = (case v of list_value vs \<Rightarrow> Inr vs | _ \<Rightarrow> Inl (InvalidConfig ''invalid list value''))"

definition as_dict_ref :: "val \<Rightarrow> val dict_value res" where
  "as_dict_ref v = (case v of
     dict_value d \<Rightarrow> Inr d
   | schema_value s \<Rightarrow> Inr (sv_config s)
   | _ \<Rightarrow> Inl (InvalidConfig ''invalid dict value''))"

definition as_schema :: "val \<Rightarrow> val schema_value res" where
  "as_schema v = (case v of schema_value s \<Rightarrow> Inr s | _ \<Rightarrow> Inl (InvalidConfig ''invalid schema value''))"

section \<open>Lengths and unary operators\<close>

definition value_len :: "val \<Rightarrow> nat res" where
  "value_len v = (case v of
     str_value s \<Rightarrow> Inr (length s)
   | list_value vs \<Rightarrow> Inr (length vs)
   | dict_value d \<Rightarrow> Inr (length (dv_values d))
   | schema_value s \<Rightarrow> Inr (length (dv_values (sv_config s)))
   | _ \<Rightarrow> Inl (NoLen v))"

definition value_is_empty :: "val \<Rightarrow> bool res" where
  "value_is_empty v = (case value_len v of Inl e \<Rightarrow> Inl e | Inr n \<Rightarrow> Inr (n = 0))"

definition unary_plus :: "val \<Rightarrow> val res" where
  "unary_plus v = (case v of
     int_value a \<Rightarrow> Inr (int_value a)
   | float_value a \<Rightarrow> Inr (float_value a)
   | _ \<Rightarrow> Inl (BadUnaryOperand ''+'' v))"

definition unary_minus :: "val \<Rightarrow> val res" where
  "unary_minus v = (case v of
     int_value a \<Rightarrow> Inr (int_value (0 - a))
   | float_value a \<Rightarrow> Inr (float_value (f64_sub f64_zero a))
   | _ \<Rightarrow> Inl (BadUnaryOperand ''-'' v))"

definition unary_not :: "val \<Rightarrow> val" where
  "unary_not v = int_value (NOT (as_int v))"

definition unary_l_not :: "val \<Rightarrow> val" where
  "unary_l_not v = bool_value (\<not> is_truthy v)"

section \<open>Names of types\<close>

definition type_str :: "val \<Rightarrow> string" where
  "type_str v = (case v of
     undefined_value \<Rightarrow> ''UndefinedType''
   | none_value \<Rightarrow> ''NoneType''
   | bool_value _ \<Rightarrow> ''bool''
   | int_value _ \<Rightarrow> ''int''
   | float_value _ \<Rightarrow> ''float''
   | unit_value _ raw suffix \<Rightarrow>
       ''number_multiplier('' @ show_int (sint raw) @ suffix @ '')''
   | str_value _ \<Rightarrow> ''str''
   | list_value _ \<Rightarrow> ''list''
   | dict_value _ \<Rightarrow> ''dict''
   | schema_value s \<Rightarrow> sv_name s
   | func_value f \<Rightarrow> (if fv_runtime_type f = [] then ''function'' else ''type''))"

section \<open>Constructors\<close>

definition mk_list :: "val list option \<Rightarrow> val" where
  "mk_list vs = list_value (case vs of None \<Rightarrow> [] | Some xs \<Rightarrow> xs)"

definition mk_dict :: "(string \<times> val) list option \<Rightarrow> val" where
  "mk_dict kvs = dict_value (set_values
     (im_insert_all [] (case kvs of None \<Rightarrow> [] | Some xs \<Rightarrow> xs)) default_dict)"

section \<open>Lookups\<close>

definition get_by_key :: "val \<Rightarrow> string \<Rightarrow> val option" where
  "get_by_key v key = (case v of
     list_value vs \<Rightarrow> (case parse_usize key of
         Some i \<Rightarrow> (if i < length vs then Some (vs ! i) else None)
       | None \<Rightarrow> None)
   | dict_value d \<Rightarrow> im_get (dv_values d) key
   | schema_value s \<Rightarrow> im_get (dv_values (sv_config s)) key
   | _ \<Rightarrow> None)"

fun get_by_keys :: "val \<Rightarrow> string list \<Rightarrow> val option" where
  "get_by_keys v [] = Some v"
| "get_by_keys v (key # ks) =
     (case get_by_key v key of None \<Rightarrow> None | Some x \<Rightarrow> get_by_keys x ks)"

definition get_by_path :: "val \<Rightarrow> string \<Rightarrow> val option" where
  "get_by_path v path = get_by_keys v (split_on CHR ''.'' path)"

definition has_key :: "val \<Rightarrow> string \<Rightarrow> bool" where
  "has_key v key = (case v of
     dict_value d \<Rightarrow> im_contains (dv_values d) key
   | schema_value s \<Rightarrow> im_contains (dv_values (sv_config s)) key
   | _ \<Rightarrow> False)"

section \<open>Well-formed values\<close>

text \<open>Every dict of a value, at any depth, has distinct keys: what the hash map guarantees
  of its representation.\<close>

function value_wf :: "val \<Rightarrow> bool" where
  "value_wf (list_value vs) \<longleftrightarrow> list_all value_wf vs"
| "value_wf (dict_value d) \<longleftrightarrow>
     im_wf (dv_values d) \<and> list_all (\<lambda>(k, v). value_wf v) (dv_values d)"
| "value_wf (schema_value s) \<longleftrightarrow>
     im_wf (dv_values (sv_config s)) \<and> list_all (\<lambda>(k, v). value_wf v) (dv_values (sv_config s))"
| "value_wf undefined_value \<longleftrightarrow> True"
| "value_wf none_value \<longleftrightarrow> True"
| "value_wf (bool_value _) \<longleftrightarrow> True"
| "value_wf (int_value _) \<longleftrightarrow> True"
| "value_wf (float_value _) \<longleftrightarrow> True"
| "value_wf (str_value _) \<longleftrightarrow> True"
| "value_wf (func_value _) \<longleftrightarrow> True"
| "value_wf (unit_value _ _ _) \<longleftrightarrow> True"
  by pat_completeness auto
termination
  by (relation "measure size") (auto simp del: val.size intro: size_list_value_mem
      size_dict_value_mem size_schema_value_mem)

text \<open>Values that contain neither a NaN nor a number with a unit suffix, outside functions
  and schema metadata.\<close>

function value_plain :: "val \<Rightarrow> bool" where
  "value_plain (list_value vs) \<longleftrightarrow> list_all value_plain vs"
| "value_plain (dict_value d) \<longleftrightarrow> list_all (\<lambda>(k, v). value_plain v) (dv_values d)"
| "value_plain (schema_value s) \<longleftrightarrow> list_all (\<lambda>(k, v). value_plain v) (dv_values (sv_config s))"
| "value_plain undefined_value \<longleftrightarrow> True"
| "value_plain none_value \<longleftrightarrow> True"
| "value_plain (bool_value _) \<longleftrightarrow> True"
| "value_plain (int_value _) \<longleftrightarrow> True"
| "value_plain (float_value x) \<longleftrightarrow> x \<noteq> NaN"
| "value_plain (str_value _) \<longleftrightarrow> True"
| "value_plain (func_value _) \<longleftrightarrow> True"
| "value_plain (unit_value _ _ _) \<longleftrightarrow> False"
  by pat_completeness auto
termination
  by (relation "measure size") (auto simp del: val.size intro: size_list_value_mem
      size_dict_value_mem size_schema_value_mem)

text \<open>Induction over the values stored in lists, dicts and schemas.\<close>

lemma value_tree_induct [case_names list_v dict_v schema_v leaf]:
  assumes "\<And>vs. (\<And>v. v \<in> set vs \<Longrightarrow> P v) \<Longrightarrow> P (list_value vs)"
    and "\<And>d. (\<And>k v. (k, v) \<in> set (dv_values d) \<Longrightarrow> P v) \<Longrightarrow> P (dict_value d)"
    and "\<And>s. (\<And>k v. (k, v) \<in> set (dv_values (sv_config s)) \<Longrightarrow> P v) \<Longrightarrow> P (schema_value s)"
    and "\<And>v. \<not> is_list_or_config v \<Longrightarrow> P v"
  shows "P v"
proof (induction "size v" arbitrary: v rule: less_induct)
  case less
  show ?case
  proof (cases "is_list_or_config v")
    case True
    then show ?thesis
      using less assms(1-3) size_list_value_mem size_dict_value_mem size_schema_value_mem
      by (cases v) (metis | simp add: is_list_or_config_def)+
  qed (rule assms(4))
qed

section \<open>Paths\<close>

text \<open>Looking up a concatenated path is looking up its parts in turn.\<close>

lemma get_by_keys_append:
  "get_by_keys v (ks @ ks') =
     (case get_by_keys v ks of None \<Rightarrow> None | Some x \<Rightarrow> get_by_keys x ks')"
  by (induction v ks rule: get_by_keys.induct) (auto split: option.splits)

end
