(* ===== verification/Value_Cmp.thy ===== *)
theory Value_Cmp
  imports Value
begin

text \<open>
  Equality and ordering of runtime values (\<open>crates/runtime/src/value/val_cmp.rs\<close>, the
  \<open>Ord\<close> instance of \<open>api/kcl.rs\<close>) and membership (\<open>val_is_in.rs\<close>).
\<close>

section \<open>Equality\<close>

function cmp_equal :: "val \<Rightarrow> val \<Rightarrow> bool" where
  "cmp_equal v x =
     (case v of
        int_value a \<Rightarrow> (case x of
            int_value b \<Rightarrow> a = b
          | float_value b \<Rightarrow> f64_eq (f64_of_i64 a) b
          | _ \<Rightarrow> False)
      | float_value a \<Rightarrow> (case x of
            int_value b \<Rightarrow> f64_eq a (f64_of_i64 b)
          | float_value b \<Rightarrow> f64_eq a b
          | _ \<Rightarrow> False)
      | undefined_value \<Rightarrow> (case x of undefined_value \<Rightarrow> True | _ \<Rightarrow> False)
      | none_value \<Rightarrow> (case x of none_value \<Rightarrow> True | _ \<Rightarrow> False)
      | bool_value a \<Rightarrow> (case x of bool_value b \<Rightarrow> a = b | _ \<Rightarrow> False)
      | str_value a \<Rightarrow> (case x of str_value b \<Rightarrow> a = b | _ \<Rightarrow> False)
      | list_value a \<Rightarrow> (case x of
            list_value b \<Rightarrow>
              length a = length b \<and> list_all (\<lambda>(p, q). cmp_equal p q) (zip a b)
          | _ \<Rightarrow> False)
      | dict_value a \<Rightarrow> (case x of
            dict_value b \<Rightarrow>
              length (dv_values a) = length (dv_values b) \<and>
              list_all (\<lambda>(k, p). case im_get (dv_values b) k of
                  None \<Rightarrow> False | Some q \<Rightarrow> cmp_equal p q) (dv_values a)
          | _ \<Rightarrow> False)
      | schema_value a \<Rightarrow> (case x of
            schema_value b \<Rightarrow>
              length (dv_values (sv_config a)) = length (dv_values (sv_config b)) \<and>
              list_all (\<lambda>(k, p). case im_get (dv_values (sv_config b)) k of
                  None \<Rightarrow> False | Some q \<Rightarrow> cmp_equal p q) (dv_values (sv_config a))
          | _ \<Rightarrow> False)
      | func_value a \<Rightarrow> (case x of func_value b \<Rightarrow> fv_fn_ptr a = fv_fn_ptr b | _ \<Rightarrow> False)
      | unit_value _ _ _ \<Rightarrow> False)"
  by pat_completeness auto
termination
  by (relation "measure (\<lambda>(v, x). size v)")
    (auto simp del: val.size dest: set_zip_leftD
      intro: size_list_value_mem size_dict_value_mem size_schema_value_mem)

declare cmp_equal.simps [simp del]

lemma cmp_equal_simps [simp]:
  "cmp_equal (int_value a) (int_value b) \<longleftrightarrow> a = b"
  "cmp_equal (int_value a) (float_value c) \<longleftrightarrow> f64_eq (f64_of_i64 a) c"
  "cmp_equal (float_value c) (int_value a) \<longleftrightarrow> f64_eq c (f64_of_i64 a)"
  "cmp_equal (float_value c) (float_value c') \<longleftrightarrow> f64_eq c c'"
  "cmp_equal (list_value xs) (list_value ys) \<longleftrightarrow> list_all2 cmp_equal xs ys"
  "cmp_equal (unit_value u i t) x \<longleftrightarrow> False"
  "cmp_equal (str_value s) (str_value t) \<longleftrightarrow> s = t"
  "cmp_equal (bool_value p) (bool_value q) \<longleftrightarrow> p = q"
  by (subst cmp_equal.simps, simp add: list_all2_iff list_all_iff)+

definition cmp_not_equal :: "val \<Rightarrow> val \<Rightarrow> bool" where
  "cmp_not_equal v x \<longleftrightarrow> \<not> cmp_equal v x"

text \<open>Two dicts are equal when they have as many entries and every entry of the first has
  an equal entry in the second.\<close>

definition entries_equal :: "(string, val) imap \<Rightarrow> (string, val) imap \<Rightarrow> bool" where
  "entries_equal m n \<longleftrightarrow> length m = length n \<and>
     (\<forall>(k, p) \<in> set m. \<exists>q. im_get n k = Some q \<and> cmp_equal p q)"

lemma entries_equal_iff:
  "cmp_equal (dict_value a) (dict_value b) \<longleftrightarrow> entries_equal (dv_values a) (dv_values b)"
  "cmp_equal (schema_value s) (schema_value t) \<longleftrightarrow>
     entries_equal (dv_values (sv_config s)) (dv_values (sv_config t))"
  by (subst cmp_equal.simps, fastforce simp: entries_equal_def list_all_iff split: option.splits)+

section \<open>Ordering\<close>

text \<open>The four comparison functions of the source have one shape, given by the comparison
  of integers, floats, booleans, strings and list lengths; \<open>cmp_ordered\<close> is that
  shape. Lists compare by their first unequal elements, or by length when there is
  none.\<close>

record cmp_ops =
  on_int :: "int \<Rightarrow> int \<Rightarrow> bool"
  on_float :: "f64 \<Rightarrow> f64 \<Rightarrow> bool"
  on_bool :: "bool \<Rightarrow> bool \<Rightarrow> bool"
  on_str :: "string \<Rightarrow> string \<Rightarrow> bool"
  on_len :: "nat \<Rightarrow> nat \<Rightarrow> bool"
  op_name :: string

function cmp_ordered :: "cmp_ops \<Rightarrow> val \<Rightarrow> val \<Rightarrow> bool res" where
  "cmp_ordered ops v x =
     (case v of
        int_value a \<Rightarrow> (case x of
            int_value b \<Rightarrow> Inr (on_int ops (sint a) (sint b))
          | float_value b \<Rightarrow> Inr (on_float ops (f64_of_i64 a) b)
          | bool_value b \<Rightarrow> Inr (on_int ops (sint a) (of_bool b))
          | _ \<Rightarrow> Inl (UnsupportedCmp (op_name ops) v x))
      | float_value a \<Rightarrow> (case x of
            int_value b \<Rightarrow> Inr (on_float ops a (f64_of_i64 b))
          | float_value b \<Rightarrow> Inr (on_float ops a b)
          | bool_value b \<Rightarrow> Inr (on_float ops a (f64_of_i64 (of_bool b)))
          | _ \<Rightarrow> Inl (UnsupportedCmp (op_name ops) v x))
      | bool_value a \<Rightarrow> (case x of
            int_value b \<Rightarrow> Inr (on_int ops (of_bool a) (sint b))
          | float_value b \<Rightarrow> Inr (on_float ops (f64_of_i64 (of_bool a)) b)
          | bool_value b \<Rightarrow> Inr (on_bool ops a b)
          | _ \<Rightarrow> Inl (UnsupportedCmp (op_name ops) v x))
      | str_value a \<Rightarrow> (case x of
            str_value b \<Rightarrow> Inr (on_str ops a b)
          | _ \<Rightarrow> Inl (UnsupportedCmp (op_name ops) v x))
      | list_value a \<Rightarrow> (case x of
            list_value b \<Rightarrow>
              (case List.find (\<lambda>(p, q). \<not> cmp_equal p q) (zip a b) of
                 Some (p, q) \<Rightarrow> cmp_ordered ops p q
               | None \<Rightarrow> Inr (on_len ops (length a) (length b)))
          | _ \<Rightarrow> Inl (UnsupportedCmp (op_name ops) v x))
      | _ \<Rightarrow> Inl (UnsupportedCmp (op_name ops) v x))"
  by pat_completeness auto
termination
  by (relation "measure (\<lambda>(ops, v, x). size v)")
    (auto simp del: val.size dest: find_zip_fst intro: size_list_value_mem)

declare cmp_ordered.simps [simp del]

definition cmp_less_than :: "val \<Rightarrow> val \<Rightarrow> bool res" where
  "cmp_less_than = cmp_ordered \<lparr>on_int = (<), on_float = f64_lt,
     on_bool = (\<lambda>a b. \<not> a \<and> b), on_str = (<), on_len = (<), op_name = ''<''\<rparr>"

definition cmp_less_than_or_equal :: "val \<Rightarrow> val \<Rightarrow> bool res" where
  "cmp_less_than_or_equal = cmp_ordered \<lparr>on_int = (\<le>), on_float = f64_le,
     on_bool = (\<le>), on_str = (\<le>), on_len = (\<le>), op_name = ''<=''\<rparr>"

definition cmp_greater_than :: "val \<Rightarrow> val \<Rightarrow> bool res" where
  "cmp_greater_than = cmp_ordered \<lparr>on_int = (>), on_float = (\<lambda>a b. f64_lt b a),
     on_bool = (\<lambda>a b. a \<and> \<not> b), on_str = (>), on_len = (>), op_name = ''>''\<rparr>"

definition cmp_greater_than_or_equal :: "val \<Rightarrow> val \<Rightarrow> bool res" where
  "cmp_greater_than_or_equal = cmp_ordered \<lparr>on_int = (\<ge>), on_float = (\<lambda>a b. f64_le b a),
     on_bool = (\<ge>), on_str = (\<ge>), on_len = (\<ge>), op_name = ''>=''\<rparr>"

text \<open>The \<open>Ord\<close> instance of \<open>ValueRef\<close>, used for sorting.\<close>

definition f64_partial_cmp :: "f64 \<Rightarrow> f64 \<Rightarrow> ordering option" where
  "f64_partial_cmp a b =
     (if f64_lt a b then Some Less else if f64_lt b a then Some Greater
      else if f64_eq a b then Some Equal else None)"

definition value_ord_cmp :: "val \<Rightarrow> val \<Rightarrow> ordering res" where
  "value_ord_cmp v x =
     (let ord =
        (case v of
           int_value a \<Rightarrow> (case x of
               int_value b \<Rightarrow> Some (ordering_of (<) (sint a) (sint b))
             | float_value b \<Rightarrow> f64_partial_cmp (f64_of_i64 a) b
             | _ \<Rightarrow> None)
         | float_value a \<Rightarrow> (case x of
               int_value b \<Rightarrow> f64_partial_cmp a (f64_of_i64 b)
             | float_value b \<Rightarrow> f64_partial_cmp a b
             | _ \<Rightarrow> None)
         | str_value a \<Rightarrow> (case x of
               str_value b \<Rightarrow> Some (ordering_of (<) a b)
             | _ \<Rightarrow> None)
         | _ \<Rightarrow> None)
      in case ord of Some r \<Rightarrow> Inr r | None \<Rightarrow> Inl (CannotCompare v x))"

section \<open>Membership\<close>

definition value_in :: "val \<Rightarrow> val \<Rightarrow> bool res" where
  "value_in v x =
     (case x of
        str_value b \<Rightarrow> (case v of str_value a \<Rightarrow> Inr (is_substring a b) | _ \<Rightarrow> Inr False)
      | list_value xs \<Rightarrow> Inr (list_ex (cmp_equal v) xs)
      | dict_value d \<Rightarrow> Inr (im_contains (dv_values d) (as_str v))
      | schema_value s \<Rightarrow> Inr (im_contains (dv_values (sv_config s)) (as_str v))
      | _ \<Rightarrow> Inl (NotIterable x))"

definition value_not_in :: "val \<Rightarrow> val \<Rightarrow> bool res" where
  "value_not_in v x = (case value_in v x of Inl e \<Rightarrow> Inl e | Inr b \<Rightarrow> Inr (\<not> b))"

definition has_value :: "val \<Rightarrow> val \<Rightarrow> bool res" where
  "has_value v x = value_in x v"

section \<open>Equality is an equivalence on plain data up to number conversion\<close>

lemma entries_equal_refl:
  assumes "im_wf m" and "\<And>k v. (k, v) \<in> set m \<Longrightarrow> cmp_equal v v"
  shows "entries_equal m m"
  using assms by (auto simp: entries_equal_def im_get_eq_iff)

lemma cmp_equal_leaf_refl: "\<not> is_list_or_config v \<Longrightarrow> value_plain v \<Longrightarrow> cmp_equal v v"
  by (cases v) (auto simp: is_list_or_config_def cmp_equal.simps)

lemma value_cmp_equal_refl: "value_wf v \<Longrightarrow> value_plain v \<Longrightarrow> cmp_equal v v"
proof (induction v rule: value_tree_induct)
  case (list_v vs)
  then show ?case by (auto simp: list_all_iff list.rel_refl_strong)
next
  case (dict_v d)
  then show ?case
    by (auto simp: entries_equal_iff intro!: entries_equal_refl dest: list_all_entryD)
next
  case (schema_v s)
  then show ?case
    by (auto simp: entries_equal_iff intro!: entries_equal_refl dest: list_all_entryD)
qed (rule cmp_equal_leaf_refl)

text \<open>Symmetry of dict equality: an injection between equally many distinct keys is a
  bijection.\<close>

lemma entries_equal_keys:
  assumes "im_wf m" and "im_wf n" and "entries_equal m n"
  shows "set (im_keys m) = set (im_keys n)"
proof -
  have "set (im_keys m) \<subseteq> set (im_keys n)"
    using assms(3) by (force simp: entries_equal_def im_keys_def dest!: im_get_Some_mem)
  moreover have "card (set (im_keys m)) = card (set (im_keys n))"
    using assms by (simp add: im_wf_def distinct_card entries_equal_def)
      (simp add: im_keys_def)
  ultimately show ?thesis by (simp add: card_subset_eq)
qed

lemma entries_equal_sym:
  assumes "im_wf m" and "im_wf n" and "entries_equal m n"
    and sym: "\<And>k p q. (k, p) \<in> set m \<Longrightarrow> (k, q) \<in> set n \<Longrightarrow> cmp_equal p q \<Longrightarrow> cmp_equal q p"
  shows "entries_equal n m"
  unfolding entries_equal_def
proof (intro conjI ballI)
  show "length n = length m" using assms(3) by (simp add: entries_equal_def)
  fix e assume e: "e \<in> set n"
  obtain k q where kq: "e = (k, q)" by fastforce
  with e have "k \<in> set (im_keys m)"
    using entries_equal_keys [OF assms(1-3)] by (force simp: im_keys_def)
  then obtain p where p: "(k, p) \<in> set m" by (auto simp: im_keys_def)
  then obtain q' where "im_get n k = Some q'" "cmp_equal p q'"
    using assms(3) by (auto simp: entries_equal_def)
  moreover from this e kq assms(2) have "q' = q" by (simp add: im_get_eq_iff) (metis im_get_eq_iff option.inject)
  ultimately show "case e of (k, p) \<Rightarrow> \<exists>q. im_get m k = Some q \<and> cmp_equal p q"
    using p kq e sym assms(1) by (auto simp: im_get_eq_iff)
qed

lemma entries_equal_sym_wf:
  assumes "im_wf m" and "im_wf n" and "entries_equal m n"
    and "\<And>k p q. (k, p) \<in> set m \<Longrightarrow> value_wf p \<Longrightarrow> value_wf q \<Longrightarrow> cmp_equal p q \<Longrightarrow> cmp_equal q p"
    and "list_all (\<lambda>(k, v). value_wf v) m" and "list_all (\<lambda>(k, v). value_wf v) n"
  shows "entries_equal n m"
  by (rule entries_equal_sym [OF assms(1-3)]) (use assms(4-6) in \<open>force simp: list_all_iff\<close>)

lemma value_cmp_equal_symI: "value_wf v \<Longrightarrow> value_wf x \<Longrightarrow> cmp_equal v x \<Longrightarrow> cmp_equal x v"
proof (induction v arbitrary: x rule: value_tree_induct)
  case (list_v vs)
  from list_v.prems(3) obtain xs where x: "x = list_value xs"
    by (cases x) (auto simp: cmp_equal.simps)
  with list_v show ?case
    by (fastforce simp: list_all_iff list_all2_conv_all_nth)
next
  case (dict_v d)
  from dict_v.prems(3) obtain e where x: "x = dict_value e"
    by (cases x) (auto simp: cmp_equal.simps)
  with dict_v show ?case
    unfolding entries_equal_iff by (auto intro!: entries_equal_sym_wf simp: entries_equal_iff)
next
  case (schema_v s)
  from schema_v.prems(3) obtain t where x: "x = schema_value t"
    by (cases x) (auto simp: cmp_equal.simps)
  with schema_v show ?case
    unfolding entries_equal_iff by (auto intro!: entries_equal_sym_wf simp: entries_equal_iff)
next
  case (leaf v)
  then show ?case
    by (cases v; cases x) (auto simp: is_list_or_config_def cmp_equal.simps f64_eq_sym)
qed

text \<open>C34. Runtime equality is symmetric on well-formed values, across the numeric
  kinds and however the entries of dicts are ordered.\<close>

theorem cmp_equal_symmetric:
  "value_wf v \<Longrightarrow> value_wf x \<Longrightarrow> cmp_equal v x \<longleftrightarrow> cmp_equal x v"
  using value_cmp_equal_symI by blast

theorem cmp_equal_symmetric_witness:
  "cmp_equal (mk_dict (Some [(''a'', int_value 1), (''b'', int_value 2)]))
     (mk_dict (Some [(''b'', int_value 2), (''a'', int_value 1)]))
   \<longleftrightarrow> cmp_equal (mk_dict (Some [(''b'', int_value 2), (''a'', int_value 1)]))
     (mk_dict (Some [(''a'', int_value 1), (''b'', int_value 2)]))"
  by (rule cmp_equal_symmetric) (simp_all add: mk_dict_def im_wf_def)

end
