(* ===== verification/Value_Dict.thy ===== *)
theory Value_Dict
  imports Value_Cmp
begin

text \<open>
  Dicts and schema instances: \<open>crates/runtime/src/value/val_dict.rs\<close>,
  \<open>val_schema.rs\<close>, \<open>val_clone.rs\<close> and \<open>walker.rs\<close>. An operation on a
  config works on the dict itself or on the config of a schema instance; \<open>map_config\<close>
  is that shape. A method that panics with a message that mentions the type of its
  receiver while it still holds the mutable borrow of it fails with a borrow error instead
  (\<open>AlreadyMutablyBorrowed\<close>).
\<close>

definition map_config :: "(val dict_value \<Rightarrow> val dict_value) \<Rightarrow> panic \<Rightarrow> val \<Rightarrow> val res" where
  "map_config f e v = (case v of
     dict_value d \<Rightarrow> Inr (dict_value (f d))
   | schema_value s \<Rightarrow> Inr (schema_value (set_config (f (sv_config s)) s))
   | _ \<Rightarrow> Inl e)"

section \<open>Methods of dict values\<close>

definition dict_new :: "(string \<times> val) list \<Rightarrow> val dict_value" where
  "dict_new kvs = set_values (im_insert_all [] kvs) default_dict"

definition dv_get :: "val dict_value \<Rightarrow> val \<Rightarrow> val option" where
  "dv_get d key = (case key of str_value s \<Rightarrow> im_get (dv_values d) s | _ \<Rightarrow> None)"

definition dv_insert :: "val dict_value \<Rightarrow> val \<Rightarrow> val \<Rightarrow> val dict_value" where
  "dv_insert d key v = (case key of
     str_value s \<Rightarrow> set_values (im_insert (dv_values d) s v) d
   | _ \<Rightarrow> d)"

definition dv_insert_unpack :: "val dict_value \<Rightarrow> val \<Rightarrow> val dict_value" where
  "dv_insert_unpack d v = (case v of
     dict_value b \<Rightarrow> set_values (im_insert_all (dv_values d) (dv_values b)) d
   | _ \<Rightarrow> d)"

section \<open>Dict operations of values\<close>

definition dict_config :: "val \<Rightarrow> val dict_value res" where
  "dict_config v = (case v of
     dict_value d \<Rightarrow> Inr d
   | schema_value s \<Rightarrow> Inr (sv_config s)
   | _ \<Rightarrow> Inl (InvalidConfig ''invalid dict config value type''))"

definition dict_int :: "(string \<times> i64) list \<Rightarrow> val" where
  "dict_int kvs = dict_value (dict_new (map (\<lambda>(k, x). (k, int_value x)) kvs))"

definition dict_float :: "(string \<times> f64) list \<Rightarrow> val" where
  "dict_float kvs = dict_value (dict_new (map (\<lambda>(k, x). (k, float_value x)) kvs))"

definition dict_bool :: "(string \<times> bool) list \<Rightarrow> val" where
  "dict_bool kvs = dict_value (dict_new (map (\<lambda>(k, x). (k, bool_value x)) kvs))"

definition dict_str :: "(string \<times> string) list \<Rightarrow> val" where
  "dict_str kvs = dict_value (dict_new (map (\<lambda>(k, x). (k, str_value x)) kvs))"

definition dict_clear :: "val \<Rightarrow> val res" where
  "dict_clear = map_config (set_values []) (InvalidConfig ''invalid config value in dict_clear'')"

definition dict_keys :: "val \<Rightarrow> val res" where
  "dict_keys v = (case dict_config v of
     Inl e \<Rightarrow> Inl e
   | Inr d \<Rightarrow> Inr (list_value (map str_value (im_keys (dv_values d)))))"

definition dict_values :: "val \<Rightarrow> val res" where
  "dict_values v = (case dict_config v of
     Inl e \<Rightarrow> Inl e
   | Inr d \<Rightarrow> Inr (mk_list (Some (im_values (dv_values d)))))"

definition dict_get :: "val \<Rightarrow> val \<Rightarrow> val option res" where
  "dict_get v key = (case v of
     dict_value d \<Rightarrow> Inr (dv_get d key)
   | schema_value s \<Rightarrow> Inr (dv_get (sv_config s) key)
   | _ \<Rightarrow> Inl (InvalidConfig ''invalid config value in dict_get''))"

definition dict_get_value :: "val \<Rightarrow> string \<Rightarrow> val option" where
  "dict_get_value v key = (case v of
     dict_value d \<Rightarrow> im_get (dv_values d) key
   | schema_value s \<Rightarrow> im_get (dv_values (sv_config s)) key
   | _ \<Rightarrow> None)"

definition dict_get_attr_operator :: "val \<Rightarrow> string \<Rightarrow> config_entry_op option" where
  "dict_get_attr_operator v key = (case v of
     dict_value d \<Rightarrow> im_get (dv_ops d) key
   | schema_value s \<Rightarrow> im_get (dv_ops (sv_config s)) key
   | _ \<Rightarrow> None)"

definition dict_get_insert_index :: "val \<Rightarrow> string \<Rightarrow> i32 option" where
  "dict_get_insert_index v key = (case v of
     dict_value d \<Rightarrow> im_get (dv_insert_indexs d) key
   | schema_value s \<Rightarrow> im_get (dv_insert_indexs (sv_config s)) key
   | _ \<Rightarrow> None)"

text \<open>\<open>dict_update_entry\<close> on the dict it reaches, and on a value.\<close>

definition update_entry ::
  "string \<Rightarrow> val \<Rightarrow> config_entry_op \<Rightarrow> i32 option \<Rightarrow> val dict_value \<Rightarrow> val dict_value" where
  "update_entry key v op index d =
     (let d1 = set_ops (im_insert (dv_ops d) key op) (set_values (im_insert (dv_values d) key v) d)
      in case index of
           Some i \<Rightarrow> set_insert_indexs (im_insert (dv_insert_indexs d1) key i) d1
         | None \<Rightarrow> d1)"

definition dict_update_entry ::
  "val \<Rightarrow> string \<Rightarrow> val \<Rightarrow> config_entry_op \<Rightarrow> i32 option \<Rightarrow> val res" where
  "dict_update_entry p key v op index =
     map_config (update_entry key v op index) (RustPanic AlreadyMutablyBorrowed) p"

text \<open>The operation of an entry, \<open>Union\<close> when the dict records none.\<close>

definition entry_op :: "'v dict_value \<Rightarrow> string \<Rightarrow> config_entry_op" where
  "entry_op d k = (case im_get (dv_ops d) k of Some op \<Rightarrow> op | None \<Rightarrow> Union)"

definition set_potential_schema_type :: "string \<Rightarrow> val dict_value \<Rightarrow> val dict_value" where
  "set_potential_schema_type ty d = (if ty = [] then d else set_potential_schema (Some ty) d)"

definition schema_type_or_default :: "'v dict_value \<Rightarrow> string" where
  "schema_type_or_default d = (case dv_potential_schema d of Some t \<Rightarrow> t | None \<Rightarrow> [])"

definition entries_of ::
  "(string \<Rightarrow> config_entry_op) \<Rightarrow> val dict_value \<Rightarrow> string list \<Rightarrow> val dict_value" where
  "entries_of op_of d keys =
     set_potential_schema_type (schema_type_or_default d)
       (fold (\<lambda>key acc. case im_get (dv_values d) key of
                Some v \<Rightarrow> update_entry key v (op_of key) (im_get (dv_insert_indexs d) key) acc
              | None \<Rightarrow> acc) keys default_dict)"

definition dict_get_entry :: "val \<Rightarrow> string \<Rightarrow> val option res" where
  "dict_get_entry v key =
     (let entry = (\<lambda>d. if im_contains (dv_values d) key
                       then Some (dict_value (entries_of (entry_op d) d [key])) else None)
      in case v of
           dict_value d \<Rightarrow> Inr (entry d)
         | schema_value s \<Rightarrow> Inr (entry (sv_config s))
         | _ \<Rightarrow> Inl (InvalidConfig ''invalid config value in dict_get_entry''))"

definition dict_get_entries :: "val \<Rightarrow> string list \<Rightarrow> val res" where
  "dict_get_entries v keys = (case v of
     dict_value d \<Rightarrow> Inr (dict_value (entries_of (entry_op d) d keys))
   | schema_value s \<Rightarrow> Inr (dict_value (entries_of (entry_op (sv_config s)) (sv_config s) keys))
   | _ \<Rightarrow> Inl (InvalidConfig ''invalid config value in dict_get_entries''))"

definition dict_get_entries_with_op :: "val \<Rightarrow> string list \<Rightarrow> config_entry_op \<Rightarrow> val res" where
  "dict_get_entries_with_op v keys op = (case v of
     dict_value d \<Rightarrow> Inr (dict_value (entries_of (\<lambda>_. op) d keys))
   | schema_value s \<Rightarrow> Inr (dict_value (entries_of (\<lambda>_. op) (sv_config s) keys))
   | _ \<Rightarrow> Inl (InvalidConfig ''invalid config value in dict_get_entries''))"

definition dict_update :: "val \<Rightarrow> val \<Rightarrow> val res" where
  "dict_update p v =
     map_config (\<lambda>d. case dict_config v of
         Inr b \<Rightarrow> set_values (im_insert_all (dv_values d) (dv_values b))
                    (set_potential_schema (dv_potential_schema b) d)
       | Inl _ \<Rightarrow> d) (RustPanic AlreadyMutablyBorrowed) p"

definition dict_update_key_value :: "val \<Rightarrow> string \<Rightarrow> val \<Rightarrow> val res" where
  "dict_update_key_value p key v =
     map_config (\<lambda>d. set_values (im_insert (dv_values d) key v) d)
       (RustPanic AlreadyMutablyBorrowed) p"

definition dict_remove :: "val \<Rightarrow> string \<Rightarrow> val res" where
  "dict_remove p key =
     map_config (\<lambda>d. set_values (im_swap_remove (dv_values d) key) d)
       (RustPanic AlreadyMutablyBorrowed) p"

section \<open>Schema instances\<close>

definition schema_runtime_type :: "string \<Rightarrow> string \<Rightarrow> string" where
  "schema_runtime_type name pkgpath = pkgpath @ ''.'' @ name"

definition CONFIG_META_FILENAME :: string where "CONFIG_META_FILENAME = ''$filename''"
definition CONFIG_META_LINE :: string where "CONFIG_META_LINE = ''$lineno''"
definition CONFIG_META_COLUMN :: string where "CONFIG_META_COLUMN = ''$columnno''"
definition CAL_MAP_INDEX_SIGNATURE :: string where
  "CAL_MAP_INDEX_SIGNATURE = ''$cal_map_index_signature''"

definition schema_config_meta_dict :: "string \<Rightarrow> 64 word \<Rightarrow> 64 word \<Rightarrow> val" where
  "schema_config_meta_dict filename line column =
     mk_dict (Some [(CONFIG_META_FILENAME, str_value filename),
       (CONFIG_META_LINE, int_value line), (CONFIG_META_COLUMN, int_value column)])"

definition schema_assert :: "val \<Rightarrow> string \<Rightarrow> val \<Rightarrow> unit res" where
  "schema_assert v msg config_meta =
     (if is_truthy v then Inr ()
      else if get_by_key config_meta CONFIG_META_FILENAME \<noteq> None \<and>
              (get_by_key config_meta CONFIG_META_LINE = None \<or>
               get_by_key config_meta CONFIG_META_COLUMN = None)
      then Inl (RustPanic UnwrapNone)
      else Inl (CheckFailed msg))"

definition dict_to_schema ::
  "val \<Rightarrow> string \<Rightarrow> string \<Rightarrow> string list \<Rightarrow> val \<Rightarrow> val \<Rightarrow> val option \<Rightarrow> val option \<Rightarrow> val res" where
  "dict_to_schema v name pkgpath config_keys config_meta optional_mapping args kwargs = (case v of
     dict_value d \<Rightarrow> Inr (schema_value (SchemaValue name pkgpath d config_keys config_meta
       optional_mapping
       (case args of Some a \<Rightarrow> a | None \<Rightarrow> mk_list None)
       (case kwargs of Some a \<Rightarrow> a | None \<Rightarrow> mk_dict None)))
   | schema_value s \<Rightarrow> Inr (schema_value s)
   | _ \<Rightarrow> Inl (InvalidConfig ''invalid dict object to schema''))"

definition schema_to_dict :: "val \<Rightarrow> val res" where
  "schema_to_dict v = (case v of
     schema_value s \<Rightarrow> Inr (dict_value (sv_config s))
   | dict_value d \<Rightarrow> Inr (dict_value d)
   | _ \<Rightarrow> Inl (InvalidConfig ''invalid schema object to dict''))"

definition schema_name :: "val \<Rightarrow> string" where
  "schema_name v = (case v of schema_value s \<Rightarrow> sv_name s | _ \<Rightarrow> [])"

definition schema_optional_mapping :: "val \<Rightarrow> val" where
  "schema_optional_mapping v = (case v of schema_value s \<Rightarrow> sv_optional_mapping s | _ \<Rightarrow> mk_dict None)"

definition schema_config_meta :: "val \<Rightarrow> val" where
  "schema_config_meta v = (case v of schema_value s \<Rightarrow> sv_config_meta s | _ \<Rightarrow> mk_dict None)"

text \<open>The part of a schema type the fit test reads: its attribute names and whether it has
  an index signature.\<close>

record schema_type =
  ty_attrs :: "string list"
  ty_has_index_signature :: bool

definition keys_not_in_schema :: "val \<Rightarrow> schema_type \<Rightarrow> val \<Rightarrow> string list" where
  "keys_not_in_schema v ty cal_order = (case dict_config v of
     Inl _ \<Rightarrow> []
   | Inr d \<Rightarrow> filter (\<lambda>key.
         let no_such_attr = (key \<notin> set (ty_attrs ty) \<and> dict_get_value cal_order key = None \<and>
               take 1 key \<noteq> ''_'');
             has_index_signature = (ty_has_index_signature ty \<or>
               dict_get_value cal_order CAL_MAP_INDEX_SIGNATURE \<noteq> None)
         in \<not> has_index_signature \<and> no_such_attr) (im_keys (dv_values d)))"

definition is_fit_schema :: "val \<Rightarrow> schema_type \<Rightarrow> val \<Rightarrow> bool" where
  "is_fit_schema v ty cal_order \<longleftrightarrow> keys_not_in_schema v ty cal_order = []"

definition set_schema_args :: "val \<Rightarrow> val \<Rightarrow> val \<Rightarrow> val" where
  "set_schema_args v args kwargs = (case v of
     schema_value s \<Rightarrow> schema_value (SchemaValue (sv_name s) (sv_pkgpath s) (sv_config s)
       (sv_config_keys s) (sv_config_meta s) (sv_optional_mapping s) args kwargs)
   | _ \<Rightarrow> v)"

definition get_potential_schema_type :: "val \<Rightarrow> string option" where
  "get_potential_schema_type v = (case v of
     dict_value d \<Rightarrow> dv_potential_schema d
   | schema_value s \<Rightarrow> dv_potential_schema (sv_config s)
   | _ \<Rightarrow> None)"

definition has_potential_schema_type :: "val \<Rightarrow> bool" where
  "has_potential_schema_type v = (get_potential_schema_type v \<noteq> None)"

definition update_attr_map :: "val \<Rightarrow> string \<Rightarrow> string \<Rightarrow> val res" where
  "update_attr_map v name ty =
     map_config (\<lambda>d. set_attr_map (im_insert (dv_attr_map d) name ty) d)
       (RustPanic AlreadyMutablyBorrowed) v"

definition attr_map_get :: "val \<Rightarrow> string \<Rightarrow> string option res" where
  "attr_map_get v name = (case v of
     dict_value d \<Rightarrow> Inr (im_get (dv_attr_map d) name)
   | schema_value s \<Rightarrow> Inr (im_get (dv_attr_map (sv_config s)) name)
   | _ \<Rightarrow> Inl (InvalidConfig ''invalid object in attr_map_get''))"

definition schema_update_with_schema :: "val \<Rightarrow> val \<Rightarrow> val" where
  "schema_update_with_schema v x = (case v of
     schema_value s \<Rightarrow> (case x of
         schema_value t \<Rightarrow>
           (let c = fold (\<lambda>(k, u). update_entry k u (entry_op (sv_config t) k)
                        (im_get (dv_insert_indexs (sv_config t)) k))
                      (dv_values (sv_config t))
                      (set_potential_schema (dv_potential_schema (sv_config t)) (sv_config s))
            in schema_value (SchemaValue (sv_name s) (sv_pkgpath s) c (sv_config_keys t)
                 (sv_config_meta s) (sv_optional_mapping s) (sv_args s) (sv_kwargs s)))
       | _ \<Rightarrow> v)
   | _ \<Rightarrow> v)"

section \<open>Walking a value\<close>

text \<open>The values \<open>walk_value\<close> calls its function on, in the order of the calls.\<close>

function walk_value :: "val \<Rightarrow> val list" where
  "walk_value v = v # (case v of
     list_value vs \<Rightarrow> concat (map walk_value vs)
   | dict_value d \<Rightarrow> concat (map (\<lambda>(k, u). walk_value u) (dv_values d))
   | schema_value s \<Rightarrow> concat (map (\<lambda>(k, u). walk_value u) (dv_values (sv_config s)))
   | _ \<Rightarrow> [])"
  by pat_completeness auto
termination
  by (relation "measure size") (auto simp del: val.size intro: size_list_value_mem
      size_dict_value_mem size_schema_value_mem)

declare walk_value.simps [simp del]

lemma walk_value_size: "u \<in> set (walk_value v) \<Longrightarrow> size u \<le> size v"
proof (induction v rule: value_tree_induct)
  case (list_v vs)
  then show ?case
    using size_list_value_mem [of _ vs]
    by (subst (asm) walk_value.simps) (fastforce simp del: val.size)
next
  case (dict_v d)
  then show ?case
    using size_dict_value_mem [of _ _ d]
    by (subst (asm) walk_value.simps) (fastforce simp del: val.size)
next
  case (schema_v s)
  then show ?case
    using size_schema_value_mem [of _ _ s]
    by (subst (asm) walk_value.simps) (fastforce simp del: val.size)
next
  case (leaf v)
  then show ?case
    by (subst (asm) walk_value.simps) (cases v; simp add: is_list_or_config_def)
qed

section \<open>Required attributes\<close>

text \<open>The first entry that fails decides the panic.\<close>

fun first_panic :: "unit res list \<Rightarrow> unit res" where
  "first_panic [] = Inr ()"
| "first_panic (Inl e # rs) = Inl e"
| "first_panic (Inr _ # rs) = first_panic rs"

lemma first_panic_ok_iff: "first_panic rs = Inr () \<longleftrightarrow> (\<forall>r \<in> set rs. r = Inr ())"
  by (induction rs rule: first_panic.induct) auto

lemma first_panic_append:
  "first_panic (rs @ ss) = (case first_panic rs of Inl e \<Rightarrow> Inl e | Inr _ \<Rightarrow> first_panic ss)"
  by (induction rs rule: first_panic.induct) auto

definition check_required :: "val dict_value \<Rightarrow> val \<Rightarrow> unit res" where
  "check_required attrs v = (case schema_optional_mapping v of
     dict_value om \<Rightarrow> first_panic (map (\<lambda>(attr, is_optional).
         let is_required = \<not> as_bool is_optional;
             u = (case im_get (dv_values attrs) attr of Some u \<Rightarrow> u | None \<Rightarrow> undefined_value)
         in if is_required \<and> is_none_or_undefined u
            then Inl (RequiredAttr attr (schema_name v)) else Inr ()) (dv_values om))
   | _ \<Rightarrow> Inl (InvalidConfig ''Invalid optional mapping''))"

function schema_check_attr_optional :: "val \<Rightarrow> bool \<Rightarrow> unit res" where
  "schema_check_attr_optional v recursive = (case dict_config v of
     Inl e \<Rightarrow> Inl (InvalidConfig ''invalid schema or dict value'')
   | Inr attrs \<Rightarrow> (case check_required attrs v of
       Inl e \<Rightarrow> Inl e
     | Inr _ \<Rightarrow>
         if recursive
         then first_panic (map (\<lambda>(k, u). first_panic (map (\<lambda>w.
                if is_schema w then schema_check_attr_optional w True else Inr ())
                (walk_value u))) (dv_values attrs))
         else Inr ()))"
  by pat_completeness auto
termination
proof (relation "measure (\<lambda>(v, r). size v)")
  fix v recursive attrs u a k w x2
  assume "dict_config v = Inr attrs" and "(a :: string \<times> val) \<in> set (dv_values attrs)"
    and "(k, u) = a" and "w \<in> set (walk_value u)"
  then have "size u < size v" "size w \<le> size u"
    using size_dict_value_mem size_schema_value_mem walk_value_size
    by (auto simp: dict_config_def simp del: val.size split: val.splits)
  then show "((w, True), v, recursive) \<in> measure (\<lambda>(v, r). size v)" by simp
qed simp

declare schema_check_attr_optional.simps [simp del]

section \<open>Deep copy\<close>

definition copy_entries :: "val dict_value \<Rightarrow> (string \<times> val) list \<Rightarrow> val dict_value \<Rightarrow> val dict_value" where
  "copy_entries d = fold (\<lambda>(k, v). update_entry k v (entry_op d k) (im_get (dv_insert_indexs d) k))"

text \<open>For a schema the recorded attribute types are copied along.\<close>

definition copy_attr_map :: "val dict_value \<Rightarrow> (string \<times> val) list \<Rightarrow> val dict_value \<Rightarrow> val dict_value" where
  "copy_attr_map d = fold (\<lambda>(k, v) acc. case im_get (dv_attr_map d) k of
       Some ty \<Rightarrow> set_attr_map (im_insert (dv_attr_map acc) k ty) acc
     | None \<Rightarrow> acc)"

function deep_copy :: "val \<Rightarrow> val" where
  "deep_copy v = (case v of
     list_value vs \<Rightarrow> list_value (map deep_copy vs)
   | dict_value d \<Rightarrow> dict_value (set_potential_schema_type (schema_type_or_default d)
       (copy_entries d (map (\<lambda>(k, u). (k, deep_copy u)) (dv_values d)) (dict_new [])))
   | schema_value s \<Rightarrow>
       (let d = sv_config s;
            kvs = map (\<lambda>(k, u). (k, deep_copy u)) (dv_values d)
        in schema_value (set_config (copy_attr_map d kvs (copy_entries d kvs
             (set_potential_schema_type (schema_type_or_default d) (dict_new [])))) s))
   | _ \<Rightarrow> v)"
  by pat_completeness auto
termination
  by (relation "measure size") (auto simp del: val.size intro: size_list_value_mem
      size_dict_value_mem size_schema_value_mem)

declare deep_copy.simps [simp del]

section \<open>Laws of the copy\<close>

definition present_indexs :: "val dict_value \<Rightarrow> (string \<times> val) list \<Rightarrow> (string \<times> i32) list" where
  "present_indexs d kvs = List.map_filter (\<lambda>(k, v). map_option (Pair k) (im_get (dv_insert_indexs d) k)) kvs"

definition present_attrs :: "val dict_value \<Rightarrow> (string \<times> val) list \<Rightarrow> (string \<times> string) list" where
  "present_attrs d kvs = List.map_filter (\<lambda>(k, v). map_option (Pair k) (im_get (dv_attr_map d) k)) kvs"

lemma copy_entries_Cons:
  "copy_entries d ((k, v) # kvs) acc =
     copy_entries d kvs (update_entry k v (entry_op d k) (im_get (dv_insert_indexs d) k) acc)"
  by (simp add: copy_entries_def)

lemma im_keys_append [simp]: "im_keys (m @ n) = im_keys m @ im_keys n"
  by (simp add: im_keys_def)

lemma copy_entries_fields:
  assumes "im_wf kvs"
    and "set (im_keys kvs) \<inter> (set (im_keys (dv_values acc)) \<union> set (im_keys (dv_ops acc)) \<union>
           set (im_keys (dv_insert_indexs acc))) = {}"
  shows "copy_entries d kvs acc =
     DictValue (dv_values acc @ kvs) (dv_ops acc @ map (\<lambda>(k, v). (k, entry_op d k)) kvs)
       (dv_insert_indexs acc @ present_indexs d kvs) (dv_attr_map acc) (dv_potential_schema acc)
       (dv_schema_args acc)"
  using assms
proof (induction kvs arbitrary: acc)
  case Nil
  show ?case by (cases acc) (simp add: copy_entries_def present_indexs_def map_filter_simps)
next
  case (Cons e kvs)
  obtain k v where e: "e = (k, v)" by fastforce
  let ?acc = "update_entry k v (entry_op d k) (im_get (dv_insert_indexs d) k) acc"
  have new: "k \<notin> set (im_keys (dv_values acc))" "k \<notin> set (im_keys (dv_ops acc))"
      "k \<notin> set (im_keys (dv_insert_indexs acc))" and wf: "im_wf kvs" "k \<notin> set (im_keys kvs)"
    using Cons.prems e by (auto simp: im_wf_def)
  have "copy_entries d kvs ?acc =
     DictValue (dv_values ?acc @ kvs) (dv_ops ?acc @ map (\<lambda>(k, v). (k, entry_op d k)) kvs)
       (dv_insert_indexs ?acc @ present_indexs d kvs) (dv_attr_map ?acc) (dv_potential_schema ?acc)
       (dv_schema_args ?acc)"
    using Cons.prems e wf new
    by (intro Cons.IH) (auto simp: update_entry_def Let_def im_insert_new split: option.splits)
  then show ?case
    using new e by (auto simp: copy_entries_Cons update_entry_def Let_def im_insert_new
        present_indexs_def map_filter_simps set_values_def set_ops_def set_insert_indexs_def
        split: option.splits)
qed

lemma copy_attr_map_fields:
  assumes "im_wf kvs" and "set (im_keys kvs) \<inter> set (im_keys (dv_attr_map acc)) = {}"
  shows "copy_attr_map d kvs acc = set_attr_map (dv_attr_map acc @ present_attrs d kvs) acc"
  using assms
proof (induction kvs arbitrary: acc)
  case Nil
  show ?case
    by (cases acc) (simp add: copy_attr_map_def present_attrs_def map_filter_simps set_attr_map_def)
next
  case (Cons e kvs)
  then show ?case
    by (cases e) (auto simp: copy_attr_map_def present_attrs_def map_filter_simps im_insert_new
        im_wf_def set_attr_map_def split: option.splits)
qed

definition known_schema :: "string option \<Rightarrow> string option" where
  "known_schema p = (if p = Some [] then None else p)"

lemma im_wf_map_values [simp]: "im_wf (map (\<lambda>(k, v). (k, f v)) m) = im_wf m"
  by (simp add: im_wf_def im_keys_def comp_def case_prod_beta)

lemma present_map [simp]:
  "present_indexs d (map (\<lambda>(k, u). (k, f u)) m) = present_indexs d m"
  "present_attrs d (map (\<lambda>(k, u). (k, f u)) m) = present_attrs d m"
  by (induction m)
    (auto simp: present_indexs_def present_attrs_def map_filter_simps split: option.splits)

lemma map_entry_op_map [simp]:
  "map (\<lambda>(k, v). (k, g k)) (map (\<lambda>(k, u). (k, f u)) m) = map (\<lambda>(k, u). (k, g k)) m"
  by (simp add: case_prod_beta comp_def)

lemma deep_copy_dict:
  assumes "im_wf (dv_values d)"
  shows "deep_copy (dict_value d) =
    dict_value (DictValue (map (\<lambda>(k, u). (k, deep_copy u)) (dv_values d))
      (map (\<lambda>(k, u). (k, entry_op d k)) (dv_values d)) (present_indexs d (dv_values d)) []
      (known_schema (dv_potential_schema d)) None)"
  using assms
  by (subst deep_copy.simps)
    (auto simp: copy_entries_fields dict_new_def set_potential_schema_type_def known_schema_def
      schema_type_or_default_def set_potential_schema_def simp del: map_map split: option.splits)

lemma deep_copy_schema:
  assumes "im_wf (dv_values (sv_config s))"
  shows "deep_copy (schema_value s) =
    schema_value (set_config (DictValue
      (map (\<lambda>(k, u). (k, deep_copy u)) (dv_values (sv_config s)))
      (map (\<lambda>(k, u). (k, entry_op (sv_config s) k)) (dv_values (sv_config s)))
      (present_indexs (sv_config s) (dv_values (sv_config s)))
      (present_attrs (sv_config s) (dv_values (sv_config s)))
      (known_schema (dv_potential_schema (sv_config s))) None) s)"
  using assms
  by (subst deep_copy.simps)
    (auto simp: copy_entries_fields copy_attr_map_fields dict_new_def Let_def
      set_potential_schema_type_def known_schema_def schema_type_or_default_def
      set_potential_schema_def set_attr_map_def simp del: map_map split: option.splits)

lemma deep_copy_leaf: "\<not> is_list_or_config v \<Longrightarrow> deep_copy v = v"
  by (subst deep_copy.simps) (cases v; simp add: is_list_or_config_def)

lemma deep_copy_list: "deep_copy (list_value vs) = list_value (map deep_copy vs)"
  by (subst deep_copy.simps) simp

lemma im_get_map: "im_get (map (\<lambda>(k, v). (k, f v)) m) k = map_option f (im_get m k)"
  by (induction m) auto

lemma im_get_keyed: "im_get (map (\<lambda>(k, v). (k, g k)) m) k =
    (if k \<in> set (im_keys m) then Some (g k) else None)"
  by (induction m) auto

lemma im_get_present:
  "im_get (List.map_filter (\<lambda>(k, v). map_option (Pair k) (f k)) m) k =
     (if k \<in> set (im_keys m) then f k else None)"
  by (induction m) (auto simp: map_filter_simps split: option.splits)

lemma entries_equal_map:
  assumes "im_wf m" and "\<And>k v. (k, v) \<in> set m \<Longrightarrow> cmp_equal (f v) v"
  shows "entries_equal (map (\<lambda>(k, v). (k, f v)) m) m"
  using assms by (auto simp: entries_equal_def im_get_eq_iff)

lemma value_deep_copy_equal: "value_wf v \<Longrightarrow> value_plain v \<Longrightarrow> cmp_equal (deep_copy v) v"
proof (induction v rule: value_tree_induct)
  case (list_v vs)
  then show ?case by (auto simp: deep_copy_list list_all_iff list_all2_map1 intro: list.rel_refl_strong)
next
  case (dict_v d)
  then show ?case
    by (auto simp: deep_copy_dict entries_equal_iff intro!: entries_equal_map dest: list_all_entryD)
next
  case (schema_v s)
  then show ?case
    by (auto simp: deep_copy_schema entries_equal_iff intro!: entries_equal_map dest: list_all_entryD)
next
  case (leaf v)
  then show ?case by (simp add: deep_copy_leaf cmp_equal_leaf_refl)
qed

lemma value_deep_copy_wf: "value_wf v \<Longrightarrow> value_wf (deep_copy v)"
proof (induction v rule: value_tree_induct)
  case (list_v vs)
  then show ?case by (auto simp: deep_copy_list list_all_iff)
next
  case (dict_v d)
  then show ?case by (auto simp: deep_copy_dict list_all_iff)
next
  case (schema_v s)
  then show ?case by (auto simp: deep_copy_schema list_all_iff)
next
  case (leaf v)
  then show ?case by (simp add: deep_copy_leaf)
qed

lemma copied_entry_op:
  "k \<in> set (im_keys m) \<Longrightarrow>
   entry_op (DictValue vs (map (\<lambda>(k, u). (k, entry_op d k)) m) is am p a) k = entry_op d k"
  by (simp add: entry_op_def im_get_keyed)

lemma present_cong:
  assumes "\<And>k. k \<in> set (im_keys m) \<Longrightarrow> f k = g k"
  shows "List.map_filter (\<lambda>(k, v). map_option (Pair k) (f k)) m =
         List.map_filter (\<lambda>(k, v). map_option (Pair k) (g k)) m"
  using assms by (induction m) (auto simp: map_filter_simps split: option.splits)

lemma recopied [simp]:
  "map (\<lambda>(k, u). (k, entry_op (DictValue vs (map (\<lambda>(k, u). (k, entry_op d k)) m) is am p a) k)) m =
     map (\<lambda>(k, u). (k, entry_op d k)) m"
  "present_indexs (DictValue vs os (present_indexs d m) am p a) m = present_indexs d m"
  "present_attrs (DictValue vs os is (present_attrs d m) p a) m = present_attrs d m"
  "known_schema (known_schema q) = known_schema q"
proof -
  show "present_indexs (DictValue vs os (present_indexs d m) am p a) m = present_indexs d m"
    "present_attrs (DictValue vs os is (present_attrs d m) p a) m = present_attrs d m"
    unfolding present_indexs_def present_attrs_def
    by (rule present_cong, simp add: im_get_present)+
  show "map (\<lambda>(k, u). (k, entry_op (DictValue vs (map (\<lambda>(k, u). (k, entry_op d k)) m) is am p a) k)) m =
     map (\<lambda>(k, u). (k, entry_op d k)) m"
    by (rule map_cong) (force simp: im_keys_def intro!: copied_entry_op)+
qed (simp add: known_schema_def)

lemma deep_copy_children:
  assumes "list_all (\<lambda>(k, v). value_wf v) m"
    and "\<And>k v. (k, v) \<in> set m \<Longrightarrow> value_wf v \<Longrightarrow> deep_copy (deep_copy v) = deep_copy v"
  shows "map (\<lambda>(k, u). (k, deep_copy u)) (map (\<lambda>(k, u). (k, deep_copy u)) m) =
     map (\<lambda>(k, u). (k, deep_copy u)) m"
  using assms by (force simp: list_all_iff)

lemma value_deep_copy_idem: "value_wf v \<Longrightarrow> deep_copy (deep_copy v) = deep_copy v"
proof (induction v rule: value_tree_induct)
  case (list_v vs)
  then show ?case by (simp add: deep_copy_list list_all_iff)
next
  case (dict_v d)
  then have "map (\<lambda>(k, u). (k, deep_copy u)) (map (\<lambda>(k, u). (k, deep_copy u)) (dv_values d)) =
     map (\<lambda>(k, u). (k, deep_copy u)) (dv_values d)"
    by (intro deep_copy_children) auto
  with dict_v.prems show ?case by (simp add: deep_copy_dict del: map_map)
next
  case (schema_v s)
  then have "map (\<lambda>(k, u). (k, deep_copy u)) (map (\<lambda>(k, u). (k, deep_copy u)) (dv_values (sv_config s))) =
     map (\<lambda>(k, u). (k, deep_copy u)) (dv_values (sv_config s))"
    by (intro deep_copy_children) auto
  with schema_v.prems show ?case by (simp add: deep_copy_schema set_config_def del: map_map)
next
  case (leaf v)
  then show ?case by (simp add: deep_copy_leaf)
qed

section \<open>Lookups after updates\<close>

text \<open>The interface a client of a config uses: lookup, update and removal of an attribute.\<close>

locale config_store =
  fixes attr :: "'c \<Rightarrow> string \<Rightarrow> 'v option"
    and put :: "'c \<Rightarrow> string \<Rightarrow> 'v \<Rightarrow> 'e + 'c"
    and del :: "'c \<Rightarrow> string \<Rightarrow> 'e + 'c"
    and ok :: "'c \<Rightarrow> bool"
    and ok_entry :: "'v \<Rightarrow> bool"
  assumes put_ok: "ok c \<Longrightarrow> ok_entry v \<Longrightarrow> \<exists>c'. put c k v = Inr c' \<and> ok c' \<and> attr c' = (attr c)(k \<mapsto> v)"
    and del_ok: "ok c \<Longrightarrow> \<exists>c'. del c k = Inr c' \<and> ok c' \<and> attr c' = (attr c)(k := None)"
begin

lemma put_attr: "ok c \<Longrightarrow> ok_entry v \<Longrightarrow> put c k v = Inr c' \<Longrightarrow> attr c' = (attr c)(k \<mapsto> v)"
  using put_ok [of c v k] by auto

lemma del_attr: "ok c \<Longrightarrow> del c k = Inr c' \<Longrightarrow> attr c' = (attr c)(k := None)"
  using del_ok [of c k] by auto

lemma put_del:
  assumes "ok c" and "ok_entry v" and "attr c k = None"
  shows "\<exists>c1 c2. put c k v = Inr c1 \<and> del c1 k = Inr c2 \<and> ok c2 \<and> attr c2 = attr c"
proof -
  from put_ok [OF assms(1,2)] obtain c1 where "put c k v = Inr c1" "ok c1"
      "attr c1 = (attr c)(k \<mapsto> v)" by blast
  moreover from del_ok [OF this(2)] obtain c2 where "del c1 k = Inr c2" "ok c2"
      "attr c2 = (attr c1)(k := None)" by blast
  ultimately show ?thesis using assms(3) by (auto simp: fun_upd_idem)
qed

end

definition config_wf :: "val \<Rightarrow> bool" where
  "config_wf v \<longleftrightarrow> is_config v \<and> value_wf v"

lemma list_all_insert:
  "list_all (\<lambda>(k, v). P v) m \<Longrightarrow> P v \<Longrightarrow> list_all (\<lambda>(k, v). P v) (im_insert m k v)"
  by (induction m) auto

lemma list_all_swap_remove:
  "im_wf m \<Longrightarrow> list_all (\<lambda>(k, v). P v) m \<Longrightarrow> list_all (\<lambda>(k, v). P v) (im_swap_remove m k)"
  by (simp add: list_all_iff set_im_swap_remove)

lemma dict_get_value_simps [simp]:
  "dict_get_value (dict_value d) = im_get (dv_values d)"
  "dict_get_value (schema_value s) = im_get (dv_values (sv_config s))"
  by (auto simp: dict_get_value_def)

interpretation cfg: config_store dict_get_value dict_update_key_value dict_remove config_wf value_wf
proof
  fix c v k assume "config_wf c" and "value_wf v"
  then show "\<exists>c'. dict_update_key_value c k v = Inr c' \<and> config_wf c' \<and>
      dict_get_value c' = (dict_get_value c)(k \<mapsto> v)"
    by (cases c) (auto simp: config_wf_def dict_update_key_value_def map_config_def im_get_insert
        list_all_insert is_config_def)
next
  fix c k assume "config_wf c"
  then show "\<exists>c'. dict_remove c k = Inr c' \<and> config_wf c' \<and>
      dict_get_value c' = (dict_get_value c)(k := None)"
    by (cases c) (auto simp: config_wf_def dict_remove_def map_config_def im_get_swap_remove
        list_all_swap_remove is_config_def)
qed

section \<open>The recursive check visits every schema\<close>

definition required_ok :: "val \<Rightarrow> bool" where
  "required_ok v \<longleftrightarrow>
     (case dict_config v of Inl _ \<Rightarrow> False | Inr attrs \<Rightarrow> check_required attrs v = Inr ())"

lemma required_ok_iff:
  "required_ok v \<longleftrightarrow> (\<exists>attrs. dict_config v = Inr attrs \<and> check_required attrs v = Inr ())"
  by (cases "dict_config v") (auto simp: required_ok_def)

lemma walk_value_dict_config:
  "dict_config v = Inr d \<Longrightarrow>
   walk_value v = v # concat (map (\<lambda>(k, u). walk_value u) (dv_values d))"
  by (subst walk_value.simps) (auto simp: dict_config_def split: val.splits)

lemma walk_value_trans:
  "u \<in> set (walk_value v) \<Longrightarrow> w \<in> set (walk_value u) \<Longrightarrow> w \<in> set (walk_value v)"
proof (induction v arbitrary: u rule: value_tree_induct)
  case (list_v vs)
  then show ?case
    by (subst (asm) walk_value.simps, subst walk_value.simps) (auto simp: walk_value.simps [of "list_value vs"])
next
  case (dict_v d)
  then show ?case
    by (subst (asm) walk_value.simps, subst walk_value.simps)
      (fastforce simp: walk_value.simps [of "dict_value d"])
next
  case (schema_v s)
  then show ?case
    by (subst (asm) walk_value.simps, subst walk_value.simps)
      (fastforce simp: walk_value.simps [of "schema_value s"])
next
  case (leaf v)
  then show ?case
    by (subst (asm) walk_value.simps) (cases v; simp add: is_list_or_config_def)
qed

lemma walk_value_self [simp]: "v \<in> set (walk_value v)"
  by (subst walk_value.simps) simp

lemma schema_check_iff:
  assumes "dict_config v = Inr d"
  shows "schema_check_attr_optional v True = Inr () \<longleftrightarrow>
    required_ok v \<and> (\<forall>(k, u) \<in> set (dv_values d). \<forall>w \<in> set (walk_value u).
      is_schema w \<longrightarrow> schema_check_attr_optional w True = Inr ())"
  using assms by (subst schema_check_attr_optional.simps)
    (auto simp: required_ok_def first_panic_ok_iff split: sum.splits if_splits)

lemma schema_check_all:
  assumes "is_schema v"
  shows "schema_check_attr_optional v True = Inr () \<longleftrightarrow>
    (\<forall>u \<in> set (walk_value v). is_schema u \<longrightarrow> required_ok u)"
  using assms
proof (induction "size v" arbitrary: v rule: less_induct)
  case less
  obtain s where s: "v = schema_value s" using less.prems by (cases v) (auto simp: is_schema_def)
  let ?m = "dv_values (sv_config s)"
  have cfg: "dict_config v = Inr (sv_config s)" by (simp add: s dict_config_def)
  have IH: "schema_check_attr_optional w True = Inr () \<longleftrightarrow>
      (\<forall>u \<in> set (walk_value w). is_schema u \<longrightarrow> required_ok u)"
    if "(k, u) \<in> set ?m" "w \<in> set (walk_value u)" "is_schema w" for k u w
    using less.hyps [of w] that size_schema_value_mem [OF that(1)] walk_value_size [OF that(2)]
    by (simp add: s del: val.size)
  have walk: "set (walk_value v) = insert v (\<Union>(k, u) \<in> set ?m. set (walk_value u))"
    by (auto simp: walk_value_dict_config [OF cfg])
  show ?case
  proof
    assume ok: "schema_check_attr_optional v True = Inr ()"
    show "\<forall>u \<in> set (walk_value v). is_schema u \<longrightarrow> required_ok u"
      using ok IH unfolding schema_check_iff [OF cfg] walk by fastforce
  next
    assume "\<forall>u \<in> set (walk_value v). is_schema u \<longrightarrow> required_ok u"
    then have "required_ok v" "\<forall>(k, u) \<in> set ?m. \<forall>w \<in> set (walk_value u).
        is_schema w \<longrightarrow> (\<forall>u \<in> set (walk_value w). is_schema u \<longrightarrow> required_ok u)"
      using less.prems walk_value_trans unfolding walk by blast+
    with IH show "schema_check_attr_optional v True = Inr ()"
      unfolding schema_check_iff [OF cfg] by blast
  qed
qed

section \<open>Properties\<close>



text \<open>Copying is a normal form: a copy of a copy is the first copy, with its entry
  operations, insertion indices and attribute types.\<close>

theorem deep_copy_idempotent:
  assumes "value_wf v"
  shows "deep_copy (deep_copy v) = deep_copy v"
  using assms by (rule value_deep_copy_idem)

theorem deep_copy_idempotent_witness:
  "deep_copy (deep_copy (dict_int [(''a'', 1), (''b'', 2)])) = deep_copy (dict_int [(''a'', 1), (''b'', 2)])"
  using deep_copy_idempotent [of "dict_int [(''a'', 1), (''b'', 2)]"]
  by (simp add: dict_int_def dict_new_def im_wf_def)

text \<open>Setting an attribute a config does not have and removing it again succeeds and
  leaves every lookup of the config as it was, although the removal reorders the
  entries.\<close>

theorem dict_update_then_remove:
  assumes "config_wf c" and "value_wf v" and "dict_get_value c k = None"
  shows "\<exists>c1 c2. dict_update_key_value c k v = Inr c1 \<and> dict_remove c1 k = Inr c2 \<and>
    config_wf c2 \<and> dict_get_value c2 = dict_get_value c"
  using assms by (rule cfg.put_del)

theorem dict_update_then_remove_witness:
  "\<exists>c1 c2. dict_update_key_value (dict_int [(''a'', 1)]) ''b'' none_value = Inr c1 \<and>
    dict_remove c1 ''b'' = Inr c2 \<and> config_wf c2 \<and>
    dict_get_value c2 = dict_get_value (dict_int [(''a'', 1)])"
  by (rule dict_update_then_remove)
    (simp_all add: config_wf_def dict_int_def dict_new_def im_wf_def is_config_def)



end
