(* ===== verification/Value_List.thy ===== *)
theory Value_List
  imports Value_Cmp
begin

text \<open>
  Lists: \<open>crates/runtime/src/value/val_list.rs\<close>, the index normalisation of
  \<open>val_union.rs\<close> and the value iterator of \<open>iter.rs\<close>. Indices keep their machine
  width: list subscripts pass through \<open>i32\<close>, slices are computed on \<open>i64\<close>.
\<close>

section \<open>Vectors\<close>

text \<open>\<open>Vec::insert\<close> and \<open>Vec::remove\<close> panic on an index out of range.\<close>

definition vec_insert :: "nat \<Rightarrow> 'a \<Rightarrow> 'a list \<Rightarrow> 'a list res" where
  "vec_insert i x xs =
     (if i \<le> length xs then Inr (take i xs @ x # drop i xs) else Inl (RustPanic IndexOutOfBounds))"

definition vec_remove :: "nat \<Rightarrow> 'a list \<Rightarrow> 'a list res" where
  "vec_remove i xs =
     (if i < length xs then Inr (take i xs @ drop (Suc i) xs) else Inl (RustPanic IndexOutOfBounds))"

text \<open>Inserting the elements of a list one after the other from an index on.\<close>

fun vec_insert_all :: "nat \<Rightarrow> 'a list \<Rightarrow> 'a list \<Rightarrow> 'a list res" where
  "vec_insert_all i [] xs = Inr xs"
| "vec_insert_all i (y # ys) xs =
     (case vec_insert i y xs of Inl e \<Rightarrow> Inl e | Inr xs' \<Rightarrow> vec_insert_all (Suc i) ys xs')"

lemma vec_insert_all_ok:
  "i \<le> length xs \<Longrightarrow> vec_insert_all i ys xs = Inr (take i xs @ ys @ drop i xs)"
  by (induction ys arbitrary: i xs) (auto simp: vec_insert_def)

definition must_normalize_index :: "i32 \<Rightarrow> nat \<Rightarrow> nat res" where
  "must_normalize_index index len =
     (if sint index < 0
      then let pos_index = index + of_nat len
           in if 0 \<le> sint pos_index then Inr (nat (sint pos_index)) else Inl (IndexNormalize index len)
      else Inr (nat (sint index)))"

section \<open>Construction and access\<close>

definition list_n :: "nat \<Rightarrow> val \<Rightarrow> val" where
  "list_n n v = list_value (replicate n v)"

definition list_bool :: "bool list \<Rightarrow> val" where "list_bool xs = list_value (map bool_value xs)"
definition list_int :: "i64 list \<Rightarrow> val" where "list_int xs = list_value (map int_value xs)"
definition list_float :: "f64 list \<Rightarrow> val" where "list_float xs = list_value (map float_value xs)"
definition list_str :: "string list \<Rightarrow> val" where "list_str xs = list_value (map str_value xs)"

definition on_list :: "string \<Rightarrow> val \<Rightarrow> (val list \<Rightarrow> 'a res) \<Rightarrow> 'a res" where
  "on_list who v f = (case v of list_value vs \<Rightarrow> f vs | _ \<Rightarrow> Inl (InvalidListObject who))"

text \<open>New elements of a resized list are the default value, \<open>undefined\<close>.\<close>

definition list_resize :: "val \<Rightarrow> nat \<Rightarrow> val res" where
  "list_resize v newsize = on_list ''list_resize'' v (\<lambda>vs.
     Inr (list_value (if newsize < length vs then take newsize vs
                      else vs @ replicate (newsize - length vs) undefined_value)))"

definition list_clear :: "val \<Rightarrow> val res" where
  "list_clear v = on_list ''list_clear'' v (\<lambda>vs. Inr (list_value []))"

definition isize_index :: "i64 \<Rightarrow> nat \<Rightarrow> nat" where
  "isize_index i len = (if sint i < 0 then as_usize (i + of_nat len) else as_usize i)"

definition list_get :: "val \<Rightarrow> i64 \<Rightarrow> val option res" where
  "list_get v i = on_list ''list_get'' v (\<lambda>vs.
     let index = isize_index i (length vs)
     in if vs \<noteq> []
        then (if index < length vs then Inr (Some (vs ! index)) else Inl (RustPanic IndexOutOfBounds))
        else Inr None)"

definition list_get_option :: "val \<Rightarrow> i64 \<Rightarrow> val option res" where
  "list_get_option v i = on_list ''list_get_option'' v (\<lambda>vs.
     let index = isize_index i (length vs)
     in if vs \<noteq> [] \<and> index < length vs then Inr (Some (vs ! index)) else Inr None)"

definition list_set :: "val \<Rightarrow> nat \<Rightarrow> val \<Rightarrow> val res" where
  "list_set v i x = on_list ''list_set'' v (\<lambda>vs.
     Inr (list_value (if i < length vs then vs[i := x] else vs)))"

definition list_must_set :: "val \<Rightarrow> nat \<Rightarrow> val \<Rightarrow> val res" where
  "list_must_set v i x = on_list ''list_set'' v (\<lambda>vs.
     if i < length vs then Inr (list_value (vs[i := x])) else Inl (RustPanic IndexOutOfBounds))"

definition list_set_value :: "val \<Rightarrow> val \<Rightarrow> val \<Rightarrow> val res" where
  "list_set_value v i x = (case must_as_strict_int i of
     Inl e \<Rightarrow> Inl e
   | Inr index \<Rightarrow> (case value_len v of
       Inl e \<Rightarrow> Inl e
     | Inr len \<Rightarrow> (case must_normalize_index (as_i32 index) len of
         Inl e \<Rightarrow> Inl e
       | Inr j \<Rightarrow> list_must_set v j x)))"

text \<open>Popping returns the new list and the element taken.\<close>

definition list_pop :: "val \<Rightarrow> (val \<times> val option) res" where
  "list_pop v = on_list ''list_pop'' v (\<lambda>vs.
     Inr (if vs = [] then (list_value [], None) else (list_value (butlast vs), Some (last vs))))"

definition list_pop_first :: "val \<Rightarrow> (val \<times> val option) res" where
  "list_pop_first v = on_list ''list_pop'' v (\<lambda>vs.
     Inr (case vs of [] \<Rightarrow> (list_value [], None) | x # xs \<Rightarrow> (list_value xs, Some x)))"

text \<open>The error message of \<open>list_append\<close> reads the value it has borrowed mutably.\<close>

definition list_append :: "val \<Rightarrow> val \<Rightarrow> val res" where
  "list_append v x = (case v of
     list_value vs \<Rightarrow> Inr (list_value (vs @ [x]))
   | _ \<Rightarrow> Inl (RustPanic AlreadyMutablyBorrowed))"

text \<open>What unpacking a value contributes: the elements of a list, the keys of a config,
  nothing for \<open>None\<close> and \<open>Undefined\<close>.\<close>

definition unpack_items :: "val \<Rightarrow> val list option" where
  "unpack_items x = (case x of
     list_value b \<Rightarrow> Some b
   | dict_value d \<Rightarrow> Some (map str_value (im_keys (dv_values d)))
   | schema_value s \<Rightarrow> Some (map str_value (im_keys (dv_values (sv_config s))))
   | none_value \<Rightarrow> Some []
   | undefined_value \<Rightarrow> Some []
   | _ \<Rightarrow> None)"

definition list_append_unpack :: "val \<Rightarrow> val \<Rightarrow> val res" where
  "list_append_unpack v x = on_list ''list_append_unpack'' v (\<lambda>vs.
     case unpack_items x of
       Some items \<Rightarrow> Inr (list_value (vs @ items))
     | None \<Rightarrow> Inl (UnpackOperand x))"

definition list_append_unpack_first :: "val \<Rightarrow> val \<Rightarrow> val res" where
  "list_append_unpack_first v x = on_list ''list_append_unpack_first'' v (\<lambda>vs.
     case (case unpack_items x of Some items \<Rightarrow> vec_insert_all 0 items vs | None \<Rightarrow> vec_insert 0 x vs) of
       Inl e \<Rightarrow> Inl e
     | Inr vs' \<Rightarrow> Inr (list_value vs'))"

section \<open>Search, insertion and removal\<close>

definition list_count :: "val \<Rightarrow> val \<Rightarrow> nat res" where
  "list_count v item = on_list ''list_find'' v (\<lambda>vs. Inr (length (filter (\<lambda>x. cmp_equal x item) vs)))"

fun find_from :: "int \<Rightarrow> val list \<Rightarrow> val \<Rightarrow> int" where
  "find_from i [] item = - 1"
| "find_from i (x # xs) item = (if cmp_equal x item then i else find_from (i + 1) xs item)"

definition list_find :: "val \<Rightarrow> val \<Rightarrow> int res" where
  "list_find v item = on_list ''list_find'' v (\<lambda>vs. Inr (find_from 0 vs item))"

definition list_insert_at :: "val \<Rightarrow> nat \<Rightarrow> val \<Rightarrow> val res" where
  "list_insert_at v i x = on_list ''list_insert_at'' v (\<lambda>vs.
     case vec_insert i x vs of Inl e \<Rightarrow> Inl e | Inr vs' \<Rightarrow> Inr (list_value vs'))"

definition list_remove_at :: "val \<Rightarrow> nat \<Rightarrow> val res" where
  "list_remove_at v i = on_list ''list_remove_at'' v (\<lambda>vs.
     case vec_remove i vs of Inl e \<Rightarrow> Inl e | Inr vs' \<Rightarrow> Inr (list_value vs'))"

fun last_match :: "nat \<Rightarrow> val list \<Rightarrow> val \<Rightarrow> nat option \<Rightarrow> nat option" where
  "last_match i [] item index = index"
| "last_match i (x # xs) item index =
     last_match (Suc i) xs item (if cmp_equal x item then Some i else index)"

definition list_remove :: "val \<Rightarrow> val \<Rightarrow> val res" where
  "list_remove v item = on_list ''list_remove_at'' v (\<lambda>vs.
     case last_match 0 vs item None of
       None \<Rightarrow> Inr (list_value vs)
     | Some i \<Rightarrow> (case vec_remove i vs of Inl e \<Rightarrow> Inl e | Inr vs' \<Rightarrow> Inr (list_value vs')))"

section \<open>Slices\<close>

definition slice_unpack :: "val \<Rightarrow> val \<Rightarrow> val \<Rightarrow> (i64 \<times> i64 \<times> i64) res" where
  "slice_unpack start stop step =
     (let step_val = (case step of int_value s \<Rightarrow> s | _ \<Rightarrow> 1)
      in if step_val = 0 then Inl SliceStepZero
         else Inr
          (case start of int_value s \<Rightarrow> s | _ \<Rightarrow> if sint step_val < 0 then i64_max else 0,
           case stop of int_value s \<Rightarrow> s | _ \<Rightarrow> if sint step_val < 0 then i64_min else i64_max,
           step_val))"

text \<open>The adjustment of a start or stop index, which the source writes out for both.\<close>

definition slice_adjust_index :: "i64 \<Rightarrow> i64 \<Rightarrow> i64 \<Rightarrow> i64" where
  "slice_adjust_index len step x =
     (if sint x < 0
      then (if sint (x + len) < 0 then (if sint step < 0 then - 1 else 0) else x + len)
      else if sint len \<le> sint x then (if sint step < 0 then len - 1 else len)
      else x)"

definition slice_adjust_indices :: "i64 \<Rightarrow> i64 \<Rightarrow> i64 \<Rightarrow> i64 \<Rightarrow> (i64 \<times> i64 \<times> i64) res" where
  "slice_adjust_indices len start0 stop0 step =
     (if step = 0 then Inl (RustPanic AssertionFailed)
      else let start = slice_adjust_index len step start0;
               stop = slice_adjust_index len step stop0;
               slice_len =
                 (if sint step < 0
                  then (if sint stop < sint start
                        then (case rust_div (start - stop - 1) (- step) of Inl e \<Rightarrow> Inl e | Inr q \<Rightarrow> Inr (q + 1))
                        else Inr 0)
                  else if sint start < sint stop
                  then (case rust_div (stop - start - 1) step of Inl e \<Rightarrow> Inl e | Inr q \<Rightarrow> Inr (q + 1))
                  else Inr 0)
           in case slice_len of Inl e \<Rightarrow> Inl (RustPanic e) | Inr n \<Rightarrow> Inr (start, stop, n))"

fun slice_loop :: "rust_panic \<Rightarrow> nat \<Rightarrow> i64 \<Rightarrow> i64 \<Rightarrow> 'a list \<Rightarrow> 'a list res" where
  "slice_loop e 0 cur step xs = Inr []"
| "slice_loop e (Suc n) cur step xs =
     (if as_usize cur < length xs
      then (case slice_loop e n (cur + step) step xs of
              Inl p \<Rightarrow> Inl p | Inr ys \<Rightarrow> Inr (xs ! as_usize cur # ys))
      else Inl (RustPanic e))"

definition slice_of :: "rust_panic \<Rightarrow> 'a list \<Rightarrow> val \<Rightarrow> val \<Rightarrow> val \<Rightarrow> 'a list res" where
  "slice_of e xs start stop step = (case slice_unpack start stop step of
     Inl p \<Rightarrow> Inl p
   | Inr (start, stop, step) \<Rightarrow>
       (case slice_adjust_indices (of_nat (length xs)) start stop step of
          Inl p \<Rightarrow> Inl p
        | Inr (start, stop, slice_len) \<Rightarrow>
            slice_loop e (nat (sint (slice_len + 1) - 1)) start step xs))"

definition list_slice :: "val \<Rightarrow> val \<Rightarrow> val \<Rightarrow> val \<Rightarrow> val res" where
  "list_slice v start stop step = (case v of
     list_value vs \<Rightarrow> (case slice_of IndexOutOfBounds vs start stop step of
         Inl e \<Rightarrow> Inl e | Inr ys \<Rightarrow> Inr (list_value ys))
   | str_value s \<Rightarrow> (case slice_of UnwrapNone (chars s) start stop step of
         Inl e \<Rightarrow> Inl e | Inr ys \<Rightarrow> Inr (str_value (concat ys)))
   | _ \<Rightarrow> Inl (InvalidSlice v))"

section \<open>Slices are Python slices\<close>

text \<open>\<open>range(s, e, k)\<close> on unbounded integers, and the clamping of an index.\<close>

function py_range :: "int \<Rightarrow> int \<Rightarrow> int \<Rightarrow> int list" where
  "py_range s e k =
     (if 0 < k \<and> s < e \<or> k < 0 \<and> e < s then s # py_range (s + k) e k else [])"
  by pat_completeness auto
termination
  by (relation "measure (\<lambda>(s, e, k). nat (if 0 < k then e - s else s - e))") auto

declare py_range.simps [simp del]

definition py_index :: "int \<Rightarrow> int \<Rightarrow> int \<Rightarrow> int" where
  "py_index len k x =
     (let y = (if x < 0 then x + len else x)
      in if k < 0 then max (- 1) (min (len - 1) y) else max 0 (min len y))"

definition py_count :: "int \<Rightarrow> int \<Rightarrow> int \<Rightarrow> nat" where
  "py_count s e k =
     (if k < 0 then (if e < s then nat ((s - e - 1) div (- k) + 1) else 0)
      else if s < e then nat ((e - s - 1) div k + 1) else 0)"

lemma py_count_step:
  assumes "0 < k \<and> s < e \<or> k < 0 \<and> e < s"
  shows "py_count s e k = Suc (py_count (s + k) e k)"
proof -
  have pos: "(d - 1) div k + 1 = (if k < d then (d - k - 1) div k + 2 else 1)" if "0 < k" "0 < d" for d k :: int
  proof (cases "k < d")
    case True
    have "(d - 1) div k = ((d - k - 1) + 1 * k) div k" by simp
    also have "\<dots> = (d - k - 1) div k + 1" using that by (simp only: div_mult_self1)
    finally show ?thesis using True by simp
  next
    case False
    with that show ?thesis by (simp add: div_pos_pos_trivial)
  qed
  consider "0 < k" "s < e" | "k < 0" "e < s" using assms by blast
  then show ?thesis
  proof cases
    case 1
    with pos [of k "e - s"] show ?thesis
      by (auto simp: py_count_def algebra_simps nat_add_distrib pos_imp_zdiv_nonneg_iff)
  next
    case 2
    with pos [of "- k" "s - e"] show ?thesis
      by (auto simp: py_count_def algebra_simps nat_add_distrib pos_imp_zdiv_nonneg_iff)
  qed
qed

lemma py_range_length: "k \<noteq> 0 \<Longrightarrow> length (py_range s e k) = py_count s e k"
proof (induction s e k rule: py_range.induct)
  case (1 s e k)
  show ?case
  proof (cases "0 < k \<and> s < e \<or> k < 0 \<and> e < s")
    case True
    with 1 show ?thesis by (subst py_range.simps) (simp add: py_count_step)
  next
    case False
    with "1.prems" show ?thesis by (subst py_range.simps) (auto simp: py_count_def)
  qed
qed

lemma py_range_bounds:
  "i \<in> set (py_range s e k) \<Longrightarrow> (if k < 0 then e < i \<and> i \<le> s else s \<le> i \<and> i < e)"
proof (induction s e k rule: py_range.induct)
  case (1 s e k)
  from "1.prems" show ?case
    by (subst (asm) py_range.simps) (use "1.IH" in \<open>fastforce split: if_splits\<close>)
qed


lemma as_usize_of_int: "0 \<le> x \<Longrightarrow> x < 2 ^ 63 \<Longrightarrow> as_usize (word_of_int x) = nat x"
  by (simp add: as_usize_def unat_eq_nat_uint uint_word_of_int)

lemma slice_loop_range:
  assumes "\<forall>i \<in> set (py_range s e k). 0 \<le> i \<and> i < int (length xs)"
    and "int (length xs) < 2 ^ 63"
  shows "slice_loop err (length (py_range s e k)) (word_of_int s) (word_of_int k) xs =
    Inr (map (\<lambda>i. xs ! nat i) (py_range s e k))"
  using assms(1)
proof (induction s e k rule: py_range.induct)
  case (1 s e k)
  show ?case
  proof (cases "0 < k \<and> s < e \<or> k < 0 \<and> e < s")
    case True
    then have r: "py_range s e k = s # py_range (s + k) e k" by (subst py_range.simps) simp
    have "as_usize (word_of_int s) = nat s"
      using "1.prems" r assms(2) by (intro as_usize_of_int) auto
    moreover have "nat s < length xs" using "1.prems" r by auto
    moreover have "word_of_int s + word_of_int k = (word_of_int (s + k) :: i64)" by simp
    ultimately show ?thesis
      using 1 True r by simp
  next
    case False
    then show ?thesis by (subst (1 2) py_range.simps) auto
  qed
qed

lemma sint_len: "int n < 2 ^ 63 \<Longrightarrow> sint (of_nat n :: i64) = int n"
  using sint_of_int_i64 [of "int n"] by (simp add: i64_range_def)

lemma sint_adjust:
  assumes n: "int n < 2 ^ 63"
  shows "sint (slice_adjust_index (of_nat n) step x) = py_index (int n) (sint step) (sint x)"
proof -
  let ?len = "of_nat n :: i64"
  have "i64_range (sint x)" by simp
  then have "sint x < 0 \<Longrightarrow> sint (x + ?len) = sint x + int n"
    using n by (subst sint_add_i64) (auto simp: sint_len i64_range_def)
  moreover have "sint (?len - 1) = int n - 1"
    using n sint_sub_i64 [of ?len 1] by (simp add: sint_len i64_range_def)
  ultimately show ?thesis
    using n by (auto simp: slice_adjust_index_def py_index_def Let_def sint_len)
qed

lemma py_index_bounds:
  "0 \<le> len \<Longrightarrow> (if k < 0 then - 1 \<le> py_index len k x \<and> py_index len k x < len
     else 0 \<le> py_index len k x \<and> py_index len k x \<le> len)"
  by (auto simp: py_index_def Let_def)

text \<open>Dividing the distance by the magnitude of the step, also for the step \<open>i64::MIN\<close>
  whose negation wraps to itself.\<close>

lemma rust_div_distance:
  fixes d step :: i64
  assumes d: "0 \<le> sint d" and "step \<noteq> 0"
  shows "rust_div d (if sint step < 0 then - step else step) =
     Inr (word_of_int (sint d div \<bar>sint step\<bar>))"
proof -
  let ?b = "if sint step < 0 then - step else step"
  have r: "i64_range (sint d)" "i64_range (sint step)" by simp_all
  have sdiv: "sint d sdiv sint ?b = sint d div \<bar>sint step\<bar>"
  proof (cases "sint step = - (2 ^ 63)")
    case True
    then have "step = i64_min" using sint_eq_iff_i64 [of step i64_min] by simp
    with r d show ?thesis
      by (simp add: i64_range_def signed_divide_int_def div_pos_pos_trivial)
  next
    case False
    with r have "i64_range (0 - sint step)" by (auto simp: i64_range_def)
    then have "sint (- step) = - sint step" using sint_sub_i64 [of 0 step] by simp
    with d show ?thesis by (auto simp: signed_divide_int_def sgn_if)
  qed
  have "?b \<noteq> 0" using assms(2) by simp
  moreover have "d \<noteq> i64_min" using d by auto
  ultimately show ?thesis using sdiv by (simp only: rust_div_def if_False simp_thms)
qed


lemma sint_distance:
  fixes a b :: i64
  assumes "sint b < sint a" and "i64_range (sint a - sint b)"
  shows "sint (a - b - 1) = sint a - sint b - 1"
proof -
  have "sint (a - b) = sint a - sint b" using assms(2) by (rule sint_sub_i64)
  with assms show ?thesis using sint_sub_i64 [of "a - b" 1] by (auto simp: i64_range_def)
qed

lemma slice_adjust_ok:
  fixes start stop step :: i64
  assumes n: "int n < 2 ^ 63 - 1" and step: "step \<noteq> 0"
  defines "S \<equiv> py_index (int n) (sint step) (sint start)"
    and "E \<equiv> py_index (int n) (sint step) (sint stop)"
  shows "slice_adjust_indices (of_nat n) start stop step =
     Inr (word_of_int S, word_of_int E, word_of_int (int (py_count S E (sint step))))"
proof -
  let ?s = "slice_adjust_index (of_nat n) step start" and ?e = "slice_adjust_index (of_nat n) step stop"
  have se: "sint ?s = S" "sint ?e = E" using n by (simp_all add: S_def E_def sint_adjust)
  have "word_of_int (sint ?s) = ?s" "word_of_int (sint ?e) = ?e" by simp_all
  then have w: "?s = word_of_int S" "?e = word_of_int E" unfolding se by auto
  then have sw: "sint (word_of_int S :: i64) = S" "sint (word_of_int E :: i64) = E"
    using se by simp_all
  have b: "- 1 \<le> S" "S \<le> int n" "- 1 \<le> E" "E \<le> int n"
    using py_index_bounds [of "int n" "sint step"] unfolding S_def E_def by (smt (verit) of_nat_0_le_iff)+
  have dist: "rust_div (a - c - 1) (if sint step < 0 then - step else step) =
      Inr (word_of_int ((sint a - sint c - 1) div \<bar>sint step\<bar>))"
    if "sint c < sint a" "i64_range (sint a - sint c)" for a c :: i64
    using that step by (simp add: rust_div_distance sint_distance)
  have nonneg: "0 \<le> d \<Longrightarrow> 0 \<le> d div \<bar>sint step\<bar>" for d
    using step by (intro div_int_pos_iff [THEN iffD2]) (auto simp: sint_eq_0_iff_i64)
  show ?thesis
  proof (cases "sint step < 0")
    case True
    then show ?thesis
      using step dist [of ?e ?s] b n nonneg [of "S - E - 1"]
      by (auto simp: slice_adjust_indices_def Let_def w sw py_count_def i64_range_def)
  next
    case False
    then show ?thesis
      using step dist [of ?s ?e] b n nonneg [of "E - S - 1"]
      by (auto simp: slice_adjust_indices_def Let_def w sw py_count_def i64_range_def)
  qed
qed


lemma py_index_range_bounds:
  assumes "0 \<le> len" and "i \<in> set (py_range (py_index len k x) (py_index len k y) k)"
  shows "0 \<le> i \<and> i < len"
  using py_range_bounds [OF assms(2)] py_index_bounds [OF assms(1), of k x]
    py_index_bounds [OF assms(1), of k y] by (auto split: if_splits)

lemma py_count_le:
  assumes "0 \<le> len" and "k \<noteq> 0"
  shows "int (py_count (py_index len k x) (py_index len k y) k) \<le> len"
proof -
  have div_le: "0 \<le> d \<Longrightarrow> d div j \<le> d" if "0 < j" for d j :: int
    using that by (metis div_by_1 zdiv_mono2 int_one_le_iff_zero_less zero_less_one)
  show ?thesis
    using py_index_bounds [OF assms(1), of k x] py_index_bounds [OF assms(1), of k y]
      div_le [of "- k" "py_index len k x - py_index len k y - 1"]
      div_le [of k "py_index len k y - py_index len k x - 1"] assms
    by (auto simp: py_count_def split: if_splits)
qed

lemma slice_of_range:
  assumes n: "int (length xs) < 2 ^ 63 - 1" and u: "slice_unpack start stop step = Inr (a, b, k)"
  shows "slice_of err xs start stop step = Inr (map (\<lambda>i. xs ! nat i)
     (py_range (py_index (int (length xs)) (sint k) (sint a)) (py_index (int (length xs)) (sint k) (sint b))
       (sint k)))"
proof -
  let ?S = "py_index (int (length xs)) (sint k) (sint a)"
  let ?E = "py_index (int (length xs)) (sint k) (sint b)"
  let ?c = "py_count ?S ?E (sint k)"
  have k: "k \<noteq> 0" using u by (auto simp: slice_unpack_def Let_def split: if_splits)
  then have k': "sint k \<noteq> 0" by (simp add: sint_eq_0_iff_i64)
  have "int ?c \<le> int (length xs)" by (rule py_count_le) (use k' in simp_all)
  then have "sint (word_of_int (int ?c + 1) :: i64) = int ?c + 1"
    using n by (intro sint_of_int_i64) (simp add: i64_range_def)
  then have c: "nat (sint (word_of_int (int ?c) + 1 :: i64) - 1) = ?c" by simp
  have "slice_of err xs start stop step =
      slice_loop err (length (py_range ?S ?E (sint k))) (word_of_int ?S) (word_of_int (sint k)) xs"
    unfolding slice_of_def u using k n c
    by (simp add: slice_adjust_ok py_range_length k')
  also have "\<dots> = Inr (map (\<lambda>i. xs ! nat i) (py_range ?S ?E (sint k)))"
    by (rule slice_loop_range) (use n in \<open>auto dest!: py_index_range_bounds [rotated]\<close>)
  finally show ?thesis .
qed


text \<open>Removal and search of an element.\<close>

lemma last_match_append:
  "last_match i (xs @ ys) item r = last_match (i + length xs) ys item (last_match i xs item r)"
  by (induction xs arbitrary: i r) auto

lemma last_match_none:
  "(\<forall>x \<in> set xs. \<not> cmp_equal x item) \<Longrightarrow> last_match i xs item r = r"
  by (induction xs arbitrary: i r) auto

lemma find_from_first:
  assumes "\<forall>y \<in> set xs. \<not> cmp_equal y item" and "cmp_equal x item"
  shows "find_from i (xs @ x # ys) item = i + int (length xs)"
  using assms by (induction xs arbitrary: i) auto

lemma list_remove_last:
  assumes "cmp_equal x item" and "\<forall>y \<in> set ys. \<not> cmp_equal y item"
  shows "list_remove (list_value (xs @ x # ys)) item = Inr (list_value (xs @ ys))"
  using assms
  by (simp add: list_remove_def on_list_def last_match_append last_match_none vec_remove_def)

section \<open>Properties\<close>

text \<open>C9. A list slice never indexes out of range and yields what the Python slice of the
  same bounds yields: the elements at the positions \<open>range(start, stop, step)\<close> of the
  clamped bounds, for every non-zero step, \<open>i64::MIN\<close> included.\<close>

theorem list_slice_python:
  assumes "int (length vs) < 2 ^ 63 - 1"
    and "slice_unpack start stop step = Inr (a, b, k)"
  shows "list_slice (list_value vs) start stop step = Inr (list_value (map (\<lambda>i. vs ! nat i)
     (py_range (py_index (int (length vs)) (sint k) (sint a))
       (py_index (int (length vs)) (sint k) (sint b)) (sint k))))"
  using slice_of_range [OF assms] by (simp add: list_slice_def)

theorem list_slice_python_witness:
  "list_slice (list_int [10, 20, 30]) none_value none_value (int_value (- 1)) =
     Inr (list_value (map (\<lambda>i. [int_value 10, int_value 20, int_value 30] ! nat i)
       (py_range (py_index 3 (- 1) (sint i64_max)) (py_index 3 (- 1) (sint i64_min)) (- 1))))"
  using list_slice_python [of "[int_value 10, int_value 20, int_value 30]" none_value none_value
      "int_value (- 1)" i64_max i64_min "- 1"]
  by (simp add: list_int_def slice_unpack_def Let_def)

text \<open>C10. Slicing a string by characters is total as well: it yields the characters at the
  positions of the Python slice, whole encodings and never part of one.\<close>

theorem str_slice_python:
  assumes "int (length s) < 2 ^ 63 - 1"
    and "slice_unpack start stop step = Inr (a, b, k)"
  shows "list_slice (str_value s) start stop step = Inr (str_value (concat (map (\<lambda>i. chars s ! nat i)
     (py_range (py_index (int (length (chars s))) (sint k) (sint a))
       (py_index (int (length (chars s))) (sint k) (sint b)) (sint k)))))"
  using slice_of_range [OF _ assms(2), of "chars s"] assms(1) length_chars_le [of s]
  by (simp add: list_slice_def)

theorem str_slice_python_witness:
  "list_slice (str_value ''abc'') (int_value 1) none_value none_value =
     Inr (str_value (concat (map (\<lambda>i. chars ''abc'' ! nat i)
       (py_range (py_index (int (length (chars ''abc''))) 1 1)
         (py_index (int (length (chars ''abc''))) 1 (sint i64_max)) 1))))"
  using str_slice_python [of "''abc''" "int_value 1" none_value none_value 1 i64_max 1]
  by (simp add: slice_unpack_def Let_def)

text \<open>Unpacking into the front of a list puts the unpacked items, in their order, before
  the old elements; unpacking at the end puts them after.\<close>

theorem list_append_unpack_order:
  assumes "unpack_items x = Some items"
  shows "list_append_unpack_first (list_value vs) x = Inr (list_value (items @ vs)) \<and>
    list_append_unpack (list_value vs) x = Inr (list_value (vs @ items))"
  using assms by (simp add: list_append_unpack_first_def list_append_unpack_def on_list_def
      vec_insert_all_ok)

theorem list_append_unpack_order_witness:
  "list_append_unpack_first (list_int [1]) (list_int [2, 3]) = Inr (list_value (map int_value [2, 3] @ map int_value [1])) \<and>
    list_append_unpack (list_int [1]) (list_int [2, 3]) = Inr (list_value (map int_value [1] @ map int_value [2, 3]))"
  unfolding list_int_def by (rule list_append_unpack_order) (simp add: unpack_items_def)

text \<open>\<open>list_find\<close> reports the first element equal to the item but \<open>list_remove\<close>
  takes out the last one: on a list with two equal elements the index found is not the
  one removed.\<close>

theorem list_remove_takes_last:
  assumes "cmp_equal x item" and "cmp_equal y item"
    and "\<forall>z \<in> set xs. \<not> cmp_equal z item" and "\<forall>z \<in> set zs. \<not> cmp_equal z item"
  shows "list_find (list_value (xs @ x # ys @ y # zs)) item = Inr (int (length xs)) \<and>
    list_remove (list_value (xs @ x # ys @ y # zs)) item = Inr (list_value (xs @ x # ys @ zs))"
  using assms list_remove_last [of y item zs "xs @ x # ys"]
  by (simp add: list_find_def on_list_def find_from_first)

theorem list_remove_takes_last_witness:
  "list_find (list_value ([] @ int_value 1 # [] @ float_value (f64_of_i64 1) # [])) (int_value 1) = Inr (int (length ([] :: val list))) \<and>
    list_remove (list_value ([] @ int_value 1 # [] @ float_value (f64_of_i64 1) # [])) (int_value 1) =
      Inr (list_value ([] @ int_value 1 # [] @ []))"
  by (rule list_remove_takes_last) (simp_all add: f64_eval)

end
