(* ===== verification/Value_Union.thy ===== *)
theory Value_Union
  imports Value_Dict Value_List
begin

text \<open>
  Unification of configs: \<open>crates/runtime/src/unification/subsume.rs\<close> and
  \<open>crates/runtime/src/value/val_union.rs\<close>. A union merges a delta into an object and
  keeps a \<open>UnionContext\<close> with the conflict found, if any, and its path. Evaluating the
  body of a schema (\<open>resolve_schema\<close> calls compiled user code through a function
  pointer) is the parameter \<open>resolve\<close>.

  The operands share no cells here: \<open>bin_bit_or\<close> copies its left operand first, and the
  test for the same reference at the start of \<open>do_union\<close> fails.
\<close>

section \<open>Subsumption\<close>

function value_subsume :: "val \<Rightarrow> val \<Rightarrow> bool \<Rightarrow> bool" where
  "value_subsume value1 value2 should_recursive_check =
     (if is_none_or_undefined value1 \<or> is_none_or_undefined value2 then True
      else if cmp_equal value1 value2 then True
      else if is_int value1 \<and> is_int value2 then as_int value1 = as_int value2
      else if is_float value1 \<and> is_float value2 then f64_eq (as_float value1) (as_float value2)
      else if is_bool value1 \<and> is_bool value2 then as_bool value1 = as_bool value2
      else if is_str value1 \<and> is_str value2 then as_str value1 = as_str value2
      else case value1 of
        list_value vs1 \<Rightarrow> (case value2 of
            list_value vs2 \<Rightarrow> length vs1 = length vs2 \<and>
              list_all (\<lambda>(item1, item2). value_subsume item1 item2 should_recursive_check) (zip vs1 vs2)
          | _ \<Rightarrow> False)
      | _ \<Rightarrow> (case dict_config value1 of
            Inl _ \<Rightarrow> False
          | Inr d1 \<Rightarrow> (case dict_config value2 of
                Inl _ \<Rightarrow> False
              | Inr d2 \<Rightarrow>
                  if dv_values d1 = [] then True
                  else if list_all (\<lambda>(key, _). \<not> im_contains (dv_values d2) key) (dv_values d1) then True
                  else if should_recursive_check
                  then list_all (\<lambda>(key1, u1). case im_get (dv_values d2) key1 of
                           None \<Rightarrow> True
                         | Some u2 \<Rightarrow> value_subsume u1 u2 should_recursive_check) (dv_values d1)
                  else True)))"
  by pat_completeness auto
termination
  by (relation "measure (\<lambda>(v1, v2, r). size v1)")
    (auto simp: dict_config_def simp del: val.size dest: set_zip_leftD
      intro: size_list_value_mem size_dict_value_mem size_schema_value_mem)

declare value_subsume.simps [simp del]

section \<open>Options and context\<close>

record union_options =
  list_override :: bool
  idempotent_check :: bool
  config_resolve :: bool

definition default_union_options :: union_options where
  "default_union_options = \<lparr>list_override = False, idempotent_check = True, config_resolve = True\<rparr>"

record union_context =
  path_backtrace :: "string list"
  conflict :: bool
  obj_json :: json_repr
  delta_json :: json_repr

definition default_union_context :: union_context where
  "default_union_context =
     \<lparr>path_backtrace = [], conflict = False, obj_json = EmptyRepr, delta_json = EmptyRepr\<rparr>"

definition repr_of :: "val \<Rightarrow> json_repr" where
  "repr_of v = (if is_config v then ConfigRepr else if is_list v then ListRepr else JsonRepr v)"

definition push_path :: "string \<Rightarrow> union_context \<Rightarrow> union_context" where
  "push_path p uc = uc \<lparr>path_backtrace := path_backtrace uc @ [p]\<rparr>"

definition record_conflict :: "string \<Rightarrow> val \<Rightarrow> val \<Rightarrow> union_context \<Rightarrow> union_context" where
  "record_conflict p obj delta uc =
     (push_path p (uc \<lparr>conflict := True\<rparr>)) \<lparr>obj_json := repr_of obj, delta_json := repr_of delta\<rparr>"

definition note_list_conflict :: "nat \<Rightarrow> union_context \<Rightarrow> union_context" where
  "note_list_conflict idx uc =
     (if conflict uc then push_path (''list['' @ show_nat idx @ '']'') uc else uc)"

section \<open>Operations of one entry\<close>

text \<open>The existing value a \<open>:\<close> entry is merged into: the attribute itself, or the element
  at the index of the entry.\<close>

definition sign_extend :: "i32 \<Rightarrow> i64" where
  "sign_extend i = word_of_int (sint i)"

definition union_target :: "val dict_value \<Rightarrow> string \<Rightarrow> i32 option \<Rightarrow> val option res" where
  "union_target obj k index = (case index of
     Some i \<Rightarrow> (case im_get (dv_values obj) k of
         Some origin \<Rightarrow>
           if \<not> is_list origin then Inl (OnlyListUnionIndex i)
           else (case list_get origin (sign_extend i) of
               Inl e \<Rightarrow> Inl e
             | Inr (Some v) \<Rightarrow> Inr (Some v)
             | Inr None \<Rightarrow> Inl (OnlyNonEmptyListUnionIndex i))
       | None \<Rightarrow> Inl (OnlyNonEmptyListUnionIndex i))
   | None \<Rightarrow> Inr (im_get (dv_values obj) k))"

definition store_union :: "val dict_value \<Rightarrow> string \<Rightarrow> i32 option \<Rightarrow> val \<Rightarrow> val dict_value res" where
  "store_union obj k index u = (case index of
     Some i \<Rightarrow> (case im_get (dv_values obj) k of
         Some origin \<Rightarrow> (case value_len origin of
             Inl e \<Rightarrow> Inl e
           | Inr len \<Rightarrow> (case must_normalize_index i len of
               Inl e \<Rightarrow> Inl e
             | Inr j \<Rightarrow> (case list_set origin j u of
                 Inl e \<Rightarrow> Inl e
               | Inr origin' \<Rightarrow> Inr (set_values (im_insert (dv_values obj) k origin') obj))))
       | None \<Rightarrow> Inr obj)
   | None \<Rightarrow> Inr (set_values (im_insert (dv_values obj) k u) obj))"

definition conflict_label :: "string \<Rightarrow> i32 option \<Rightarrow> string" where
  "conflict_label k index = (case index of
     Some i \<Rightarrow> k @ ''['' @ show_int (sint i) @ '']''
   | None \<Rightarrow> k)"

definition override_entry :: "val dict_value \<Rightarrow> string \<Rightarrow> i32 option \<Rightarrow> val \<Rightarrow> val dict_value res" where
  "override_entry obj k index v = (case index of
     Some i \<Rightarrow> (case im_get (dv_values obj) k of
         Some origin \<Rightarrow>
           if \<not> is_list origin then Inl (OnlyListOverrideIndex i)
           else (case value_len origin of
               Inl e \<Rightarrow> Inl e
             | Inr len \<Rightarrow> (case must_normalize_index i len of
                 Inl e \<Rightarrow> Inl e
               | Inr j \<Rightarrow> (case (if is_undefined v then list_remove_at origin j else list_must_set origin j v) of
                   Inl e \<Rightarrow> Inl e
                 | Inr origin' \<Rightarrow> Inr (set_values (im_insert (dv_values obj) k origin') obj))))
       | None \<Rightarrow> Inl (OnlyListOverrideIndex i))
   | None \<Rightarrow> Inr (set_values (im_insert (dv_values obj) k v) obj))"

text \<open>The message of the last panic reads the type of the original value while its cell is
  borrowed mutably.\<close>

definition insert_base :: "val dict_value \<Rightarrow> string \<Rightarrow> val dict_value" where
  "insert_base obj k =
     (if (case im_get (dv_values obj) k of None \<Rightarrow> True | Some origin \<Rightarrow> is_none_or_undefined origin)
      then set_values (im_insert (dv_values obj) k (mk_list None)) obj else obj)"

definition insert_entry :: "val dict_value \<Rightarrow> string \<Rightarrow> i32 option \<Rightarrow> val \<Rightarrow> val dict_value res" where
  "insert_entry obj k index v =
     (let d = insert_base obj k
      in case im_get (dv_values d) k of
           Some (list_value origin) \<Rightarrow> (case v of
               list_value vs \<Rightarrow> (case index of
                   Some i \<Rightarrow> (case must_normalize_index i (length origin) of
                       Inl e \<Rightarrow> Inl e
                     | Inr j \<Rightarrow> (case vec_insert_all j vs origin of
                         Inl e \<Rightarrow> Inl e
                       | Inr origin' \<Rightarrow> Inr (set_values (im_insert (dv_values d) k (list_value origin')) d)))
                 | None \<Rightarrow> Inr (set_values (im_insert (dv_values d) k (list_value (origin @ vs))) d))
             | _ \<Rightarrow> Inl (RustPanic AlreadyMutablyBorrowed))
         | _ \<Rightarrow> Inl (RustPanic AlreadyMutablyBorrowed))"

section \<open>The union\<close>

type_synonym resolver = "val \<Rightarrow> string list \<Rightarrow> val res"

text \<open>The bookkeeping fields of the object take those of the delta before the values are
  merged.\<close>

definition merge_meta :: "val dict_value \<Rightarrow> val dict_value \<Rightarrow> val dict_value" where
  "merge_meta delta obj =
     set_insert_indexs (im_insert_all (dv_insert_indexs obj) (dv_insert_indexs delta))
       (set_ops (im_insert_all (dv_ops obj) (dv_ops delta))
         (set_potential_schema (dv_potential_schema delta) obj))"

text \<open>The end of a union that involves a schema instance.\<close>

definition union_schema ::
  "resolver \<Rightarrow> union_options \<Rightarrow> val \<Rightarrow> val \<Rightarrow> string \<Rightarrow> string \<Rightarrow> string list \<Rightarrow> val \<Rightarrow> val \<Rightarrow>
   union_context \<Rightarrow> (val \<times> union_context) res" where
  "union_schema resolve opts self x name pkgpath common_keys args kwargs uc =
     (let result = set_schema_args self args kwargs;
          optional_mapping =
            (if is_schema self then schema_optional_mapping self else schema_optional_mapping x)
      in case dict_to_schema result name pkgpath common_keys (schema_config_meta x)
             optional_mapping (Some args) (Some kwargs) of
           Inl e \<Rightarrow> Inl e
         | Inr schema \<Rightarrow>
             if config_resolve opts
             then (case resolve schema common_keys of Inl e \<Rightarrow> Inl e | Inr r \<Rightarrow> Inr (r, uc))
             else Inr (schema, uc))"

lemma size_entries: "size_list (\<lambda>(k, v). size v) m \<le> size_list (size_prod (\<lambda>_. 0) size) m"
  by (induction m) auto

lemma size_entries_dict:
  "size_list (\<lambda>(k, v). size v) (dv_values d) < size (dict_value d)"
  using size_entries [of "dv_values d"] by (cases d) auto

lemma size_entries_schema:
  "size_list (\<lambda>(k, v). size v) (dv_values (sv_config s)) < size (schema_value s)"
  using size_entries [of "dv_values (sv_config s)"] by (cases s; cases "sv_config s") auto

function (sequential)
  union_value :: "resolver \<Rightarrow> union_options \<Rightarrow> bool \<Rightarrow> val \<Rightarrow> val \<Rightarrow> union_context \<Rightarrow>
    (val \<times> union_context) res" and
  do_union :: "resolver \<Rightarrow> union_options \<Rightarrow> val \<Rightarrow> val \<Rightarrow> union_context \<Rightarrow>
    (val \<times> union_context) res" and
  union_entries :: "resolver \<Rightarrow> union_options \<Rightarrow> val dict_value \<Rightarrow> (string \<times> val) list \<Rightarrow>
    val dict_value \<Rightarrow> union_context \<Rightarrow> (val dict_value \<times> union_context) res" and
  union_lists :: "resolver \<Rightarrow> union_options \<Rightarrow> nat \<Rightarrow> val list \<Rightarrow> val list \<Rightarrow> union_context \<Rightarrow>
    (val list \<times> union_context) res"
where
  "union_value resolve opts or_mode self x uc =
     (if is_none_or_undefined self then Inr (x, uc)
      else if is_none_or_undefined x then Inr (self, uc)
      else if is_list_or_config self \<and> is_list_or_config x then do_union resolve opts self x uc
      else if or_mode
      then (if is_int self \<and> is_int x then Inr (int_value (as_int self OR as_int x), uc)
            else Inl (UnionOperands self x))
      else Inr (x, uc))"
| "do_union resolve opts (list_value obj) (list_value delta) uc =
     (if list_override opts then Inr (list_value obj, uc)
      else case union_lists resolve opts 0 obj delta uc of
             Inl e \<Rightarrow> Inl e
           | Inr (vs, uc') \<Rightarrow> Inr (list_value vs, uc'))"
| "do_union resolve opts (dict_value obj) (dict_value delta) uc =
     (case union_entries resolve opts delta (dv_values delta) (merge_meta delta obj) uc of
        Inl e \<Rightarrow> Inl e
      | Inr (d, uc') \<Rightarrow> Inr (dict_value d, uc'))"
| "do_union resolve opts (schema_value obj) (dict_value delta) uc =
     (case union_entries resolve opts delta (dv_values delta) (merge_meta delta (sv_config obj)) uc of
        Inl e \<Rightarrow> Inl e
      | Inr (d, uc') \<Rightarrow>
          if conflict uc' then Inr (schema_value (set_config d obj), uc')
          else union_schema resolve opts (schema_value (set_config d obj)) (dict_value delta)
                 (sv_name obj) (sv_pkgpath obj) (sv_config_keys obj @ im_keys (dv_values delta))
                 (sv_args obj) (sv_kwargs obj) uc')"
| "do_union resolve opts (schema_value obj) (schema_value delta) uc =
     (case union_entries resolve opts (sv_config delta) (dv_values (sv_config delta))
             (merge_meta (sv_config delta) (sv_config obj)) uc of
        Inl e \<Rightarrow> Inl e
      | Inr (d, uc') \<Rightarrow>
          if conflict uc' then Inr (schema_value (set_config d obj), uc')
          else union_schema resolve opts (schema_value (set_config d obj)) (schema_value delta)
                 (sv_name obj) (sv_pkgpath obj) (sv_config_keys obj @ sv_config_keys delta)
                 (sv_args delta) (sv_kwargs delta) uc')"
| "do_union resolve opts (dict_value obj) (schema_value delta) uc =
     (case union_entries resolve opts (sv_config delta) (dv_values (sv_config delta))
             (merge_meta (sv_config delta) obj) uc of
        Inl e \<Rightarrow> Inl e
      | Inr (d, uc') \<Rightarrow>
          if conflict uc' then Inr (dict_value d, uc')
          else union_schema resolve opts (dict_value d) (schema_value delta)
                 (sv_name delta) (sv_pkgpath delta) (sv_config_keys delta @ im_keys (dv_values d))
                 (sv_args delta) (sv_kwargs delta) uc')"
| "do_union resolve opts self x uc = Inl (UnionTypeMismatch self x)"
| "union_entries resolve opts delta [] obj uc = Inr (obj, uc)"
| "union_entries resolve opts delta ((k, v) # kvs) obj uc =
     (let index = im_get (dv_insert_indexs delta) k
      in if \<not> im_contains (dv_values obj) k \<and> index = None
         then union_entries resolve opts delta kvs (set_values (im_insert (dv_values obj) k v) obj) uc
         else case entry_op delta k of
           Union \<Rightarrow> (case union_target obj k index of
               Inl e \<Rightarrow> Inl e
             | Inr None \<Rightarrow>
                 union_entries resolve opts delta kvs (set_values (im_insert (dv_values obj) k v) obj) uc
             | Inr (Some t) \<Rightarrow>
                 if idempotent_check opts \<and> \<not> value_subsume v t False
                 then Inr (obj, record_conflict (conflict_label k index) t v uc)
                 else (case union_value resolve opts False t v uc of
                     Inl e \<Rightarrow> Inl e
                   | Inr (u, uc') \<Rightarrow>
                       if conflict uc' then Inr (obj, push_path k uc')
                       else (case store_union obj k index u of
                           Inl e \<Rightarrow> Inl e
                         | Inr obj' \<Rightarrow> union_entries resolve opts delta kvs obj' uc')))
         | Override \<Rightarrow> (case override_entry obj k index v of
               Inl e \<Rightarrow> Inl e
             | Inr obj' \<Rightarrow> union_entries resolve opts delta kvs obj' uc)
         | Insert \<Rightarrow> (case insert_entry obj k index v of
               Inl e \<Rightarrow> Inl e
             | Inr obj' \<Rightarrow> union_entries resolve opts delta kvs obj' uc))"
| "union_lists resolve opts idx [] delta uc = Inr (delta, uc)"
| "union_lists resolve opts idx obj [] uc = Inr (obj, uc)"
| "union_lists resolve opts idx (v # obj) (x # delta) uc =
     (case union_value resolve opts False v x uc of
        Inl e \<Rightarrow> Inl e
      | Inr (u, uc') \<Rightarrow>
          (case union_lists resolve opts (Suc idx) obj delta
                  (note_list_conflict idx uc') of
             Inl e \<Rightarrow> Inl e
           | Inr (us, uc'') \<Rightarrow> Inr (u # us, uc'')))"
  by pat_completeness auto
termination
  by (relation "measure (\<lambda>a. case a of
        Inl (Inl (r, opts, m, v, x, uc)) \<Rightarrow> 2 * size x + 1
      | Inl (Inr (r, opts, v, x, uc)) \<Rightarrow> 2 * size x
      | Inr (Inl (r, opts, delta, kvs, obj, uc)) \<Rightarrow> 2 * size_list (\<lambda>(k, v). size v) kvs + 1
      | Inr (Inr (r, opts, i, vs, xs, uc)) \<Rightarrow> 2 * size_list size xs + 1)")
    (use size_entries_dict size_entries_schema in
      \<open>auto simp del: val.size(8) val.size(9) simp: Suc_double_not_eq_double less_Suc_eq_le\<close>)

declare union_value.simps [simp del] do_union.simps [simp del] union_entries.simps(2) [simp del]

definition union_entry :: "resolver \<Rightarrow> union_options \<Rightarrow> bool \<Rightarrow> val \<Rightarrow> val \<Rightarrow> val res" where
  "union_entry resolve opts or_mode self x =
     (case union_value resolve opts or_mode self x default_union_context of
        Inl e \<Rightarrow> Inl e
      | Inr (ret, uc) \<Rightarrow>
          if conflict uc
          then (let path = rev (path_backtrace uc)
                in if path = [] then Inl (RustPanic UnwrapNone)
                   else let conflict_key = last path
                        in if conflict_key = [] then Inl (ConflictingBetween (delta_json uc) (obj_json uc))
                           else Inl (ConflictingValues conflict_key (obj_json uc) (delta_json uc) path))
          else Inr ret)"

end
