(* ===== verification/Value_Union_Laws.thy ===== *)
theory Value_Union_Laws
  imports Value_Union
begin

text \<open>
  Laws of the config union of \<open>Value_Union\<close>: what one entry of the delta may change,
  the keys and values of a merged dict, preservation of well-formedness, idempotence on
  data, and that a reported conflict names the place where the operands disagree.
\<close>

section \<open>One step of the merge\<close>

text \<open>What processing one entry of the delta may do to the object: it touches the value of
  its own key only, which it appends when it is new.\<close>

definition step_frame :: "string \<Rightarrow> val dict_value \<Rightarrow> val dict_value \<Rightarrow> bool" where
  "step_frame k obj obj' \<longleftrightarrow>
     im_keys (dv_values obj') =
       (if k \<in> set (im_keys (dv_values obj)) then im_keys (dv_values obj) else im_keys (dv_values obj) @ [k]) \<and>
     (\<forall>k'. k' \<noteq> k \<longrightarrow> im_get (dv_values obj') k' = im_get (dv_values obj) k') \<and>
     dv_ops obj' = dv_ops obj \<and> dv_insert_indexs obj' = dv_insert_indexs obj \<and>
     dv_potential_schema obj' = dv_potential_schema obj"

lemma step_frame_insert: "step_frame k obj (set_values (im_insert (dv_values obj) k u) obj)"
  by (simp add: step_frame_def im_keys_insert im_get_insert)

lemma step_frame_refl: "im_get (dv_values obj) k \<noteq> None \<Longrightarrow> step_frame k obj obj"
  by (auto simp: step_frame_def im_get_None_iff)

lemma step_frame_trans: "step_frame k a b \<Longrightarrow> step_frame k b c \<Longrightarrow> step_frame k a c"
  by (auto simp: step_frame_def split: if_splits)

lemma insert_base_frame: "im_get (dv_values (insert_base obj k)) k = Some u \<Longrightarrow> step_frame k obj (insert_base obj k)"
  by (auto simp: insert_base_def step_frame_insert intro: step_frame_refl split: if_splits)

lemma store_union_frame:
  assumes "store_union obj k index u = Inr obj'" and "union_target obj k index = Inr (Some t)"
  shows "step_frame k obj obj'"
  using assms
  by (auto simp: store_union_def union_target_def step_frame_insert step_frame_refl
      split: option.splits sum.splits if_splits)

lemma override_entry_frame: "override_entry obj k index v = Inr obj' \<Longrightarrow> step_frame k obj obj'"
  by (auto simp: override_entry_def step_frame_insert split: option.splits sum.splits if_splits)

lemma insert_entry_frame: "insert_entry obj k index v = Inr obj' \<Longrightarrow> step_frame k obj obj'"
  by (auto simp: insert_entry_def Let_def split: option.splits sum.splits val.splits
      intro: step_frame_trans [OF insert_base_frame step_frame_insert])

lemmas entry_frames = step_frame_insert store_union_frame override_entry_frame insert_entry_frame

text \<open>A run over the entries that ends without conflict goes through such steps.\<close>

lemma union_entries_cases [consumes 1, case_names fresh clash nested merged override insert]:
  assumes "union_entries r opts delta ((k, v) # kvs) obj uc = Inr (d, uc')"
  obtains
      "union_entries r opts delta kvs (set_values (im_insert (dv_values obj) k v) obj) uc = Inr (d, uc')"
      "im_get (dv_values obj) k = None" "im_get (dv_insert_indexs delta) k = None"
    | t where "union_target obj k (im_get (dv_insert_indexs delta) k) = Inr (Some t)"
        "entry_op delta k = Union" "idempotent_check opts" "\<not> value_subsume v t False" "d = obj"
        "uc' = record_conflict (conflict_label k (im_get (dv_insert_indexs delta) k)) t v uc"
    | t u uc1 where "union_target obj k (im_get (dv_insert_indexs delta) k) = Inr (Some t)"
        "entry_op delta k = Union" "union_value r opts False t v uc = Inr (u, uc1)" "conflict uc1"
        "d = obj" "uc' = push_path k uc1"
    | t u uc1 obj' where "union_target obj k (im_get (dv_insert_indexs delta) k) = Inr (Some t)"
        "entry_op delta k = Union" "idempotent_check opts \<longrightarrow> value_subsume v t False"
        "union_value r opts False t v uc = Inr (u, uc1)" "\<not> conflict uc1"
        "store_union obj k (im_get (dv_insert_indexs delta) k) u = Inr obj'"
        "union_entries r opts delta kvs obj' uc1 = Inr (d, uc')"
    | obj' where "override_entry obj k (im_get (dv_insert_indexs delta) k) v = Inr obj'"
        "entry_op delta k = Override"
        "im_get (dv_values obj) k \<noteq> None \<or> im_get (dv_insert_indexs delta) k \<noteq> None" "union_entries r opts delta kvs obj' uc = Inr (d, uc')"
    | obj' where "insert_entry obj k (im_get (dv_insert_indexs delta) k) v = Inr obj'"
        "entry_op delta k = Insert"
        "im_get (dv_values obj) k \<noteq> None \<or> im_get (dv_insert_indexs delta) k \<noteq> None" "union_entries r opts delta kvs obj' uc = Inr (d, uc')"
  using assms
  by (subst (asm) union_entries.simps)
    (auto simp: Let_def im_contains_def union_target_def
      split: option.splits sum.splits if_splits config_entry_op.splits)

lemma union_entries_stepE:
  assumes "union_entries r opts delta ((k, v) # kvs) obj uc = Inr (d, uc')" and "\<not> conflict uc'"
  obtains obj' uc1 where "union_entries r opts delta kvs obj' uc1 = Inr (d, uc')"
    and "step_frame k obj obj'"
  using assms by (cases rule: union_entries_cases)
    (simp_all add: record_conflict_def push_path_def, (blast intro: entry_frames)+)

lemma union_entries_keys:
  assumes "union_entries r opts delta kvs obj uc = Inr (d, uc')" and "\<not> conflict uc'"
    and "distinct (im_keys kvs)"
  shows "im_keys (dv_values d) = im_keys (dv_values obj) @
    filter (\<lambda>k. k \<notin> set (im_keys (dv_values obj))) (im_keys kvs)"
  using assms
proof (induction kvs arbitrary: obj uc)
  case (Cons e kvs)
  obtain k v where e: "e = (k, v)" by fastforce
  from Cons.prems(1,2) obtain obj' uc1 where
    o': "union_entries r opts delta kvs obj' uc1 = Inr (d, uc')" "step_frame k obj obj'"
    unfolding e by (rule union_entries_stepE)
  have "filter (\<lambda>k. k \<notin> set (im_keys (dv_values obj'))) (im_keys kvs) =
      filter (\<lambda>k. k \<notin> set (im_keys (dv_values obj))) (im_keys kvs)"
    using Cons.prems(3) o'(2) e by (intro filter_cong) (auto simp: step_frame_def)
  with Cons.IH [OF o'(1)] Cons.prems o'(2) show ?case by (simp add: e step_frame_def)
qed simp

lemma union_entries_frame:
  assumes "union_entries r opts delta kvs obj uc = Inr (d, uc')" and "\<not> conflict uc'"
    and "k \<notin> set (im_keys kvs)"
  shows "im_get (dv_values d) k = im_get (dv_values obj) k"
  using assms
proof (induction kvs arbitrary: obj uc)
  case (Cons e kvs)
  obtain k1 v where e: "e = (k1, v)" by fastforce
  from Cons.prems(1,2) obtain obj' uc1 where
    "union_entries r opts delta kvs obj' uc1 = Inr (d, uc')" "step_frame k1 obj obj'"
    unfolding e by (rule union_entries_stepE)
  with Cons show ?case by (auto simp: e step_frame_def)
qed simp

text \<open>The fields next to the values are not touched by the loop.\<close>

lemma union_entries_meta:
  assumes "union_entries r opts delta kvs obj uc = Inr (d, uc')" and "\<not> conflict uc'"
  shows "dv_ops d = dv_ops obj \<and> dv_insert_indexs d = dv_insert_indexs obj \<and>
    dv_potential_schema d = dv_potential_schema obj"
  using assms
proof (induction kvs arbitrary: obj uc)
  case (Cons e kvs)
  obtain k1 v where e: "e = (k1, v)" by fastforce
  from Cons.prems(1,2) obtain obj' uc1 where
    "union_entries r opts delta kvs obj' uc1 = Inr (d, uc')" "step_frame k1 obj obj'"
    unfolding e by (rule union_entries_stepE)
  with Cons show ?case by (auto simp: e step_frame_def)
qed simp


text \<open>The context changes only by a conflict.\<close>

lemma union_schema_context:
  "union_schema r opts self x n p ks a kw uc = Inr (v, uc') \<Longrightarrow> uc' = uc"
  by (auto simp: union_schema_def Let_def split: sum.splits if_splits)

lemma conflict_push [simp]:
  "conflict (push_path p uc) = conflict uc" "conflict (record_conflict p a b uc)"
  by (simp_all add: push_path_def record_conflict_def)

lemma union_value_cases [consumes 1, case_names left right int_or configs]:
  assumes "union_value r opts m self x uc = Inr (v, uc')"
  obtains "v = self" "uc' = uc" | "v = x" "uc' = uc"
    | a b where "self = int_value a" "x = int_value b" "v = int_value (a OR b)" "uc' = uc"
    | "is_list_or_config self" "is_list_or_config x" "do_union r opts self x uc = Inr (v, uc')"
  using assms
  by (subst (asm) union_value.simps)
    (auto simp: is_int_def as_int_def split: if_splits val.splits elim!: kind.elims)

text \<open>The four unions of configs have one shape.\<close>

definition with_config :: "val \<Rightarrow> val dict_value \<Rightarrow> val" where
  "with_config v d = (case v of
     dict_value _ \<Rightarrow> dict_value d | schema_value s \<Rightarrow> schema_value (set_config d s) | _ \<Rightarrow> v)"

lemma dict_config_with_config [simp]:
  "dict_config v = Inr d' \<Longrightarrow> dict_config (with_config v d) = Inr d"
  by (auto simp: dict_config_def with_config_def split: val.splits)

definition union_schema_of ::
  "resolver \<Rightarrow> union_options \<Rightarrow> val \<Rightarrow> val \<Rightarrow> val dict_value \<Rightarrow> union_context \<Rightarrow> (val \<times> union_context) res" where
  "union_schema_of r opts self x d uc = (case x of
     schema_value t \<Rightarrow> (case self of
         schema_value s \<Rightarrow> union_schema r opts (with_config self d) x (sv_name s) (sv_pkgpath s)
           (sv_config_keys s @ sv_config_keys t) (sv_args t) (sv_kwargs t) uc
       | _ \<Rightarrow> union_schema r opts (with_config self d) x (sv_name t) (sv_pkgpath t)
           (sv_config_keys t @ im_keys (dv_values d)) (sv_args t) (sv_kwargs t) uc)
   | dict_value delta \<Rightarrow> (case self of
         schema_value s \<Rightarrow> union_schema r opts (with_config self d) x (sv_name s) (sv_pkgpath s)
           (sv_config_keys s @ im_keys (dv_values delta)) (sv_args s) (sv_kwargs s) uc
       | _ \<Rightarrow> Inr (self, uc))
   | _ \<Rightarrow> Inr (self, uc))"

lemma do_union_configs:
  assumes "dict_config self = Inr obj" and "dict_config x = Inr delta"
  shows "do_union r opts self x uc =
    (case union_entries r opts delta (dv_values delta) (merge_meta delta obj) uc of
       Inl e \<Rightarrow> Inl e
     | Inr (d, uc') \<Rightarrow>
         if is_dict self \<and> is_dict x \<or> conflict uc' then Inr (with_config self d, uc')
         else union_schema_of r opts self x d uc')"
  using assms
  by (cases self; cases x)
    (simp_all add: dict_config_def is_dict_def with_config_def do_union.simps union_schema_of_def
      split: sum.splits)

lemma union_schema_of_context: "union_schema_of r opts self x d uc = Inr (v, uc') \<Longrightarrow> uc' = uc"
  by (auto simp: union_schema_of_def split: val.splits dest: union_schema_context)

lemma do_union_cases [consumes 1, case_names override lists configs]:
  assumes "do_union r opts self x uc = Inr (v, uc')"
  obtains "is_list self" "v = self" "uc' = uc"
    | vs xs ws where "self = list_value vs" "x = list_value xs" "v = list_value ws"
        "union_lists r opts 0 vs xs uc = Inr (ws, uc')"
    | obj delta d where "dict_config self = Inr obj" "dict_config x = Inr delta"
        "union_entries r opts delta (dv_values delta) (merge_meta delta obj) uc = Inr (d, uc')"
        "if is_dict self \<and> is_dict x \<or> conflict uc' then v = with_config self d
         else union_schema_of r opts self x d uc' = Inr (v, uc')"
proof -
  have "is_list self \<and> is_list x \<or> (\<exists>obj delta. dict_config self = Inr obj \<and> dict_config x = Inr delta)"
    using assms by (cases self; cases x; simp add: do_union.simps is_list_def dict_config_def)
  then consider (l) vs xs where "self = list_value vs" "x = list_value xs"
    | (c) obj delta where "dict_config self = Inr obj" "dict_config x = Inr delta"
    by (auto simp: is_list_def elim!: kind.elims)
  then show ?thesis
  proof cases
    case l
    with assms that(1,2) show ?thesis
      by (auto simp: do_union.simps is_list_def split: sum.splits if_splits)
  next
    case c
    from assms obtain d uc1 where
      u: "union_entries r opts delta (dv_values delta) (merge_meta delta obj) uc = Inr (d, uc1)"
      by (auto simp: do_union_configs [OF c] split: sum.splits)
    with assms have "uc1 = uc'"
      by (auto simp: do_union_configs [OF c] split: if_splits dest: union_schema_of_context)
    with u assms show ?thesis
      by (intro that(3) [OF c, of d]) (auto simp: do_union_configs [OF c] split: if_splits)
  qed
qed


lemma union_lists_cases [consumes 1, case_names shorter longer both]:
  assumes "union_lists r opts i vs xs uc = Inr (ws, uc')"
  obtains "vs = []" "ws = xs" "uc' = uc" | "xs = []" "ws = vs" "uc' = uc"
    | v vs' x xs' u uc1 ws' where "vs = v # vs'" "xs = x # xs'" "ws = u # ws'"
        "union_value r opts False v x uc = Inr (u, uc1)"
        "union_lists r opts (Suc i) vs' xs' (note_list_conflict i uc1) = Inr (ws', uc')"
  using assms by (cases vs; cases xs) (auto split: sum.splits)

section \<open>How the context evolves\<close>

lemma size_dict_config:
  "dict_config x = Inr d \<Longrightarrow> (k, v) \<in> set (dv_values d) \<Longrightarrow> size v < size x"
  using size_dict_value_mem size_schema_value_mem
  by (auto simp: dict_config_def simp del: val.size split: val.splits)

text \<open>A reflexive and transitive relation on contexts that records and paths of conflicts
  respect holds between the contexts before and after every union.\<close>

locale context_relation =
  fixes R :: "union_context \<Rightarrow> union_context \<Rightarrow> bool"
  assumes R_refl: "R uc uc"
    and R_trans: "R uc uc1 \<Longrightarrow> R uc1 uc2 \<Longrightarrow> R uc uc2"
    and R_record: "R uc (record_conflict p a b uc)"
    and R_push: "conflict uc \<Longrightarrow> R uc (push_path p uc)"
begin

lemma entries_rel:
  assumes "\<And>k v t uc u uc'. (k, v) \<in> set kvs \<Longrightarrow> union_value r opts False t v uc = Inr (u, uc') \<Longrightarrow> R uc uc'"
    and "union_entries r opts delta kvs obj uc = Inr (d, uc')"
  shows "R uc uc'"
  using assms
proof (induction kvs arbitrary: obj uc)
  case Nil
  then show ?case by (simp add: R_refl)
next
  case (Cons e kvs)
  obtain k v where e: "e = (k, v)" by fastforce
  have head: "union_value r opts False t v uc = Inr (u, uc') \<Longrightarrow> R uc uc'" for t uc u uc'
    by (rule Cons.prems(1) [of k]) (simp_all add: e)
  have tail: "union_entries r opts delta kvs obj uc = Inr (d, uc') \<Longrightarrow> R uc uc'" for obj uc
    using Cons by (meson list.set_intros(2))
  from Cons.prems(2) show ?case
    unfolding e
    by (cases rule: union_entries_cases) (use R_record R_push R_trans head tail in blast)+
qed

lemma lists_rel:
  assumes "\<And>x v uc u uc'. x \<in> set xs \<Longrightarrow> union_value r opts False v x uc = Inr (u, uc') \<Longrightarrow> R uc uc'"
    and "union_lists r opts i vs xs uc = Inr (ws, uc')"
  shows "R uc uc'"
  using assms
proof (induction xs arbitrary: i vs uc ws)
  case (Cons x xs)
  from Cons.prems(2) show ?case
  proof (cases rule: union_lists_cases)
    case (both v vs' x' xs' u uc1 ws')
    have "R uc uc1" using both(2) by (intro Cons.prems(1) [OF _ both(4)]) simp
    moreover have "R uc1 (note_list_conflict i uc1)"
      by (simp add: note_list_conflict_def R_refl R_push)
    moreover have "R (note_list_conflict i uc1) uc'"
      using both(2,5) by (intro Cons.IH) (auto intro: Cons.prems(1))
    ultimately show ?thesis using R_trans by blast
  qed (simp_all add: R_refl)
qed (auto elim: union_lists_cases simp: R_refl)

lemma value_rel: "union_value r opts m self x uc = Inr (v, uc') \<Longrightarrow> R uc uc'"
proof (induction "size x" arbitrary: m self x uc v uc' rule: less_induct)
  case less
  from less.prems show ?case
  proof (cases rule: union_value_cases)
    case configs
    from configs(3) show ?thesis
    proof (cases rule: do_union_cases)
      case (lists vs xs ws)
      show ?thesis
        by (rule lists_rel [OF _ lists(4)])
          (use less.hyps lists(2) size_list_value_mem in blast)
    next
      case (configs obj delta d)
      show ?thesis
        by (rule entries_rel [OF _ configs(3)]) (use less.hyps size_dict_config [OF configs(2)] in blast)
    qed (simp add: R_refl)
  qed (simp_all add: R_refl)
qed

lemma entries_context: "union_entries r opts delta kvs obj uc = Inr (d, uc') \<Longrightarrow> R uc uc'"
  by (rule entries_rel [OF value_rel])

end

interpretation quiet: context_relation "\<lambda>uc uc'. \<not> conflict uc' \<longrightarrow> uc' = uc"
  by unfold_locales auto

interpretation located: context_relation
  "\<lambda>uc uc'. (conflict uc \<longrightarrow> path_backtrace uc \<noteq> []) \<longrightarrow> conflict uc' \<longrightarrow> path_backtrace uc' \<noteq> []"
  by unfold_locales (auto simp: push_path_def record_conflict_def)


section \<open>The value of every key\<close>

text \<open>What a merge leaves at a key of the delta without insertion index, by the operation
  of the entry and the value the object had.\<close>

definition merged_value ::
  "resolver \<Rightarrow> union_options \<Rightarrow> config_entry_op \<Rightarrow> val option \<Rightarrow> val \<Rightarrow> val \<Rightarrow> bool" where
  "merged_value r opts op t v u = (case t of
     None \<Rightarrow> u = v
   | Some t \<Rightarrow> (case op of
       Override \<Rightarrow> u = v
     | Insert \<Rightarrow> (\<exists>ys. v = list_value ys \<and>
         (if is_none_or_undefined t then u = list_value ys
          else \<exists>xs. t = list_value xs \<and> u = list_value (xs @ ys)))
     | Union \<Rightarrow> (idempotent_check opts \<longrightarrow> value_subsume v t False) \<and>
         (\<exists>uc. \<not> conflict uc \<and> union_value r opts False t v uc = Inr (u, uc))))"

lemma insert_entry_value:
  assumes "insert_entry obj k None v = Inr obj'" and "im_get (dv_values obj) k = Some t"
  shows "\<exists>u. im_get (dv_values obj') k = Some u \<and> merged_value r opts Insert (Some t) v u"
  using assms
  by (auto simp: insert_entry_def insert_base_def Let_def im_get_insert merged_value_def mk_list_def
      split: val.splits if_splits)

lemma union_entries_at:
  assumes "union_entries r opts delta kvs obj uc = Inr (d, uc')" and "\<not> conflict uc'"
    and "distinct (im_keys kvs)" and "(k, v) \<in> set kvs"
    and "im_get (dv_insert_indexs delta) k = None"
  shows "\<exists>u. im_get (dv_values d) k = Some u \<and>
    merged_value r opts (entry_op delta k) (im_get (dv_values obj) k) v u"
  using assms
proof (induction kvs arbitrary: obj uc)
  case (Cons e kvs)
  obtain k1 v1 where e: "e = (k1, v1)" by fastforce
  show ?case
  proof (cases "k1 = k")
    case False
    from Cons.prems(1,2) obtain obj' uc1 where
      o': "union_entries r opts delta kvs obj' uc1 = Inr (d, uc')" "step_frame k1 obj obj'"
      unfolding e by (rule union_entries_stepE)
    have "im_get (dv_values obj') k = im_get (dv_values obj) k"
      using o'(2) False by (simp add: step_frame_def)
    with Cons.IH [OF o'(1)] Cons.prems False show ?thesis by (simp add: e)
  next
    case True
    then have v: "v1 = v" and new: "k \<notin> set (im_keys kvs)"
      using Cons.prems(3,4) e by (auto simp: im_keys_def image_iff)
    have frame: "im_get (dv_values d) k = im_get (dv_values obj') k"
      if "union_entries r opts delta kvs obj' uc1 = Inr (d, uc')" for obj' uc1
      using union_entries_frame [OF that Cons.prems(2) new] .
    from Cons.prems(1) show ?thesis
      unfolding e True v
    proof (cases rule: union_entries_cases)
      case fresh
      then show ?thesis by (simp add: frame im_get_insert merged_value_def)
    next
      case (merged t u uc1 obj')
      have "uc1 = uc" using quiet.value_rel [OF merged(4)] merged(5) by simp
      with merged Cons.prems(5) show ?thesis
        by (auto simp: frame union_target_def store_union_def im_get_insert merged_value_def)
    next
      case (override obj')
      with Cons.prems(5) show ?thesis
        by (auto simp: frame override_entry_def im_get_insert merged_value_def split: option.splits)
    next
      case (insert obj')
      then obtain t where "im_get (dv_values obj) k = Some t" using Cons.prems(5) by auto
      with insert Cons.prems(5) insert_entry_value [of obj k v obj' t] show ?thesis
        by (simp add: frame)
    qed (use Cons.prems(2) in simp_all)
  qed
qed simp


section \<open>Well-formedness\<close>

abbreviation dict_wf :: "val dict_value \<Rightarrow> bool" where
  "dict_wf d \<equiv> value_wf (dict_value d)"

lemma dict_wf_get: "dict_wf d \<Longrightarrow> im_get (dv_values d) k = Some v \<Longrightarrow> value_wf v"
  by (auto dest!: im_get_Some_mem dest: list_all_entryD)

lemma dict_wf_insert: "dict_wf d \<Longrightarrow> value_wf v \<Longrightarrow> dict_wf (set_values (im_insert (dv_values d) k v) d)"
  by (simp add: list_all_insert)

lemma vec_insert_all_set:
  "vec_insert_all i ys xs = Inr zs \<Longrightarrow> set zs = set xs \<union> set ys"
proof (induction ys arbitrary: i xs)
  case (Cons y ys)
  then obtain xs' where x: "vec_insert i y xs = Inr xs'" "vec_insert_all (Suc i) ys xs' = Inr zs"
    by (auto split: sum.splits)
  moreover have "set xs' = insert y (set xs)"
    using x(1) append_take_drop_id [of i xs]
    by (auto simp: vec_insert_def split: if_splits dest: in_set_takeD in_set_dropD)
      (metis Un_iff append_take_drop_id set_append)
  ultimately show ?case using Cons.IH by auto
qed simp

lemma vec_remove_subset: "vec_remove i xs = Inr ys \<Longrightarrow> set ys \<subseteq> set xs"
  by (auto simp: vec_remove_def split: if_splits dest: in_set_takeD in_set_dropD)

lemma value_wf_list: "value_wf (list_value vs) \<longleftrightarrow> (\<forall>v \<in> set vs. value_wf v)"
  by (simp add: list_all_iff)

lemma list_set_wf: "value_wf v \<Longrightarrow> value_wf x \<Longrightarrow> list_set v i x = Inr v' \<Longrightarrow> value_wf v'"
  by (auto simp: list_set_def on_list_def list_all_iff split: val.splits if_splits
      dest!: set_update_subset_insert [THEN subsetD])

lemma list_must_set_wf: "value_wf v \<Longrightarrow> value_wf x \<Longrightarrow> list_must_set v i x = Inr v' \<Longrightarrow> value_wf v'"
  by (auto simp: list_must_set_def on_list_def list_all_iff split: val.splits if_splits
      dest!: set_update_subset_insert [THEN subsetD])

lemma list_remove_at_wf: "value_wf v \<Longrightarrow> list_remove_at v i = Inr v' \<Longrightarrow> value_wf v'"
  by (auto simp: list_remove_at_def on_list_def list_all_iff split: val.splits sum.splits)
    (blast dest: vec_remove_subset [THEN subsetD])

lemma list_get_wf: "value_wf v \<Longrightarrow> list_get v i = Inr (Some x) \<Longrightarrow> value_wf x"
  by (auto simp: list_get_def on_list_def list_all_iff Let_def split: val.splits if_splits)

lemma union_target_wf: "dict_wf obj \<Longrightarrow> union_target obj k index = Inr (Some t) \<Longrightarrow> value_wf t"
  by (auto simp: union_target_def simp del: value_wf.simps split: option.splits sum.splits if_splits
      intro: dict_wf_get list_get_wf)

lemma store_union_wf:
  "dict_wf obj \<Longrightarrow> value_wf u \<Longrightarrow> store_union obj k index u = Inr obj' \<Longrightarrow> dict_wf obj'"
  by (auto simp: store_union_def simp del: value_wf.simps split: option.splits sum.splits
      intro!: dict_wf_insert elim!: list_set_wf [rotated 2]) (blast intro: dict_wf_get)

lemma override_entry_wf:
  "dict_wf obj \<Longrightarrow> value_wf v \<Longrightarrow> override_entry obj k index v = Inr obj' \<Longrightarrow> dict_wf obj'"
  by (auto simp: override_entry_def simp del: value_wf.simps
      split: option.splits sum.splits if_splits
      intro!: dict_wf_insert elim!: list_must_set_wf [rotated 2] list_remove_at_wf [rotated])
    (blast intro: dict_wf_get)+

lemma insert_entry_wf:
  assumes "dict_wf obj" and "value_wf v" and "insert_entry obj k index v = Inr obj'"
  shows "dict_wf obj'"
proof -
  let ?d = "insert_base obj k"
  have d: "dict_wf ?d"
    using assms(1) dict_wf_insert [of obj "list_value []"] by (auto simp: insert_base_def mk_list_def)
  have new: "dict_wf (set_values (im_insert (dv_values ?d) k (list_value zs)) ?d)"
    if "im_get (dv_values ?d) k = Some (list_value os)" "v = list_value ys" "set zs \<subseteq> set os \<union> set ys" for zs os ys
    using dict_wf_get [OF d that(1)] assms(2) that(2,3) d
    by (intro dict_wf_insert) (auto simp: value_wf_list simp del: value_wf.simps(1))
  from assms(3) show ?thesis
    by (auto simp: insert_entry_def Let_def simp del: value_wf.simps split: option.splits val.splits sum.splits
        dest!: vec_insert_all_set intro!: new)
qed


text \<open>The resolution of a schema is user code; that it returns well-formed values is what a
  union relies on.\<close>

definition resolver_wf :: "resolver \<Rightarrow> bool" where
  "resolver_wf r \<longleftrightarrow> (\<forall>s ks v. value_wf s \<longrightarrow> r s ks = Inr v \<longrightarrow> value_wf v)"

lemma resolve_wf: "resolver_wf r \<Longrightarrow> value_wf s \<Longrightarrow> r s ks = Inr v \<Longrightarrow> value_wf v"
  unfolding resolver_wf_def by blast

lemma dict_to_schema_wf:
  "value_wf v \<Longrightarrow> dict_to_schema (set_schema_args v a kw) n p ks m om args kwargs = Inr s \<Longrightarrow> value_wf s"
  by (cases v) (auto simp: dict_to_schema_def set_schema_args_def)

lemma union_schema_wf:
  assumes "resolver_wf r" and "value_wf self" and "union_schema r opts self x n p ks a kw uc = Inr (v, uc')"
  shows "value_wf v"
  using assms(1,3) dict_to_schema_wf [OF assms(2)]
  by (auto simp: union_schema_def Let_def split: sum.splits if_splits) (blast intro: resolve_wf)+

lemma dict_config_wf: "dict_config x = Inr d \<Longrightarrow> value_wf x \<longleftrightarrow> dict_wf d"
  by (cases x) (auto simp: dict_config_def)

lemma with_config_wf: "value_wf self \<Longrightarrow> dict_wf d \<Longrightarrow> value_wf (with_config self d)"
  by (cases self) (auto simp: with_config_def)

lemma union_schema_of_wf:
  assumes "resolver_wf r" "value_wf self" "dict_wf d" "union_schema_of r opts self x d uc = Inr (v, uc')"
  shows "value_wf v"
  using assms(4) union_schema_wf [OF assms(1) with_config_wf [OF assms(2,3)]] assms(2)
  by (auto simp: union_schema_of_def simp del: value_wf.simps split: val.splits)

definition keeps_wf :: "resolver \<Rightarrow> union_options \<Rightarrow> val \<Rightarrow> bool" where
  "keeps_wf r opts x \<longleftrightarrow> value_wf x \<and> (\<forall>m t uc u uc'. union_value r opts m t x uc = Inr (u, uc') \<longrightarrow>
     value_wf t \<longrightarrow> value_wf u)"

lemma keeps_wfD: "keeps_wf r opts x \<Longrightarrow> union_value r opts m t x uc = Inr (u, uc') \<Longrightarrow> value_wf t \<Longrightarrow> value_wf u"
  and keeps_wf_self: "keeps_wf r opts x \<Longrightarrow> value_wf x"
  unfolding keeps_wf_def by blast+

lemma entries_wf:
  assumes "union_entries r opts delta kvs obj uc = Inr (d, uc')"
    and "\<forall>(k, v) \<in> set kvs. keeps_wf r opts v" and "dict_wf obj"
  shows "dict_wf d"
  using assms
proof (induction kvs arbitrary: obj uc)
  case (Cons e kvs)
  obtain k v where e: "e = (k, v)" by fastforce
  have v: "keeps_wf r opts v" "\<forall>(k, v) \<in> set kvs. keeps_wf r opts v" using Cons.prems(2) e by auto
  note tail = Cons.IH [OF _ v(2)]
  note wf = Cons.prems(3) keeps_wf_self [OF v(1)]
  from Cons.prems(1) [unfolded e] show ?case
  proof (cases rule: union_entries_cases)
    case fresh
    show ?thesis by (rule tail [OF fresh(1)]) (rule dict_wf_insert [OF wf])
  next
    case (merged t u uc1 obj')
    have "value_wf u" by (rule keeps_wfD [OF v(1) merged(4)]) (rule union_target_wf [OF wf(1) merged(1)])
    then show ?thesis by (intro tail [OF merged(7)] store_union_wf [OF wf(1) _ merged(6)])
  next
    case (override obj')
    show ?thesis by (rule tail [OF override(4)]) (rule override_entry_wf [OF wf override(1)])
  next
    case (insert obj')
    show ?thesis by (rule tail [OF insert(4)]) (rule insert_entry_wf [OF wf insert(1)])
  qed (use wf in simp_all)
qed simp

lemma lists_wf:
  assumes "union_lists r opts i vs xs uc = Inr (ws, uc')"
    and "\<forall>x \<in> set xs. keeps_wf r opts x" and "\<forall>v \<in> set vs. value_wf v"
  shows "\<forall>v \<in> set ws. value_wf v"
  using assms
proof (induction xs arbitrary: i vs uc ws)
  case (Cons x xs)
  from Cons.prems(1) show ?case
  proof (cases rule: union_lists_cases)
    case (both v vs' x' xs' u uc1 ws')
    have "\<forall>v \<in> set ws'. value_wf v"
      by (rule Cons.IH) (use both(1,2,5) Cons.prems(2,3) in auto)
    moreover have "value_wf u"
      using both(1,2) Cons.prems(2,3) by (intro keeps_wfD [OF _ both(4)]) auto
    ultimately show ?thesis using both(3) by simp
  qed (use Cons.prems in \<open>auto dest: keeps_wf_self\<close>)
qed (auto elim: union_lists_cases)

lemma value_keeps_wf: "resolver_wf r \<Longrightarrow> value_wf x \<Longrightarrow> keeps_wf r opts x"
proof (induction "size x" arbitrary: x rule: less_induct)
  case less
  have "value_wf v" if "union_value r opts m self x uc = Inr (v, uc')" and "value_wf self" for m self uc v uc'
    using that(1)
  proof (cases rule: union_value_cases)
    case configs
    from configs(3) show ?thesis
    proof (cases rule: do_union_cases)
      case (lists vs xs ws)
      have "\<forall>x \<in> set xs. keeps_wf r opts x"
        using less.hyps less.prems lists(2) size_list_value_mem by (simp add: list_all_iff del: val.size)
      with lists_wf [OF lists(4)] lists(1,3) that(2) show ?thesis by (simp add: list_all_iff)
    next
      case (configs obj delta d)
      have "dict_wf obj" "dict_wf delta"
        using configs(1,2) that(2) less.prems(2) dict_config_wf by blast+
      moreover have "\<forall>(k, v) \<in> set (dv_values delta). keeps_wf r opts v"
        using less.hyps less.prems(1) size_dict_config [OF configs(2)] \<open>dict_wf delta\<close> by (auto simp: list_all_iff)
      ultimately have "dict_wf d"
        by (intro entries_wf [OF configs(3)]) (auto simp: merge_meta_def)
      then show ?thesis
        using configs(4) that(2) union_schema_of_wf [OF less.prems(1)] with_config_wf by (metis (full_types))
    qed (use that in simp)
  qed (use that less.prems in simp_all)
  then show ?case using less.prems by (auto simp: keeps_wf_def)
qed

section \<open>Idempotence\<close>

text \<open>Configuration data whose entries merge: no schema instances, no insertion indices and
  no \<open>+=\<close> entries.\<close>

function merge_data :: "val \<Rightarrow> bool" where
  "merge_data v = (case v of
     list_value vs \<Rightarrow> list_all merge_data vs
   | dict_value d \<Rightarrow> im_wf (dv_ops d) \<and> dv_insert_indexs d = [] \<and>
       list_all (\<lambda>(k, op). op \<noteq> Insert) (dv_ops d) \<and> list_all (\<lambda>(k, u). merge_data u) (dv_values d)
   | schema_value s \<Rightarrow> False
   | _ \<Rightarrow> True)"
  by pat_completeness auto
termination
  by (relation "measure size") (auto simp del: val.size intro: size_list_value_mem size_dict_value_mem)

declare merge_data.simps [simp del]

lemma merge_data_simps:
  "merge_data (list_value vs) \<longleftrightarrow> list_all merge_data vs"
  "merge_data (dict_value d) \<longleftrightarrow> im_wf (dv_ops d) \<and> dv_insert_indexs d = [] \<and>
     list_all (\<lambda>(k, op). op \<noteq> Insert) (dv_ops d) \<and> list_all (\<lambda>(k, u). merge_data u) (dv_values d)"
  "\<not> merge_data (schema_value s)"
  by (subst merge_data.simps, simp)+

lemma value_subsume_refl: "cmp_equal v v \<Longrightarrow> value_subsume v v c"
  by (subst value_subsume.simps) simp

lemma merge_meta_same: "im_wf (dv_ops d) \<Longrightarrow> dv_insert_indexs d = [] \<Longrightarrow> merge_meta d d = d"
  by (simp add: merge_meta_def im_insert_all_same im_get_eq_iff case_prod_beta)
    (cases d, simp add: set_potential_schema_def set_ops_def set_insert_indexs_def im_insert_all_same
      im_get_eq_iff case_prod_beta)

lemma union_entries_same:
  assumes "\<forall>(k, v) \<in> set kvs. im_get (dv_values d) k = Some v \<and> entry_op d k \<noteq> Insert \<and>
      union_value r opts False v v uc = Inr (v, uc) \<and> value_subsume v v False"
    and "dv_insert_indexs d = []" and "\<not> conflict uc"
  shows "union_entries r opts d kvs d uc = Inr (d, uc)"
  using assms
proof (induction kvs)
  case (Cons e kvs)
  obtain k v where e: "e = (k, v)" by fastforce
  show ?case
    unfolding e using Cons e by (subst union_entries.simps)
      (auto simp: Let_def im_contains_def union_target_def store_union_def override_entry_def
        im_insert_same split: config_entry_op.splits)
qed simp

lemma union_lists_same:
  assumes "\<forall>v \<in> set vs. union_value r opts False v v uc = Inr (v, uc)" and "\<not> conflict uc"
  shows "union_lists r opts i vs vs uc = Inr (vs, uc)"
  using assms by (induction vs arbitrary: i) (auto simp: note_list_conflict_def)

lemma entry_op_merge_data: "merge_data (dict_value d) \<Longrightarrow> entry_op d k \<noteq> Insert"
  by (auto simp: merge_data_simps entry_op_def list_all_iff dest!: im_get_Some_mem split: option.splits)

lemma union_value_same:
  assumes "value_wf v" and "value_plain v" and "merge_data v" and "\<not> conflict uc"
    and "m \<longrightarrow> is_list_or_config v"
  shows "union_value r opts m v v uc = Inr (v, uc)"
  using assms
proof (induction v arbitrary: m rule: value_tree_induct)
  case (list_v vs)
  then have "union_lists r opts 0 vs vs uc = Inr (vs, uc)"
    by (intro union_lists_same) (auto simp: list_all_iff merge_data_simps)
  then show ?case
    by (simp add: union_value.simps do_union.simps is_none_or_undefined_def is_list_or_config_def)
next
  case (dict_v d)
  have "union_entries r opts d (dv_values d) d uc = Inr (d, uc)"
  proof (rule union_entries_same)
    show "\<forall>(k, v) \<in> set (dv_values d). im_get (dv_values d) k = Some v \<and> entry_op d k \<noteq> Insert \<and>
        union_value r opts False v v uc = Inr (v, uc) \<and> value_subsume v v False"
    proof (clarify, intro conjI)
      fix k v assume kv: "(k, v) \<in> set (dv_values d)"
      then have v: "value_wf v" "value_plain v" "merge_data v"
        using dict_v.prems by (auto simp: list_all_iff merge_data_simps)
      show "im_get (dv_values d) k = Some v" using dict_v.prems(1) kv by (simp add: im_get_eq_iff)
      show "union_value r opts False v v uc = Inr (v, uc)"
        by (rule dict_v.IH [OF kv v dict_v.prems(4)]) simp
      show "value_subsume v v False" by (rule value_subsume_refl) (rule value_cmp_equal_refl [OF v(1,2)])
    qed (use entry_op_merge_data dict_v.prems(3) in blast)
  qed (use dict_v.prems in \<open>simp_all add: merge_data_simps\<close>)
  then show ?case
    using dict_v.prems(3)
    by (simp add: union_value.simps do_union.simps merge_meta_same merge_data_simps
        is_none_or_undefined_def is_list_or_config_def)
next
  case (leaf v)
  then show ?case by (auto simp: union_value.simps)
qed (simp add: merge_data_simps)

section \<open>Where a conflict is reported\<close>

text \<open>Deltas made of dicts and scalar values.\<close>

function dict_tree :: "val \<Rightarrow> bool" where
  "dict_tree v = (case v of
     dict_value d \<Rightarrow> im_wf (dv_values d) \<and> dv_insert_indexs d = [] \<and> list_all (\<lambda>(k, u). dict_tree u) (dv_values d)
   | list_value vs \<Rightarrow> False
   | schema_value s \<Rightarrow> False
   | _ \<Rightarrow> True)"
  by pat_completeness auto
termination
  by (relation "measure size") (auto simp del: val.size intro: size_dict_value_mem)

declare dict_tree.simps [simp del]

definition conflict_at :: "val \<Rightarrow> val \<Rightarrow> string list \<Rightarrow> union_context \<Rightarrow> union_context \<Rightarrow> bool" where
  "conflict_at self x path uc uc' \<longleftrightarrow> (\<exists>a b. path_backtrace uc' = path_backtrace uc @ rev path \<and>
     get_by_keys self path = Some a \<and> get_by_keys x path = Some b \<and> \<not> value_subsume b a False \<and>
     obj_json uc' = repr_of a \<and> delta_json uc' = repr_of b)"

definition conflict_located :: "resolver \<Rightarrow> union_options \<Rightarrow> val \<Rightarrow> bool" where
  "conflict_located r opts x \<longleftrightarrow> (\<forall>m t uc u uc'. union_value r opts m t x uc = Inr (u, uc') \<longrightarrow>
     \<not> conflict uc \<longrightarrow> conflict uc' \<longrightarrow> (\<exists>path. conflict_at t x path uc uc'))"

definition conflict_below :: "string \<Rightarrow> val \<Rightarrow> val \<Rightarrow> union_context \<Rightarrow> union_context \<Rightarrow> bool" where
  "conflict_below k t v uc uc' \<longleftrightarrow> (\<exists>path a b. path_backtrace uc' = path_backtrace uc @ rev (k # path) \<and>
     get_by_keys t path = Some a \<and> get_by_keys v path = Some b \<and> \<not> value_subsume b a False \<and>
     obj_json uc' = repr_of a \<and> delta_json uc' = repr_of b)"

lemma entries_conflict:
  assumes "union_entries r opts delta kvs obj uc = Inr (d, uc')" and "\<not> conflict uc" and "conflict uc'"
    and "\<forall>(k, v) \<in> set kvs. conflict_located r opts v" and "distinct (im_keys kvs)"
    and "dv_insert_indexs delta = []"
  shows "\<exists>k v t. (k, v) \<in> set kvs \<and> im_get (dv_values obj) k = Some t \<and> conflict_below k t v uc uc'"
  using assms
proof (induction kvs arbitrary: obj)
  case (Cons e kvs)
  obtain k v where e: "e = (k, v)" by fastforce
  have later: ?case if "union_entries r opts delta kvs obj' uc = Inr (d, uc')" "step_frame k obj obj'" for obj'
  proof -
    from Cons.IH [OF that(1)] Cons.prems obtain k' v' t where
      *: "(k', v') \<in> set kvs" "im_get (dv_values obj') k' = Some t" "conflict_below k' t v' uc uc'"
      by auto
    then have "k' \<noteq> k" using Cons.prems(5) e by (auto simp: im_keys_def image_iff)
    with that(2) * show ?thesis by (auto simp: step_frame_def)
  qed
  from Cons.prems(1) [unfolded e] show ?case
  proof (cases rule: union_entries_cases)
    case fresh
    show ?thesis by (rule later [OF fresh(1) step_frame_insert])
  next
    case (clash t)
    have t: "im_get (dv_values obj) k = Some t" using clash(1) Cons.prems(6) by (simp add: union_target_def)
    have "conflict_below k t v uc uc'"
      unfolding conflict_below_def
      by (rule exI [of _ "[]"])
        (use clash Cons.prems(6) in \<open>simp add: record_conflict_def push_path_def conflict_label_def\<close>)
    with t e show ?thesis by auto
  next
    case (nested t u uc1)
    have t: "im_get (dv_values obj) k = Some t" using nested(1) Cons.prems(6) by (simp add: union_target_def)
    have "conflict_located r opts v" using Cons.prems(4) e by simp
    then obtain path where "conflict_at t v path uc uc1"
      using nested(3,4) Cons.prems(2) unfolding conflict_located_def by blast
    then have "conflict_below k t v uc uc'"
      unfolding conflict_below_def using nested(6)
      by (intro exI [of _ path]) (auto simp: conflict_at_def push_path_def)
    with t e show ?thesis by auto
  next
    case (merged t u uc1 obj')
    have "uc1 = uc" using quiet.value_rel [OF merged(4)] merged(5) by blast
    with merged later store_union_frame show ?thesis by blast
  next
    case (override obj')
    show ?thesis by (rule later [OF override(4) override_entry_frame [OF override(1)]])
  next
    case (insert obj')
    show ?thesis by (rule later [OF insert(4) insert_entry_frame [OF insert(1)]])
  qed
qed simp

lemma get_by_key_config: "dict_config v = Inr d \<Longrightarrow> get_by_key v k = im_get (dv_values d) k"
  by (auto simp: dict_config_def get_by_key_def split: val.splits)

lemma conflict_below_at:
  assumes "get_by_key t k = Some t'" and "get_by_key x k = Some v" and "conflict_below k t' v uc uc'"
  shows "\<exists>path. conflict_at t x path uc uc'"
proof -
  from assms(3) obtain path where "conflict_at t x (k # path) uc uc'"
    using assms(1,2) by (auto simp: conflict_at_def conflict_below_def)
  then show ?thesis by blast
qed

lemma dict_tree_located: "dict_tree x \<Longrightarrow> conflict_located r opts x"
proof (induction x rule: value_tree_induct)
  case (dict_v delta)
  then have wf: "distinct (im_keys (dv_values delta))" "dv_insert_indexs delta = []"
    and sub: "\<forall>(k, v) \<in> set (dv_values delta). conflict_located r opts v"
    by (auto simp: dict_tree.simps [of "dict_value delta"] im_wf_def list_all_iff)
  show ?case
    unfolding conflict_located_def
  proof (intro allI impI)
    fix m t uc u uc'
    assume u: "union_value r opts m t (dict_value delta) uc = Inr (u, uc')" "\<not> conflict uc" "conflict uc'"
    from u(1) show "\<exists>path. conflict_at t (dict_value delta) path uc uc'"
    proof (cases rule: union_value_cases)
      case configs
      from configs(3) show ?thesis
      proof (cases rule: do_union_cases)
        case (configs obj delta' d)
        then have "delta' = delta" by (simp add: dict_config_def)
        with entries_conflict [OF configs(3) u(2,3)] sub wf obtain k v t' where
          *: "(k, v) \<in> set (dv_values delta)" "im_get (dv_values (merge_meta delta obj)) k = Some t'"
            "conflict_below k t' v uc uc'"
          by blast
        have "get_by_key t k = Some t'" "get_by_key (dict_value delta) k = Some v"
          using configs(1) * (1,2) wf(1)
          by (simp_all add: get_by_key_config merge_meta_def dict_config_def im_get_eq_iff im_wf_def)
        then show ?thesis by (rule conflict_below_at [OF _ _ * (3)])
      qed (use u in simp_all)
    qed (use u in simp_all)
  qed
next
  case (leaf v)
  show ?case
    unfolding conflict_located_def using leaf(1)
    by (auto elim!: union_value_cases)
qed (simp_all add: dict_tree.simps)

section \<open>Properties\<close>

lemma union_entry_dicts:
  assumes "union_entry r opts m (dict_value obj) (dict_value delta) = Inr v"
  obtains d uc where "v = dict_value d" "\<not> conflict uc"
    "union_entries r opts delta (dv_values delta) (merge_meta delta obj) default_union_context = Inr (d, uc)"
  using assms
  by (auto simp: union_entry_def union_value.simps do_union.simps is_none_or_undefined_def
      is_list_or_config_def Let_def split: sum.splits if_splits)

text \<open>C2. A union of two dicts that succeeds has the keys of the left dict in their order,
  then the new keys of the right one in theirs, and an attribute the right dict does not
  mention keeps its value; whatever the operations and indices of the entries are.\<close>

theorem union_entry_keys:
  assumes "im_wf (dv_values delta)"
    and "union_entry r opts m (dict_value obj) (dict_value delta) = Inr v"
  shows "\<exists>d. v = dict_value d \<and>
    im_keys (dv_values d) = im_keys (dv_values obj) @
      filter (\<lambda>k. k \<notin> set (im_keys (dv_values obj))) (im_keys (dv_values delta)) \<and>
    (\<forall>k. k \<notin> set (im_keys (dv_values delta)) \<longrightarrow> im_get (dv_values d) k = im_get (dv_values obj) k)"
proof -
  obtain d uc where d: "v = dict_value d" "\<not> conflict uc" and
    run: "union_entries r opts delta (dv_values delta) (merge_meta delta obj) default_union_context = Inr (d, uc)"
    using assms(2) by (rule union_entry_dicts)
  have "dv_values (merge_meta delta obj) = dv_values obj" by (simp add: merge_meta_def)
  with union_entries_keys [OF run d(2)] union_entries_frame [OF run d(2)] assms(1) d(1)
  show ?thesis by (simp add: im_wf_def)
qed

theorem union_entry_keys_witness:
  "\<exists>d. dict_value (DictValue [(''a'', int_value 1), (''b'', int_value 2)] [] [] [] None None) = dict_value d \<and>
    im_keys (dv_values d) = [''a''] @ filter (\<lambda>k. k \<notin> set [''a'']) [''b''] \<and>
    (\<forall>k. k \<notin> set [''b''] \<longrightarrow> im_get (dv_values d) k = im_get [(''a'', int_value 1)] k)"
proof -
  have "union_entry (\<lambda>s ks. Inr s) default_union_options True
      (dict_value (DictValue [(''a'', int_value 1)] [] [] [] None None))
      (dict_value (DictValue [(''b'', int_value 2)] [] [] [] None None)) =
      Inr (dict_value (DictValue [(''a'', int_value 1), (''b'', int_value 2)] [] [] [] None None))"
    by code_simp
  from union_entry_keys [OF _ this] show ?thesis by (simp add: im_wf_def)
qed

text \<open>C1. Every attribute of the right dict without an insertion index ends up with the value
  its operation prescribes: the new value for a fresh attribute and for \<open>=\<close>, the
  concatenation of the lists for \<open>+=\<close>, and for \<open>:\<close> the union of both values, which
  then do not contradict each other.\<close>

theorem union_entry_values:
  assumes "im_wf (dv_values delta)"
    and "union_entry r opts m (dict_value obj) (dict_value delta) = Inr v"
    and "(k, x) \<in> set (dv_values delta)" and "im_get (dv_insert_indexs delta) k = None"
  shows "\<exists>d u. v = dict_value d \<and> im_get (dv_values d) k = Some u \<and>
    merged_value r opts (entry_op delta k) (im_get (dv_values obj) k) x u"
proof -
  obtain d uc where d: "v = dict_value d" "\<not> conflict uc" and
    run: "union_entries r opts delta (dv_values delta) (merge_meta delta obj) default_union_context = Inr (d, uc)"
    using assms(2) by (rule union_entry_dicts)
  have "dv_values (merge_meta delta obj) = dv_values obj" by (simp add: merge_meta_def)
  with union_entries_at [OF run d(2) _ assms(3,4)] assms(1) d(1)
  show ?thesis by (simp add: im_wf_def)
qed

theorem union_entry_values_witness:
  "\<exists>d u. dict_value (DictValue [(''a'', list_int [1, 2])] [(''a'', Insert)] [] [] None None) = dict_value d \<and>
    im_get (dv_values d) ''a'' = Some u \<and>
    merged_value (\<lambda>s ks. Inr s) default_union_options Insert (Some (list_int [1])) (list_int [2]) u"
proof -
  have "union_entry (\<lambda>s ks. Inr s) default_union_options True
      (dict_value (DictValue [(''a'', list_int [1])] [] [] [] None None))
      (dict_value (DictValue [(''a'', list_int [2])] [(''a'', Insert)] [] [] None None)) =
      Inr (dict_value (DictValue [(''a'', list_int [1, 2])] [(''a'', Insert)] [] [] None None))"
    by code_simp
  from union_entry_values [OF _ this, of "''a''" "list_int [2]"] show ?thesis
    by (simp add: im_wf_def entry_op_def)
qed



text \<open>C4. Union is idempotent on configuration data: a list or dict of plain values united
  with itself succeeds and is itself, so writing the same configuration twice never
  conflicts.\<close>

theorem union_entry_idempotent:
  assumes "value_wf v" and "value_plain v" and "merge_data v" and "is_list_or_config v"
  shows "union_entry r opts m v v = Inr v"
  using union_value_same [OF assms(1-3), of default_union_context m] assms(4)
  by (simp add: union_entry_def default_union_context_def)

theorem union_entry_idempotent_witness:
  "union_entry (\<lambda>s ks. Inr s) default_union_options True (mk_dict (Some [(''a'', list_int [1, 2])]))
     (mk_dict (Some [(''a'', list_int [1, 2])])) = Inr (mk_dict (Some [(''a'', list_int [1, 2])]))"
  by (rule union_entry_idempotent)
    (simp_all add: mk_dict_def list_int_def im_wf_def merge_data.simps is_list_or_config_def)

text \<open>C3. When the union of a value with a delta of nested dicts finds a conflict, the error
  names the right place: the reported path leads, in both operands, to the two values
  that are reported, and these do contradict each other.\<close>

theorem union_conflict_located:
  assumes "dict_tree x"
    and "union_value r opts m self x default_union_context = Inr (v, uc)" and "conflict uc"
  shows "\<exists>path a b. path \<noteq> [] \<and>
    union_entry r opts m self x =
      Inl (if last path = [] then ConflictingBetween (repr_of b) (repr_of a)
           else ConflictingValues (last path) (repr_of a) (repr_of b) path) \<and>
    get_by_keys self path = Some a \<and> get_by_keys x path = Some b \<and> \<not> value_subsume b a False"
proof -
  have "\<not> conflict default_union_context" by (simp add: default_union_context_def)
  with dict_tree_located [OF assms(1)] assms(2,3) obtain path where
    "conflict_at self x path default_union_context uc" unfolding conflict_located_def by blast
  moreover have "path_backtrace uc \<noteq> []"
    using located.value_rel [OF assms(2)] assms(3) by (simp add: default_union_context_def)
  ultimately show ?thesis
    using assms(2,3) by (intro exI [of _ path])
      (auto simp: conflict_at_def union_entry_def default_union_context_def Let_def)
qed

theorem union_conflict_located_witness:
  "\<exists>path a b. path \<noteq> [] \<and>
    union_entry (\<lambda>s ks. Inr s) default_union_options True (dict_int [(''a'', 1)]) (dict_int [(''a'', 2)]) =
      Inl (if last path = [] then ConflictingBetween (repr_of b) (repr_of a)
           else ConflictingValues (last path) (repr_of a) (repr_of b) path) \<and>
    get_by_keys (dict_int [(''a'', 1)]) path = Some a \<and> get_by_keys (dict_int [(''a'', 2)]) path = Some b \<and>
    \<not> value_subsume b a False"
proof -
  have "union_value (\<lambda>s ks. Inr s) default_union_options True (dict_int [(''a'', 1)]) (dict_int [(''a'', 2)])
      default_union_context =
      Inr (dict_int [(''a'', 1)], record_conflict ''a'' (int_value 1) (int_value 2) default_union_context)"
    by code_simp
  from union_conflict_located [OF _ this] show ?thesis
    by (simp add: dict_int_def dict_new_def dict_tree.simps im_wf_def)
qed

text \<open>C6. The formatting of a conflict never panics itself: a context with a conflict always
  has a path, so taking its last element succeeds.\<close>

theorem union_conflict_has_path:
  assumes "union_value r opts m self x default_union_context = Inr (v, uc)"
  shows "union_entry r opts m self x \<noteq> Inl (RustPanic UnwrapNone)"
  using assms located.value_rel [OF assms]
  by (simp add: union_entry_def Let_def default_union_context_def)

theorem union_conflict_has_path_witness:
  "union_entry (\<lambda>s ks. Inr s) default_union_options True none_value (int_value 1) \<noteq> Inl (RustPanic UnwrapNone)"
  by (rule union_conflict_has_path [of _ _ _ _ _ "int_value 1" default_union_context])
    (simp add: union_value.simps is_none_or_undefined_def)

text \<open>A config with a unit number conflicts with itself, since equality of unit numbers
  is never true.\<close>

theorem union_unit_conflicts:
  "union_entry (\<lambda>s ks. Inr s) default_union_options True
     (mk_dict (Some [(''a'', unit_value x 1 ''Ki'')])) (mk_dict (Some [(''a'', unit_value x 1 ''Ki'')])) =
   Inl (ConflictingValues ''a'' (JsonRepr (unit_value x 1 ''Ki'')) (JsonRepr (unit_value x 1 ''Ki'')) [''a''])"
  by code_simp

text \<open>The loop over list elements goes on after a conflict, and the elements it visits
  then are added to the path: for a conflict in the first of two elements the reported
  path leads through the second.\<close>

theorem union_list_conflict_path:
  "union_entry (\<lambda>s ks. Inr s) default_union_options True
     (mk_dict (Some [(''l'', list_value [dict_int [(''a'', 1)], dict_int [(''b'', 2)]])]))
     (mk_dict (Some [(''l'', list_value [dict_int [(''a'', 2)], dict_int [(''b'', 2)]])])) =
   Inl (ConflictingValues ''a'' (JsonRepr (int_value 1)) (JsonRepr (int_value 2))
     [''l'', ''list[1]'', ''b'', ''list[0]'', ''a''])"
  by code_simp

end
