(* ===== verification/Value_Bin.thy ===== *)
theory Value_Bin
  imports Value_Union
begin

text \<open>
  Range checks (\<open>crates/runtime/src/value/val_overflow.rs\<close>) and binary operators
  (\<open>val_bin.rs\<close>). The float power \<open>powf\<close> of the platform's math library is a
  parameter. An overflow panic carries the number its message shows, computed on
  \<open>i128\<close>.
\<close>

section \<open>Range checks\<close>

definition is_i32_overflow :: "i64 \<Rightarrow> bool" where
  "is_i32_overflow v \<longleftrightarrow> 2 ^ 31 - 1 < sint v \<or> sint v < - (2 ^ 31)"

definition is_i32_overflow2 :: "i64 \<Rightarrow> i64 \<Rightarrow> bool" where
  "is_i32_overflow2 v1 v2 \<longleftrightarrow> is_i32_overflow v1 \<or> is_i32_overflow v2"

definition f32_max :: f64 where "f32_max = Fin False (2 ^ 53 - 2 ^ 29) 75"
definition f32_min :: f64 where "f32_min = Fin True (2 ^ 53 - 2 ^ 29) 75"

definition is_f32_overflow :: "f64 \<Rightarrow> bool" where
  "is_f32_overflow v \<longleftrightarrow> f64_lt f32_max v \<or> f64_lt v f32_min"

definition is_f32_overflow2 :: "f64 \<Rightarrow> f64 \<Rightarrow> bool" where
  "is_f32_overflow2 v1 v2 \<longleftrightarrow> is_f32_overflow v1 \<or> is_f32_overflow v2"

definition is_i32_overflow_add :: "i64 \<Rightarrow> i64 \<Rightarrow> bool" where
  "is_i32_overflow_add v1 v2 \<longleftrightarrow> is_i32_overflow2 v1 v2 \<or> checked_add_i32 (as_i32 v1) (as_i32 v2) = None"

definition is_i32_overflow_sub :: "i64 \<Rightarrow> i64 \<Rightarrow> bool" where
  "is_i32_overflow_sub v1 v2 \<longleftrightarrow> is_i32_overflow2 v1 v2 \<or> checked_sub_i32 (as_i32 v1) (as_i32 v2) = None"

definition is_i32_overflow_mul :: "i64 \<Rightarrow> i64 \<Rightarrow> bool" where
  "is_i32_overflow_mul v1 v2 \<longleftrightarrow> is_i32_overflow2 v1 v2 \<or> checked_mul_i32 (as_i32 v1) (as_i32 v2) = None"

definition is_i32_overflow_div :: "i64 \<Rightarrow> i64 \<Rightarrow> bool" where
  "is_i32_overflow_div v1 v2 \<longleftrightarrow> is_i32_overflow2 v1 v2 \<or> checked_div_i32 (as_i32 v1) (as_i32 v2) = None"

definition is_i32_overflow_pow :: "i64 \<Rightarrow> i64 \<Rightarrow> bool" where
  "is_i32_overflow_pow v1 v2 \<longleftrightarrow> is_i32_overflow2 v1 v2 \<or> checked_pow_i32 (as_i32 v1) (as_i32 v2) = None"

definition is_i32_overflow_shl :: "i64 \<Rightarrow> i64 \<Rightarrow> bool" where
  "is_i32_overflow_shl v1 v2 \<longleftrightarrow> is_i32_overflow2 v1 v2 \<or> checked_shl_i32 (as_i32 v1) (as_i32 v2) = None"

definition is_i32_overflow_shr :: "i64 \<Rightarrow> i64 \<Rightarrow> bool" where
  "is_i32_overflow_shr v1 v2 \<longleftrightarrow> is_i32_overflow2 v1 v2 \<or> checked_shr_i32 (as_i32 v1) (as_i32 v2) = None"

definition is_i64_overflow_add :: "i64 \<Rightarrow> i64 \<Rightarrow> bool" where
  "is_i64_overflow_add v1 v2 \<longleftrightarrow> checked_add_i64 v1 v2 = None"

definition is_i64_overflow_sub :: "i64 \<Rightarrow> i64 \<Rightarrow> bool" where
  "is_i64_overflow_sub v1 v2 \<longleftrightarrow> checked_sub_i64 v1 v2 = None"

definition is_i64_overflow_mul :: "i64 \<Rightarrow> i64 \<Rightarrow> bool" where
  "is_i64_overflow_mul v1 v2 \<longleftrightarrow> checked_mul_i64 v1 v2 = None"

definition is_i64_overflow_div :: "i64 \<Rightarrow> i64 \<Rightarrow> bool" where
  "is_i64_overflow_div v1 v2 \<longleftrightarrow> checked_div_i64 v1 v2 = None"

definition is_i64_overflow_pow :: "i64 \<Rightarrow> i64 \<Rightarrow> bool" where
  "is_i64_overflow_pow v1 v2 \<longleftrightarrow> is_i32_overflow v2 \<or> checked_pow_i64 v1 (as_i32 v2) = None"

definition is_i64_overflow_shl :: "i64 \<Rightarrow> i64 \<Rightarrow> bool" where
  "is_i64_overflow_shl v1 v2 \<longleftrightarrow> is_i32_overflow v2 \<or> checked_shl_i64 v1 (as_i32 v2) = None"

definition is_i64_overflow_shr :: "i64 \<Rightarrow> i64 \<Rightarrow> bool" where
  "is_i64_overflow_shr v1 v2 \<longleftrightarrow> is_i32_overflow v2 \<or> checked_shr_i64 v1 (as_i32 v2) = None"

definition is_f32_overflow_add :: "f64 \<Rightarrow> f64 \<Rightarrow> bool" where
  "is_f32_overflow_add v1 v2 \<longleftrightarrow> is_f32_overflow2 v1 v2 \<or> is_f32_overflow (f64_add v1 v2)"

definition is_f32_overflow_sub :: "f64 \<Rightarrow> f64 \<Rightarrow> bool" where
  "is_f32_overflow_sub v1 v2 \<longleftrightarrow> is_f32_overflow2 v1 v2 \<or> is_f32_overflow (f64_sub v1 v2)"

definition is_f32_overflow_mul :: "f64 \<Rightarrow> f64 \<Rightarrow> bool" where
  "is_f32_overflow_mul v1 v2 \<longleftrightarrow> is_f32_overflow2 v1 v2 \<or> is_f32_overflow (f64_mul v1 v2)"

definition is_f32_overflow_div :: "f64 \<Rightarrow> f64 \<Rightarrow> bool" where
  "is_f32_overflow_div v1 v2 \<longleftrightarrow> is_f32_overflow2 v1 v2 \<or> is_f32_overflow (f64_div v1 v2)"

definition is_f32_overflow_pow :: "(f64 \<Rightarrow> f64 \<Rightarrow> f64) \<Rightarrow> f64 \<Rightarrow> f64 \<Rightarrow> bool" where
  "is_f32_overflow_pow powf v1 v2 \<longleftrightarrow>
     is_f32_overflow2 v1 v2 \<or> is_i32_overflow (f64_to_i64 v2) \<or> is_f32_overflow (powf v1 v2)"

section \<open>Checked results\<close>

definition strict_range_check_32 :: "context_config \<Rightarrow> bool" where
  "strict_range_check_32 cfg = strict_range_check cfg"

definition strict_range_check_64 :: "context_config \<Rightarrow> bool" where
  "strict_range_check_64 cfg \<longleftrightarrow> debug_mode cfg \<or> \<not> strict_range_check cfg"

text \<open>The two checks that precede every checked integer operation, in their order.\<close>

definition range_checked ::
  "context_config \<Rightarrow> bool \<Rightarrow> panic \<Rightarrow> bool \<Rightarrow> panic \<Rightarrow> 'a \<Rightarrow> 'a res" where
  "range_checked cfg overflow32 p32 overflow64 p64 v =
     (if strict_range_check_32 cfg \<and> overflow32 then Inl p32
      else if strict_range_check_64 cfg \<and> overflow64 then Inl p64
      else Inr v)"

definition f32_checked :: "bool \<Rightarrow> bool \<Rightarrow> f64 \<Rightarrow> 'a \<Rightarrow> 'a res" where
  "f32_checked check overflow shown v = (if check \<and> overflow then Inl (F32Overflow shown) else Inr v)"

text \<open>The \<open>i128\<close> values shown by the panics of powers and shifts, wrapping at 128 bits and
  with the shift amount taken modulo 128.\<close>

definition pow_i128 :: "i64 \<Rightarrow> i64 \<Rightarrow> int" where
  "pow_i128 a b = sint ((word_of_int (sint a) :: 128 word) ^ unat (as_i32 b))"

definition shl_i128 :: "i64 \<Rightarrow> i64 \<Rightarrow> int" where
  "shl_i128 a b = sint (push_bit (unat (as_i32 b) mod 128) (word_of_int (sint a) :: 128 word))"

definition shr_i128 :: "i64 \<Rightarrow> i64 \<Rightarrow> int" where
  "shr_i128 a b = sint (signed_drop_bit (unat (as_i32 b) mod 128) (word_of_int (sint a) :: 128 word))"

text \<open>\<open>str::repeat\<close> panics when the length of the result exceeds \<open>isize::MAX\<close>.\<close>

definition str_repeat :: "string \<Rightarrow> nat \<Rightarrow> string res" where
  "str_repeat s n =
     (if 2 ^ 63 \<le> length s * n then Inl (RustPanic CapacityOverflow)
      else Inr (concat (replicate n s)))"

definition list_repeat :: "val list \<Rightarrow> i64 \<Rightarrow> val" where
  "list_repeat vs n = list_value (concat (replicate (as_usize n) (map deep_copy vs)))"

section \<open>Operators\<close>

definition bin_add :: "context_config \<Rightarrow> val \<Rightarrow> val \<Rightarrow> val res" where
  "bin_add cfg v x = (case v of
     int_value a \<Rightarrow> (case x of
         int_value b \<Rightarrow> range_checked cfg
           (is_i32_overflow_add a b) (I32Overflow (sint a + sint b))
           (is_i64_overflow_add a b) (I64Overflow (sint a + sint b)) (int_value (a + b))
       | float_value b \<Rightarrow> f32_checked True (is_f32_overflow_add (f64_of_i64 a) b)
           (f64_add (f64_of_i64 a) b) (float_value (f64_add (f64_of_i64 a) b))
       | _ \<Rightarrow> Inl (UnsupportedBinOp ''+'' v x))
   | float_value a \<Rightarrow> (case x of
         float_value b \<Rightarrow> f32_checked (strict_range_check_32 cfg) (is_f32_overflow_add a b)
           (f64_add a b) (float_value (f64_add a b))
       | int_value b \<Rightarrow> f32_checked True (is_f32_overflow_add a (f64_of_i64 b))
           (f64_add a (f64_of_i64 b)) (float_value (f64_add a (f64_of_i64 b)))
       | _ \<Rightarrow> Inl (UnsupportedBinOp ''+'' v x))
   | str_value a \<Rightarrow> (case x of
         str_value b \<Rightarrow> Inr (str_value (a @ b))
       | _ \<Rightarrow> Inl (UnsupportedBinOp ''+'' v x))
   | list_value a \<Rightarrow> (case x of
         list_value b \<Rightarrow> Inr (list_value (a @ b))
       | _ \<Rightarrow> Inl (CannotConcat x))
   | _ \<Rightarrow> Inl (UnsupportedBinOp ''+'' v x))"

definition bin_sub :: "context_config \<Rightarrow> val \<Rightarrow> val \<Rightarrow> val res" where
  "bin_sub cfg v x = (case v of
     int_value a \<Rightarrow> (case x of
         int_value b \<Rightarrow> range_checked cfg
           (is_i32_overflow_sub a b) (I32Overflow (sint a - sint b))
           (is_i64_overflow_sub a b) (I32Overflow (sint a - sint b)) (int_value (a - b))
       | float_value b \<Rightarrow> f32_checked (strict_range_check_32 cfg) (is_f32_overflow_sub (f64_of_i64 a) b)
           (f64_sub (f64_of_i64 a) b) (float_value (f64_sub (f64_of_i64 a) b))
       | _ \<Rightarrow> Inl (UnsupportedBinOp ''-'' v x))
   | float_value a \<Rightarrow> (case x of
         float_value b \<Rightarrow> f32_checked (strict_range_check_32 cfg) (is_f32_overflow_sub a b)
           (f64_sub a b) (float_value (f64_sub a b))
       | int_value b \<Rightarrow> f32_checked (strict_range_check_32 cfg) (is_f32_overflow_sub a (f64_of_i64 b))
           (f64_sub a (f64_of_i64 b)) (float_value (f64_sub a (f64_of_i64 b)))
       | _ \<Rightarrow> Inl (UnsupportedBinOp ''-'' v x))
   | _ \<Rightarrow> Inl (UnsupportedBinOp ''-'' v x))"

definition bin_mul :: "context_config \<Rightarrow> val \<Rightarrow> val \<Rightarrow> val res" where
  "bin_mul cfg v x = (case v of
     int_value a \<Rightarrow> (case x of
         int_value b \<Rightarrow> range_checked cfg
           (is_i32_overflow_mul a b) (I32Overflow (sint a * sint b))
           (is_i64_overflow_mul a b) (I64Overflow (sint a * sint b)) (int_value (a * b))
       | float_value b \<Rightarrow> f32_checked (strict_range_check_32 cfg) (is_f32_overflow_mul (f64_of_i64 a) b)
           (f64_mul (f64_of_i64 a) b) (float_value (f64_mul (f64_of_i64 a) b))
       | str_value s \<Rightarrow> (case str_repeat s (as_usize a) of Inl e \<Rightarrow> Inl e | Inr t \<Rightarrow> Inr (str_value t))
       | list_value vs \<Rightarrow> Inr (list_repeat vs a)
       | _ \<Rightarrow> Inl (UnsupportedBinOp ''*'' v x))
   | float_value a \<Rightarrow> (case x of
         float_value b \<Rightarrow> f32_checked (strict_range_check_32 cfg) (is_f32_overflow_mul a b)
           (f64_mul a b) (float_value (f64_mul a b))
       | int_value b \<Rightarrow> f32_checked (strict_range_check_32 cfg) (is_f32_overflow_mul a (f64_of_i64 b))
           (f64_mul a (f64_of_i64 b)) (float_value (f64_mul a (f64_of_i64 b)))
       | _ \<Rightarrow> Inl (UnsupportedBinOp ''*'' v x))
   | str_value s \<Rightarrow> (case x of
         int_value b \<Rightarrow> (case str_repeat s (as_usize b) of Inl e \<Rightarrow> Inl e | Inr t \<Rightarrow> Inr (str_value t))
       | _ \<Rightarrow> Inl (UnsupportedBinOp ''*'' v x))
   | list_value vs \<Rightarrow> (case x of
         int_value b \<Rightarrow> Inr (list_repeat vs b)
       | _ \<Rightarrow> Inl (UnsupportedBinOp ''*'' v x))
   | _ \<Rightarrow> Inl (UnsupportedBinOp ''*'' v x))"

definition bin_div :: "val \<Rightarrow> val \<Rightarrow> val res" where
  "bin_div v x =
     (if is_number v \<and> is_number x then Inr (float_value (f64_div (as_num v) (as_num x)))
      else Inl (UnsupportedBinOp ''/'' v x))"

text \<open>The signs of the operands differ.\<close>

definition signs_differ :: "i64 \<Rightarrow> i64 \<Rightarrow> bool" where
  "signs_differ x y \<longleftrightarrow> (sint x < 0) \<noteq> (sint y < 0)"

definition int_mod :: "i64 \<Rightarrow> i64 \<Rightarrow> i64 res" where
  "int_mod x y = (case rust_rem x y of
     Inl e \<Rightarrow> Inl (RustPanic e)
   | Inr r \<Rightarrow> Inr (if signs_differ x y \<and> r \<noteq> 0 then r + y else r))"

definition bin_mod :: "val \<Rightarrow> val \<Rightarrow> val res" where
  "bin_mod v x = (case v of
     int_value a \<Rightarrow> (case x of
         int_value b \<Rightarrow> (case int_mod a b of Inl e \<Rightarrow> Inl e | Inr r \<Rightarrow> Inr (int_value r))
       | float_value b \<Rightarrow> Inr (float_value (f64_rem (f64_of_i64 a) b))
       | _ \<Rightarrow> Inl (UnsupportedBinOp ''%'' v x))
   | float_value a \<Rightarrow> (case x of
         float_value b \<Rightarrow> Inr (float_value (f64_rem a b))
       | int_value b \<Rightarrow> Inr (float_value (f64_rem a (f64_of_i64 b)))
       | _ \<Rightarrow> Inl (UnsupportedBinOp ''%'' v x))
   | _ \<Rightarrow> Inl (UnsupportedBinOp ''%'' v x))"

definition bin_pow :: "(f64 \<Rightarrow> f64 \<Rightarrow> f64) \<Rightarrow> context_config \<Rightarrow> val \<Rightarrow> val \<Rightarrow> val res" where
  "bin_pow powf cfg v x = (case v of
     int_value a \<Rightarrow> (case x of
         int_value b \<Rightarrow> range_checked cfg
           (is_i32_overflow_pow a b) (I32Overflow (pow_i128 a b))
           (is_i64_overflow_pow a b) (I64Overflow (pow_i128 a b)) (int_value (a ^ unat (as_i32 b)))
       | float_value b \<Rightarrow> f32_checked (strict_range_check_32 cfg) (is_f32_overflow_pow powf (f64_of_i64 a) b)
           (powf (f64_of_i64 a) b) (float_value (powf (f64_of_i64 a) b))
       | _ \<Rightarrow> Inl (UnsupportedBinOp ''**'' v x))
   | float_value a \<Rightarrow> (case x of
         float_value b \<Rightarrow> f32_checked (strict_range_check_32 cfg) (is_f32_overflow_pow powf a b)
           (powf a b) (float_value (powf a b))
       | int_value b \<Rightarrow> f32_checked (strict_range_check_32 cfg) (is_f32_overflow_pow powf a (f64_of_i64 b))
           (powf a (f64_of_i64 b)) (float_value (powf a (f64_of_i64 b)))
       | _ \<Rightarrow> Inl (UnsupportedBinOp ''**'' v x))
   | _ \<Rightarrow> Inl (UnsupportedBinOp ''**'' v x))"

definition int_floor_div :: "i64 \<Rightarrow> i64 \<Rightarrow> i64 res" where
  "int_floor_div x y =
     (let quot = (\<lambda>c. case rust_div x y of Inl e \<Rightarrow> Inl (RustPanic e) | Inr q \<Rightarrow> Inr (q - c))
      in if signs_differ x y
         then (case rust_rem x y of
                 Inl e \<Rightarrow> Inl (RustPanic e)
               | Inr r \<Rightarrow> if r \<noteq> 0 then quot 1 else quot 0)
         else quot 0)"

definition bin_floor_div :: "val \<Rightarrow> val \<Rightarrow> val res" where
  "bin_floor_div v x = (case v of
     int_value a \<Rightarrow> (case x of
         int_value b \<Rightarrow> (case int_floor_div a b of Inl e \<Rightarrow> Inl e | Inr q \<Rightarrow> Inr (int_value q))
       | float_value b \<Rightarrow> Inr (float_value (f64_floor (f64_div (f64_of_i64 a) b)))
       | _ \<Rightarrow> Inl (UnsupportedBinOp ''//'' v x))
   | float_value a \<Rightarrow> (case x of
         float_value b \<Rightarrow> Inr (float_value (f64_floor (f64_div a b)))
       | int_value b \<Rightarrow> Inr (float_value (f64_floor (f64_div a (f64_of_i64 b))))
       | _ \<Rightarrow> Inl (UnsupportedBinOp ''//'' v x))
   | _ \<Rightarrow> Inl (UnsupportedBinOp ''//'' v x))"

definition bin_bit_lshift :: "context_config \<Rightarrow> val \<Rightarrow> val \<Rightarrow> val res" where
  "bin_bit_lshift cfg v x = (case (v, x) of
     (int_value a, int_value b) \<Rightarrow> range_checked cfg
       (is_i32_overflow_shl a b) (I32Overflow (shl_i128 a b))
       (is_i64_overflow_shl a b) (I64Overflow (shl_i128 a b)) (int_value (rust_shl a b))
   | _ \<Rightarrow> Inl (UnsupportedBinOp ''<<'' v x))"

definition bin_bit_rshift :: "context_config \<Rightarrow> val \<Rightarrow> val \<Rightarrow> val res" where
  "bin_bit_rshift cfg v x = (case (v, x) of
     (int_value a, int_value b) \<Rightarrow> range_checked cfg
       (is_i32_overflow_shr a b) (I32Overflow (shr_i128 a b))
       (is_i64_overflow_shr a b) (I64Overflow (shr_i128 a b)) (int_value (rust_shr a b))
   | _ \<Rightarrow> Inl (UnsupportedBinOp ''>>'' v x))"

definition bin_bit_and :: "val \<Rightarrow> val \<Rightarrow> val res" where
  "bin_bit_and v x = (case (v, x) of
     (int_value a, int_value b) \<Rightarrow> Inr (int_value (a AND b))
   | _ \<Rightarrow> Inl (UnsupportedBinOp ''&'' v x))"

definition bin_bit_xor :: "val \<Rightarrow> val \<Rightarrow> val res" where
  "bin_bit_xor v x = (case (v, x) of
     (int_value a, int_value b) \<Rightarrow> Inr (int_value (a XOR b))
   | _ \<Rightarrow> Inl (UnsupportedBinOp ''^'' v x))"

definition bin_bit_or :: "resolver \<Rightarrow> val \<Rightarrow> val \<Rightarrow> val res" where
  "bin_bit_or resolve v x = (case (v, x) of
     (int_value a, int_value b) \<Rightarrow> Inr (int_value (a OR b))
   | _ \<Rightarrow> union_entry resolve default_union_options True (deep_copy v) x)"

section \<open>Subscripts\<close>

definition bin_subscr :: "val \<Rightarrow> val \<Rightarrow> val res" where
  "bin_subscr v x = (case v of
     str_value a \<Rightarrow> (case x of
         int_value b \<Rightarrow> (case must_normalize_index (as_i32 b) (length (chars a)) of
             Inl e \<Rightarrow> Inl e
           | Inr i \<Rightarrow>
               if i < length a
               then (if i < length (chars a) then Inr (str_value (chars a ! i)) else Inl (RustPanic UnwrapNone))
               else Inl (StrIndexOutOfRange b))
       | _ \<Rightarrow> Inl (NotSubscriptable v x))
   | list_value a \<Rightarrow> (case x of
         int_value b \<Rightarrow> (case must_normalize_index (as_i32 b) (length a) of
             Inl e \<Rightarrow> Inl e
           | Inr i \<Rightarrow> if i < length a then Inr (a ! i) else Inl (ListIndexOutOfRange b))
       | _ \<Rightarrow> Inl (NotSubscriptable v x))
   | dict_value d \<Rightarrow> (case x of
         str_value k \<Rightarrow> Inr (case im_get (dv_values d) k of Some u \<Rightarrow> u | None \<Rightarrow> undefined_value)
       | _ \<Rightarrow> Inr undefined_value)
   | schema_value s \<Rightarrow> (case x of
         str_value k \<Rightarrow> Inr (case im_get (dv_values (sv_config s)) k of Some u \<Rightarrow> u | None \<Rightarrow> undefined_value)
       | _ \<Rightarrow> Inl (NotSubscriptable v x))
   | _ \<Rightarrow> Inl (NotSubscriptable v x))"

definition bin_subscr_option :: "val \<Rightarrow> val \<Rightarrow> val res" where
  "bin_subscr_option v x = (if is_truthy v then bin_subscr v x else Inr none_value)"

text \<open>\<open>dict_set_value\<close> of \<open>val_dict.rs\<close>: a schema instance is resolved again with the
  new attribute.\<close>

definition dict_set_value :: "resolver \<Rightarrow> val \<Rightarrow> string \<Rightarrow> val \<Rightarrow> val res" where
  "dict_set_value resolve p key v =
     (if is_config p
      then (case dict_update_key_value p key v of
              Inl e \<Rightarrow> Inl e
            | Inr p' \<Rightarrow> (case p' of
                schema_value s \<Rightarrow> (case resolve p' (sv_config_keys s @ [key]) of
                    Inl e \<Rightarrow> Inl e
                  | Inr schema \<Rightarrow> Inr (schema_update_with_schema p' schema))
              | _ \<Rightarrow> Inr p'))
      else Inl (DictUpdateExpected p key))"

definition bin_subscr_set :: "resolver \<Rightarrow> val \<Rightarrow> val \<Rightarrow> val \<Rightarrow> val res" where
  "bin_subscr_set resolve p x v =
     (if is_list p \<and> is_int x then list_set_value p x v
      else if is_config p \<and> is_str x then dict_set_value resolve p (as_str x) v
      else Inl (NotSubscriptable p x))"

section \<open>Integer arithmetic is exact or panics\<close>

lemma is_i32_overflow_iff: "is_i32_overflow v \<longleftrightarrow> \<not> i32_range (sint v)"
  by (auto simp: is_i32_overflow_def i32_range_def)

lemmas i32_overflow_simps = is_i32_overflow2_def is_i32_overflow_iff sint_as_i32

text \<open>What the range-checked operators share: a wrapping operation, the mathematical one it
  implements, and the two overflow tests that guard it.\<close>

locale exact_int_op =
  fixes wrap :: "i64 \<Rightarrow> i64 \<Rightarrow> i64" and math :: "int \<Rightarrow> int \<Rightarrow> int"
    and overflow32 :: "i64 \<Rightarrow> i64 \<Rightarrow> bool" and overflow64 :: "i64 \<Rightarrow> i64 \<Rightarrow> bool"
  assumes exact: "i64_range (math (sint a) (sint b)) \<Longrightarrow> sint (wrap a b) = math (sint a) (sint b)"
    and overflow64_iff: "overflow64 a b \<longleftrightarrow> \<not> i64_range (math (sint a) (sint b))"
    and overflow32_iff: "overflow32 a b \<longleftrightarrow>
      \<not> (i32_range (sint a) \<and> i32_range (sint b) \<and> i32_range (math (sint a) (sint b)))"
begin

lemma wrap_exact: "i64_range (math (sint a) (sint b)) \<Longrightarrow> wrap a b = word_of_int (math (sint a) (sint b))"
  using exact sint_eq_iff_i64 sint_of_int_i64 by metis

lemma checked_exact:
  "range_checked cfg (overflow32 a b) p32 (overflow64 a b) p64 (int_value (wrap a b)) =
     (let c = math (sint a) (sint b)
      in if strict_range_check cfg \<and> \<not> (i32_range (sint a) \<and> i32_range (sint b) \<and> i32_range c) then Inl p32
         else if \<not> i64_range c then Inl p64
         else Inr (int_value (word_of_int c)))"
  using i32_range_i64 [of "math (sint a) (sint b)"]
  by (auto simp: range_checked_def overflow32_iff overflow64_iff wrap_exact Let_def
      strict_range_check_32_def strict_range_check_64_def)

end

interpretation add_op: exact_int_op "(+)" "(+)" is_i32_overflow_add is_i64_overflow_add
  by unfold_locales
    (auto simp: sint_add_i64 is_i64_overflow_add_def is_i32_overflow_add_def checked_defs
      i32_overflow_simps)

interpretation sub_op: exact_int_op "(-)" "(-)" is_i32_overflow_sub is_i64_overflow_sub
  by unfold_locales
    (auto simp: sint_sub_i64 is_i64_overflow_sub_def is_i32_overflow_sub_def checked_defs
      i32_overflow_simps)

interpretation mul_op: exact_int_op "(*)" "(*)" is_i32_overflow_mul is_i64_overflow_mul
  by unfold_locales
    (auto simp: sint_mul_i64 is_i64_overflow_mul_def is_i32_overflow_mul_def checked_defs
      i32_overflow_simps)

section \<open>Floor division\<close>

lemma smod_eq_0_iff: "x smod y = 0 \<longleftrightarrow> y dvd (x :: int)"
  by (auto simp: signed_modulo_int_def sgn_if mod_eq_0_iff_dvd abs_if split: if_splits)

lemma sdiv_smod_floor:
  fixes x y :: int
  assumes "y \<noteq> 0"
  shows "x div y = (if (x < 0) \<noteq> (y < 0) \<and> x smod y \<noteq> 0 then x sdiv y - 1 else x sdiv y)"
    and "x mod y = (if (x < 0) \<noteq> (y < 0) \<and> x smod y \<noteq> 0 then x smod y + y else x smod y)"
proof -
  have "sgn x \<noteq> sgn y \<and> \<not> y dvd x \<longleftrightarrow> (x < 0) \<noteq> (y < 0) \<and> x smod y \<noteq> 0"
    using assms by (auto simp: smod_eq_0_iff sgn_if)
  with assms show div: "x div y = (if (x < 0) \<noteq> (y < 0) \<and> x smod y \<noteq> 0 then x sdiv y - 1 else x sdiv y)"
    by (auto simp: divide_int_eq_signed_divide_int [of x y])
  have "x smod y = x - x sdiv y * y" using sdiv_mult_smod_eq [of x y] by linarith
  with div show "x mod y = (if (x < 0) \<noteq> (y < 0) \<and> x smod y \<noteq> 0 then x smod y + y else x smod y)"
    by (auto simp: minus_div_mult_eq_mod [symmetric] algebra_simps)
qed

text \<open>The operands on which Rust's division and remainder panic.\<close>

definition div_defined :: "i64 \<Rightarrow> i64 \<Rightarrow> bool" where
  "div_defined x y \<longleftrightarrow> y \<noteq> 0 \<and> \<not> (x = i64_min \<and> y = - 1)"

lemma rust_div_ok: "div_defined x y \<Longrightarrow> rust_div x y = Inr (word_of_int (sint x sdiv sint y))"
  and rust_rem_ok: "div_defined x y \<Longrightarrow> rust_rem x y = Inr (word_of_int (sint x smod sint y))"
  unfolding div_defined_def rust_div_def rust_rem_def by argo+

lemma smod_word_eq_0:
  fixes x y :: i64
  shows "y \<noteq> 0 \<Longrightarrow> (word_of_int (sint x smod sint y) :: i64) = 0 \<longleftrightarrow> sint x smod sint y = 0"
  using sint_of_int_i64 [OF i64_range_smod, of y x] by (metis sint_eq_0_iff_i64)

lemma int_mod_ok:
  assumes "div_defined x y"
  shows "int_mod x y = Inr (word_of_int (sint x mod sint y))"
proof -
  have "y \<noteq> 0" using assms by (simp add: div_defined_def)
  then show ?thesis
    using rust_rem_ok [OF assms] sdiv_smod_floor(2) [of "sint y" "sint x"]
    by (simp add: int_mod_def signs_differ_def smod_word_eq_0 sint_eq_0_iff_i64)
qed

lemma int_floor_div_ok:
  assumes "div_defined x y"
  shows "int_floor_div x y = Inr (word_of_int (sint x div sint y))"
proof -
  have "y \<noteq> 0" using assms by (simp add: div_defined_def)
  then show ?thesis
    using rust_rem_ok [OF assms] rust_div_ok [OF assms] sdiv_smod_floor(1) [of "sint y" "sint x"]
    by (simp add: int_floor_div_def signs_differ_def smod_word_eq_0 sint_eq_0_iff_i64 Let_def)
qed

lemma div_pos_bounds:
  fixes a b :: int
  assumes "0 < b"
  shows "0 \<le> a \<Longrightarrow> 0 \<le> a div b \<and> a div b \<le> a" and "a < 0 \<Longrightarrow> a \<le> a div b \<and> a div b < 0"
proof -
  show "0 \<le> a \<Longrightarrow> 0 \<le> a div b \<and> a div b \<le> a"
    using assms zdiv_mono2 [of a 1 b] by (auto simp: pos_imp_zdiv_nonneg_iff)
  show "a < 0 \<Longrightarrow> a \<le> a div b \<and> a div b < 0"
    using assms zdiv_mono2_neg [of a 1 b] by (auto simp: pos_imp_zdiv_neg_iff)
qed

lemma sint_div_mod:
  assumes "div_defined x y"
  shows "sint (word_of_int (sint x div sint y) :: i64) = sint x div sint y"
    and "sint (word_of_int (sint x mod sint y) :: i64) = sint x mod sint y"
proof -
  have r: "i64_range (sint x)" "i64_range (sint y)" by simp_all
  have y0: "sint y \<noteq> 0" using assms by (simp add: div_defined_def sint_eq_0_iff_i64)
  then have "\<bar>sint x mod sint y\<bar> \<le> \<bar>sint y\<bar> - 1" by (simp add: abs_mod_less)
  with r(2) show "sint (word_of_int (sint x mod sint y) :: i64) = sint x mod sint y"
    by (intro sint_of_int_i64) (auto simp: i64_range_def abs_if split: if_splits)
  have "\<not> (sint x = - (2 ^ 63) \<and> sint y = - 1)"
    using assms sint_eq_iff_i64 [of x i64_min] by (auto simp: div_defined_def sint_eq_m1_iff_i64)
  moreover have "- sint x div - sint y \<noteq> - sint x \<or> sint y = - 1 \<or> - sint x \<le> 0 \<or> 0 \<le> sint y"
    using int_div_less_self [of "- sint x" "- sint y"] by linarith
  ultimately have "i64_range (sint x div sint y)"
    using r y0 div_pos_bounds [of "sint y" "sint x"] div_pos_bounds [of "- sint y" "- sint x"]
    unfolding div_minus_minus i64_range_def by linarith
  then show "sint (word_of_int (sint x div sint y) :: i64) = sint x div sint y"
    by (rule sint_of_int_i64)
qed


lemma unat_of_int_u32: "0 \<le> x \<Longrightarrow> x < 2 ^ 32 \<Longrightarrow> unat (word_of_int x :: u32) = nat x"
  by (simp add: unat_eq_nat_uint uint_word_of_int)

section \<open>Indices\<close>

lemma must_normalize_index_eq:
  assumes "int len < 2 ^ 31"
  shows "must_normalize_index i len =
    (let j = (if sint i < 0 then sint i + int len else sint i)
     in if 0 \<le> j then Inr (nat j) else Inl (IndexNormalize i len))"
proof -
  have "i32_range (sint i)" by simp
  moreover have "sint (of_nat len :: i32) = int len"
    using assms sint_of_int_i32 [of "int len"] by (simp add: i32_range_def)
  ultimately have "sint (i + of_nat len) = sint i + int len" if "sint i < 0"
    using that assms by (simp add: i32_range_def sint_word_add signed_take_bit_int_eq_self)
  then show ?thesis by (simp add: must_normalize_index_def Let_def)
qed

section \<open>Properties\<close>

text \<open>C7. Integer addition, subtraction and multiplication never wrap: they return the
  mathematical result, or panic with it when it leaves the range in force (32 bits for
  operands and result under the strict check, 64 bits otherwise), in every
  configuration.\<close>

theorem int_arithmetic_exact:
  "(bin_add cfg (int_value a) (int_value b) = (let c = sint a + sint b in
     if strict_range_check cfg \<and> \<not> (i32_range (sint a) \<and> i32_range (sint b) \<and> i32_range c)
     then Inl (I32Overflow c) else if \<not> i64_range c then Inl (I64Overflow c) else Inr (int_value (word_of_int c)))) \<and>
   (bin_sub cfg (int_value a) (int_value b) = (let c = sint a - sint b in
     if strict_range_check cfg \<and> \<not> (i32_range (sint a) \<and> i32_range (sint b) \<and> i32_range c)
     then Inl (I32Overflow c) else if \<not> i64_range c then Inl (I32Overflow c) else Inr (int_value (word_of_int c)))) \<and>
   (bin_mul cfg (int_value a) (int_value b) = (let c = sint a * sint b in
     if strict_range_check cfg \<and> \<not> (i32_range (sint a) \<and> i32_range (sint b) \<and> i32_range c)
     then Inl (I32Overflow c) else if \<not> i64_range c then Inl (I64Overflow c) else Inr (int_value (word_of_int c))))"
  by (intro conjI) (simp_all add: bin_add_def bin_sub_def bin_mul_def add_op.checked_exact sub_op.checked_exact
      mul_op.checked_exact Let_def)

text \<open>C8. Integer \<open>//\<close> and \<open>%\<close> are floor division and its remainder, as in Python,
  although the code builds them from truncating machine operations: on operands where
  the machine division is defined the results are the mathematical ones.\<close>

theorem int_floor_division:
  assumes "y \<noteq> 0" and "\<not> (x = i64_min \<and> y = - 1)"
  shows "\<exists>q r. bin_floor_div (int_value x) (int_value y) = Inr (int_value q) \<and>
    bin_mod (int_value x) (int_value y) = Inr (int_value r) \<and>
    sint q = sint x div sint y \<and> sint r = sint x mod sint y \<and>
    sint x = sint q * sint y + sint r"
proof -
  have d: "div_defined x y" unfolding div_defined_def using assms by blast
  show ?thesis
    using sint_div_mod [OF d]
    by (intro exI [of _ "word_of_int (sint x div sint y)"] exI [of _ "word_of_int (sint x mod sint y)"])
      (simp add: bin_floor_div_def bin_mod_def int_floor_div_ok [OF d] int_mod_ok [OF d])
qed

theorem int_floor_division_witness:
  "\<exists>q r. bin_floor_div (int_value (- 7)) (int_value 2) = Inr (int_value q) \<and>
    bin_mod (int_value (- 7)) (int_value 2) = Inr (int_value r) \<and>
    sint q = sint (- 7 :: i64) div sint (2 :: i64) \<and> sint r = sint (- 7 :: i64) mod sint (2 :: i64) \<and>
    sint (- 7 :: i64) = sint q * sint (2 :: i64) + sint r"
  by (rule int_floor_division) simp_all

text \<open>On the remaining operands both operators panic: on a zero divisor, and on the
  quotient \<open>i64::MIN // -1\<close> that does not fit.\<close>

theorem int_floor_division_panics:
  "(bin_mod (int_value x) (int_value 0) = Inl (RustPanic RemByZero)) \<and>
   (bin_floor_div (int_value x) (int_value 0) =
     Inl (RustPanic (if sint x < 0 then RemByZero else DivideByZero))) \<and>
   (bin_mod (int_value i64_min) (int_value (- 1)) = Inl (RustPanic RemOverflow)) \<and>
   (bin_floor_div (int_value i64_min) (int_value (- 1)) = Inl (RustPanic DivideOverflow))"
  by (intro conjI) (simp_all add: bin_mod_def bin_floor_div_def int_mod_def int_floor_div_def rust_rem_def
      rust_div_def signs_differ_def Let_def)

text \<open>C38. The integer power with a non-negative exponent below \<open>2^31\<close> is exact or panics in
  the 64-bit configurations.\<close>

theorem int_power_exact:
  assumes "\<not> strict_range_check cfg" and "0 \<le> sint b" and "sint b < 2 ^ 31"
  shows "bin_pow powf cfg (int_value a) (int_value b) =
    (let c = sint a ^ nat (sint b)
     in if i64_range c then Inr (int_value (word_of_int c)) else Inl (I64Overflow (pow_i128 a b)))"
proof -
  have "unat (as_i32 b) = nat (sint b)"
    unfolding as_i32_def using assms(2,3) by (intro unat_of_int_u32) simp_all
  moreover have "\<not> is_i32_overflow b" using assms(2,3) by (simp add: is_i32_overflow_def)
  moreover have "i64_range (sint a ^ n) \<Longrightarrow> a ^ n = word_of_int (sint a ^ n)" for n
    using sint_pow_i64 sint_eq_iff_i64 sint_of_int_i64 by metis
  ultimately show ?thesis
    using assms(1) by (simp add: bin_pow_def range_checked_def strict_range_check_32_def
        strict_range_check_64_def is_i64_overflow_pow_def checked_pow_i64_def Let_def)
qed

theorem int_power_exact_witness:
  "bin_pow (\<lambda>a b. NaN) \<lparr>debug_mode = False, strict_range_check = False, disable_schema_check = False\<rparr>
     (int_value 3) (int_value 4) =
    (let c = sint (3 :: i64) ^ nat (sint (4 :: i64))
     in if i64_range c then Inr (int_value (word_of_int c)) else Inl (I64Overflow (pow_i128 3 4)))"
  by (rule int_power_exact) simp_all

text \<open>A left shift is not checked like the other operators: the test looks at the shift
  amount only, so shifting ones out of the word, or into the sign bit, gives a wrong
  number instead of an overflow panic.\<close>

theorem left_shift_overflow_unnoticed:
  "(bin_bit_lshift \<lparr>debug_mode = True, strict_range_check = False, disable_schema_check = False\<rparr>
     (int_value 3) (int_value 63) = Inr (int_value i64_min)) \<and>
   (bin_bit_lshift \<lparr>debug_mode = True, strict_range_check = True, disable_schema_check = False\<rparr>
     (int_value 1) (int_value 31) = Inr (int_value 0x80000000))"
  by (intro conjI) (simp_all add: bin_bit_lshift_def range_checked_def strict_range_check_32_def
      strict_range_check_64_def is_i32_overflow_shl_def is_i64_overflow_shl_def is_i32_overflow2_def
      is_i32_overflow_def checked_shl_i32_def checked_shl_i64_def as_i32_def rust_shl_def)

text \<open>C37. A list subscript within 32 bits is Python's: a negative index counts from the
  end, and an index outside the list panics; no element is ever read out of range.\<close>

theorem list_subscript:
  assumes "i32_range (sint b)" and "int (length vs) < 2 ^ 31"
  shows "bin_subscr (list_value vs) (int_value b) =
    (let i = (if sint b < 0 then sint b + int (length vs) else sint b)
     in if 0 \<le> i \<and> i < int (length vs) then Inr (vs ! nat i)
        else if sint b < 0 then Inl (IndexNormalize (as_i32 b) (length vs))
        else Inl (ListIndexOutOfRange b))"
  using must_normalize_index_eq [OF assms(2), of "as_i32 b"] sint_as_i32 [OF assms(1)]
  by (auto simp: bin_subscr_def Let_def nat_less_iff)

theorem list_subscript_witness:
  "bin_subscr (list_value [none_value, bool_value True]) (int_value (- 1)) =
    (let i = (if sint (- 1 :: i64) < 0 then sint (- 1 :: i64) + int (length [none_value, bool_value True])
              else sint (- 1 :: i64))
     in if 0 \<le> i \<and> i < int (length [none_value, bool_value True]) then Inr ([none_value, bool_value True] ! nat i)
        else if sint (- 1 :: i64) < 0 then Inl (IndexNormalize (as_i32 (- 1)) (length [none_value, bool_value True]))
        else Inl (ListIndexOutOfRange (- 1)))"
  by (rule list_subscript) (simp_all add: i32_range_def)

text \<open>An index that does not fit 32 bits is truncated before the range test: subscript
  \<open>2^32\<close> reads element 0, and assigning to it overwrites element 0.\<close>

theorem list_subscript_truncates:
  "(bin_subscr (list_int [10, 20]) (int_value 4294967296) = Inr (int_value 10)) \<and>
   (bin_subscr_set resolve (list_int [10, 20]) (int_value 4294967296) none_value =
     Inr (list_value [none_value, int_value 20]))"
  by (intro conjI) (simp_all add: bin_subscr_def bin_subscr_set_def list_int_def as_i32_def must_normalize_index_def
      list_set_value_def must_as_strict_int_def value_len_def list_must_set_def on_list_def
      is_list_def is_int_def)

end
