(* ===== verification/Value_Bin_Aug.thy ===== *)
theory Value_Bin_Aug
  imports Value_Bin
begin

text \<open>
  Augmented assignments (\<open>crates/runtime/src/value/val_bin_aug.rs\<close>) and the config
  insertions built on the union (\<open>val_dict.rs\<close>: \<open>dict_insert\<close>, \<open>dict_merge\<close>,
  \<open>dict_insert_unpack\<close>). An augmented assignment returns the new value of its left
  operand, whose kind it keeps.
\<close>

section \<open>Arithmetic\<close>

definition bin_aug_add :: "context_config \<Rightarrow> val \<Rightarrow> val \<Rightarrow> val res" where
  "bin_aug_add cfg v x = (case v of
     int_value a \<Rightarrow> (case x of
         int_value b \<Rightarrow> range_checked cfg
           (is_i32_overflow_add a b) (I32Overflow (sint a + sint b))
           (is_i64_overflow_add a b) (I64Overflow (sint a + sint b)) (int_value (a + b))
       | float_value b \<Rightarrow> f32_checked True (is_f32_overflow_add (f64_of_i64 a) b)
           (f64_add (f64_of_i64 a) b) (int_value (a + f64_to_i64 b))
       | _ \<Rightarrow> Inl (UnsupportedBinOp ''+'' v x))
   | float_value a \<Rightarrow> (case x of
         float_value b \<Rightarrow> f32_checked (strict_range_check_32 cfg) (is_f32_overflow_add a b)
           (f64_add a b) (float_value (f64_add a b))
       | int_value b \<Rightarrow> f32_checked True (is_f32_overflow_add a (f64_of_i64 b))
           (f64_add a (f64_of_i64 b)) (float_value (f64_add a (f64_of_i64 b)))
       | _ \<Rightarrow> Inl (UnsupportedBinOp ''+'' v x))
   | str_value a \<Rightarrow> (case x of
         str_value b \<Rightarrow> Inr (str_value (a @ b))
       | _ \<Rightarrow> Inl (UnsupportedBinOp ''+'' v x))
   | list_value a \<Rightarrow> (case x of
         list_value b \<Rightarrow> Inr (list_value (a @ b))
       | _ \<Rightarrow> Inl (UnsupportedBinOp ''+'' v x))
   | _ \<Rightarrow> Inl (UnsupportedBinOp ''+'' v x))"

definition bin_aug_sub :: "context_config \<Rightarrow> val \<Rightarrow> val \<Rightarrow> val res" where
  "bin_aug_sub cfg v x = (case v of
     int_value a \<Rightarrow> (case x of
         int_value b \<Rightarrow> range_checked cfg
           (is_i32_overflow_sub a b) (I32Overflow (sint a - sint b))
           (is_i64_overflow_sub a b) (I32Overflow (sint a - sint b)) (int_value (a - b))
       | float_value b \<Rightarrow> f32_checked (strict_range_check_32 cfg) (is_f32_overflow_sub (f64_of_i64 a) b)
           (f64_sub (f64_of_i64 a) b) (int_value (a - f64_to_i64 b))
       | _ \<Rightarrow> Inl (UnsupportedBinOp ''-'' v x))
   | float_value a \<Rightarrow> (case x of
         float_value b \<Rightarrow> f32_checked (strict_range_check_32 cfg) (is_f32_overflow_sub a b)
           (f64_sub a b) (float_value (f64_sub a b))
       | int_value b \<Rightarrow> f32_checked (strict_range_check_32 cfg) (is_f32_overflow_sub a (f64_of_i64 b))
           (f64_sub a (f64_of_i64 b)) (float_value (f64_sub a (f64_of_i64 b)))
       | _ \<Rightarrow> Inl (UnsupportedBinOp ''-'' v x))
   | _ \<Rightarrow> Inl (UnsupportedBinOp ''-'' v x))"

text \<open>The list is repeated in place by a loop over \<open>1..n\<close>: it stays as it is for \<open>n = 0\<close>
  too.\<close>

definition bin_aug_mul :: "context_config \<Rightarrow> val \<Rightarrow> val \<Rightarrow> val res" where
  "bin_aug_mul cfg v x = (case v of
     int_value a \<Rightarrow> (case x of
         int_value b \<Rightarrow> range_checked cfg
           (is_i32_overflow_mul a b) (I32Overflow (sint a * sint b))
           (is_i64_overflow_mul a b) (I64Overflow (sint a * sint b)) (int_value (a * b))
       | float_value b \<Rightarrow> f32_checked (strict_range_check_32 cfg) (is_f32_overflow_mul (f64_of_i64 a) b)
           (f64_mul (f64_of_i64 a) b) (int_value (a * f64_to_i64 b))
       | _ \<Rightarrow> Inl (UnsupportedBinOp ''*'' v x))
   | float_value a \<Rightarrow> (case x of
         float_value b \<Rightarrow> f32_checked (strict_range_check_32 cfg) (is_f32_overflow_mul a b)
           (f64_mul a b) (float_value (f64_mul a b))
       | int_value b \<Rightarrow> f32_checked (strict_range_check_32 cfg) (is_f32_overflow_mul a (f64_of_i64 b))
           (f64_mul a (f64_of_i64 b)) (float_value (f64_mul a (f64_of_i64 b)))
       | _ \<Rightarrow> Inl (UnsupportedBinOp ''*'' v x))
   | str_value s \<Rightarrow> (case x of
         int_value b \<Rightarrow> (case str_repeat s (as_usize b) of Inl e \<Rightarrow> Inl e | Inr t \<Rightarrow> Inr (str_value t))
       | _ \<Rightarrow> Inl (UnsupportedBinOp ''*'' v x))
   | list_value vs \<Rightarrow> (case x of
         int_value b \<Rightarrow> Inr (list_value (vs @ concat (replicate (as_usize b - 1) vs)))
       | _ \<Rightarrow> Inl (UnsupportedBinOp ''*'' v x))
   | _ \<Rightarrow> Inl (UnsupportedBinOp ''*'' v x))"

definition int_div :: "i64 \<Rightarrow> i64 \<Rightarrow> val res" where
  "int_div a b = (case rust_div a b of Inl e \<Rightarrow> Inl (RustPanic e) | Inr q \<Rightarrow> Inr (int_value q))"

definition bin_aug_div :: "val \<Rightarrow> val \<Rightarrow> val res" where
  "bin_aug_div v x = (case v of
     int_value a \<Rightarrow> (case x of
         int_value b \<Rightarrow> int_div a b
       | float_value b \<Rightarrow> int_div a (f64_to_i64 b)
       | _ \<Rightarrow> Inl (UnsupportedBinOp ''/'' v x))
   | float_value a \<Rightarrow> (case x of
         int_value b \<Rightarrow> Inr (float_value (f64_div a (f64_of_i64 b)))
       | float_value b \<Rightarrow> Inr (float_value (f64_div a b))
       | _ \<Rightarrow> Inl (UnsupportedBinOp ''/'' v x))
   | _ \<Rightarrow> Inl (UnsupportedBinOp ''/'' v x))"

definition bin_aug_mod :: "val \<Rightarrow> val \<Rightarrow> val res" where
  "bin_aug_mod v x = (case v of
     int_value a \<Rightarrow> (case x of
         int_value b \<Rightarrow> (case int_mod a b of Inl e \<Rightarrow> Inl e | Inr r \<Rightarrow> Inr (int_value r))
       | float_value b \<Rightarrow> (case rust_rem a (f64_to_i64 b) of
           Inl e \<Rightarrow> Inl (RustPanic e) | Inr r \<Rightarrow> Inr (int_value r))
       | _ \<Rightarrow> Inl (UnsupportedBinOp ''%'' v x))
   | float_value a \<Rightarrow> (case x of
         int_value b \<Rightarrow> Inr (float_value (f64_rem a (f64_of_i64 b)))
       | float_value b \<Rightarrow> Inr (float_value (f64_rem a b))
       | _ \<Rightarrow> Inl (UnsupportedBinOp ''%'' v x))
   | _ \<Rightarrow> Inl (UnsupportedBinOp ''%'' v x))"

definition bin_aug_pow :: "(f64 \<Rightarrow> f64 \<Rightarrow> f64) \<Rightarrow> context_config \<Rightarrow> val \<Rightarrow> val \<Rightarrow> val res" where
  "bin_aug_pow powf cfg v x = (case v of
     int_value a \<Rightarrow> (case x of
         int_value b \<Rightarrow> range_checked cfg
           (is_i32_overflow_pow a b) (I32Overflow (pow_i128 a b))
           (is_i64_overflow_pow a b) (I64Overflow (pow_i128 a b)) (int_value (a ^ unat (as_i32 b)))
       | float_value b \<Rightarrow> f32_checked (strict_range_check_32 cfg) (is_f32_overflow_pow powf (f64_of_i64 a) b)
           (powf (f64_of_i64 a) b) (int_value (a ^ unat (f64_to_u32 b)))
       | _ \<Rightarrow> Inl (UnsupportedBinOp ''**'' v x))
   | float_value a \<Rightarrow> (case x of
         float_value b \<Rightarrow> f32_checked (strict_range_check_32 cfg) (is_f32_overflow_pow powf a b)
           (powf a b) (float_value (powf a b))
       | int_value b \<Rightarrow> f32_checked (strict_range_check_32 cfg) (is_f32_overflow_pow powf a (f64_of_i64 b))
           (powf a (f64_of_i64 b)) (float_value (powf a (f64_of_i64 b)))
       | _ \<Rightarrow> Inl (UnsupportedBinOp ''**'' v x))
   | _ \<Rightarrow> Inl (UnsupportedBinOp ''**'' v x))"

definition bin_aug_floor_div :: "val \<Rightarrow> val \<Rightarrow> val res" where
  "bin_aug_floor_div v x = (case v of
     int_value a \<Rightarrow> (case x of
         int_value b \<Rightarrow> (case int_floor_div a b of Inl e \<Rightarrow> Inl e | Inr q \<Rightarrow> Inr (int_value q))
       | float_value b \<Rightarrow> Inr (int_value (f64_to_i64 (f64_div (f64_of_i64 a) b)))
       | _ \<Rightarrow> Inl (UnsupportedBinOp ''//'' v x))
   | float_value a \<Rightarrow> (case x of
         int_value b \<Rightarrow> Inr (float_value (f64_div a (f64_of_i64 b)))
       | float_value b \<Rightarrow> Inr (float_value (f64_div a b))
       | _ \<Rightarrow> Inl (UnsupportedBinOp ''//'' v x))
   | _ \<Rightarrow> Inl (UnsupportedBinOp ''//'' v x))"

section \<open>Bits\<close>

definition bin_aug_bit_lshift :: "context_config \<Rightarrow> val \<Rightarrow> val \<Rightarrow> val res" where
  "bin_aug_bit_lshift cfg v x = (case (v, x) of
     (int_value a, int_value b) \<Rightarrow> range_checked cfg
       (is_i32_overflow_shl a b) (I32Overflow (shl_i128 a b))
       (is_i64_overflow_shl a b) (I64Overflow (shl_i128 a b)) (int_value (rust_shl a b))
   | _ \<Rightarrow> Inl (UnsupportedBinOp ''<<'' v x))"

definition bin_aug_bit_rshift :: "context_config \<Rightarrow> val \<Rightarrow> val \<Rightarrow> val res" where
  "bin_aug_bit_rshift cfg v x = (case (v, x) of
     (int_value a, int_value b) \<Rightarrow> range_checked cfg
       (is_i32_overflow_shr a b) (I32Overflow (shr_i128 a b))
       (is_i64_overflow_shr a b) (I64Overflow (shr_i128 a b)) (int_value (rust_shr a b))
   | _ \<Rightarrow> Inl (UnsupportedBinOp ''>>'' v x))"

text \<open>The error of \<open>&=\<close> names the operator \<open>^\<close>.\<close>

definition bin_aug_bit_and :: "val \<Rightarrow> val \<Rightarrow> val res" where
  "bin_aug_bit_and v x = (case (v, x) of
     (int_value a, int_value b) \<Rightarrow> Inr (int_value (a AND b))
   | _ \<Rightarrow> Inl (UnsupportedBinOp ''^'' v x))"

definition bin_aug_bit_xor :: "val \<Rightarrow> val \<Rightarrow> val res" where
  "bin_aug_bit_xor v x = (case (v, x) of
     (int_value a, int_value b) \<Rightarrow> Inr (int_value (a XOR b))
   | _ \<Rightarrow> Inl (UnsupportedBinOp ''^'' v x))"

definition bin_aug_bit_or :: "resolver \<Rightarrow> val \<Rightarrow> val \<Rightarrow> val res" where
  "bin_aug_bit_or resolve v x = (case (v, x) of
     (int_value a, int_value b) \<Rightarrow> Inr (int_value (a OR b))
   | _ \<Rightarrow> if is_list_or_config v \<or> is_list_or_config x
          then union_entry resolve default_union_options True v x
          else Inl (UnsupportedBinOp ''|'' v x))"

definition bin_aug_union_with :: "resolver \<Rightarrow> val \<Rightarrow> val \<Rightarrow> val res" where
  "bin_aug_union_with resolve v x = bin_aug_bit_or resolve v x"

section \<open>Insertion into a config\<close>

definition dict_merge_key_value_pair ::
  "resolver \<Rightarrow> context_config \<Rightarrow> val \<Rightarrow> string \<Rightarrow> val \<Rightarrow> config_entry_op \<Rightarrow> i32 option \<Rightarrow> bool \<Rightarrow> val res" where
  "dict_merge_key_value_pair resolve cfg p key v op insert_index check =
     (case (if debug_mode cfg then (case v of
              int_value x \<Rightarrow>
                if strict_range_check cfg
                then (if sint x \<noteq> sint (as_i32 x) then Some (I32Overflow (sint x)) else None)
                else None
            | _ \<Rightarrow> None) else None) of
        Some e \<Rightarrow> Inl e
      | None \<Rightarrow>
          if is_config p
          then union_entry resolve
                 \<lparr>list_override = False, idempotent_check = check, config_resolve = False\<rparr> True p
                 (dict_value (DictValue [(key, v)] [(key, op)]
                    (case insert_index of Some i \<Rightarrow> [(key, i)] | None \<Rightarrow> []) [] None None))
          else Inl (InvalidConfig ''invalid dict insert value''))"

definition dict_insert ::
  "resolver \<Rightarrow> context_config \<Rightarrow> val \<Rightarrow> string \<Rightarrow> val \<Rightarrow> config_entry_op \<Rightarrow> i32 option \<Rightarrow> val res" where
  "dict_insert resolve cfg p key v op insert_index =
     dict_merge_key_value_pair resolve cfg p key v op insert_index True"

definition dict_merge ::
  "resolver \<Rightarrow> context_config \<Rightarrow> val \<Rightarrow> string \<Rightarrow> val \<Rightarrow> config_entry_op \<Rightarrow> i32 option \<Rightarrow> val res" where
  "dict_merge resolve cfg p key v op insert_index =
     dict_merge_key_value_pair resolve cfg p key v op insert_index False"

definition dict_insert_unpack :: "resolver \<Rightarrow> val \<Rightarrow> val \<Rightarrow> val res" where
  "dict_insert_unpack resolve p v =
     (if is_config p \<and> is_config v
      then (case schema_to_dict v of
              Inl e \<Rightarrow> Inl e
            | Inr d \<Rightarrow> bin_aug_bit_or resolve p (deep_copy d))
      else if is_config p \<and> is_none_or_undefined v then Inr p
      else Inl (UnpackOperand v))"

section \<open>Properties\<close>

lemmas aug_defs = bin_aug_add_def bin_aug_sub_def bin_aug_mul_def bin_aug_div_def bin_aug_mod_def
  bin_aug_pow_def bin_aug_floor_div_def

lemmas checked_result_defs = range_checked_def f32_checked_def int_div_def

lemma checked_Inr:
  "range_checked cfg o32 p32 o64 p64 u = Inr w \<Longrightarrow> w = u"
  "f32_checked c ovf shown u = Inr w \<Longrightarrow> w = u"
  "int_div a b = Inr w \<Longrightarrow> kind w = KInt"
  by (auto simp: range_checked_def f32_checked_def int_div_def split: if_splits sum.splits)

lemma aug_kind:
  "bin_aug_add cfg v x = Inr w \<Longrightarrow> kind w = kind v"
  "bin_aug_sub cfg v x = Inr w \<Longrightarrow> kind w = kind v"
  "bin_aug_mul cfg v x = Inr w \<Longrightarrow> kind w = kind v"
  "bin_aug_div v x = Inr w \<Longrightarrow> kind w = kind v"
  "bin_aug_mod v x = Inr w \<Longrightarrow> kind w = kind v"
  "bin_aug_pow powf cfg v x = Inr w \<Longrightarrow> kind w = kind v"
  "bin_aug_floor_div v x = Inr w \<Longrightarrow> kind w = kind v"
  by (auto simp: aug_defs split: val.splits sum.splits dest!: checked_Inr)





text \<open>Where they differ: \<open>x += 1.5\<close> adds 1 to an integer, \<open>7 /= 2\<close> is 3 while \<open>7 / 2\<close> is
  3.5, \<open>//=\<close> on floats does not round down, and \<open>*= 0\<close> keeps the list that \<open>* 0\<close>
  empties.\<close>

theorem aug_differs_from_operator:
  "bin_aug_add cfg (int_value 1) (float_value (Fin False 3 (- 1))) = Inr (int_value 2) \<and>
   bin_add cfg (int_value 1) (float_value (Fin False 3 (- 1))) = Inr (float_value (Fin False (5 * 2 ^ 50) (- 51))) \<and>
   bin_aug_div (int_value 7) (int_value 2) = Inr (int_value 3) \<and>
   bin_div (int_value 7) (int_value 2) = Inr (float_value (Fin False (7 * 2 ^ 50) (- 51))) \<and>
   bin_aug_floor_div (float_value (f64_of_i64 7)) (int_value 2) = Inr (float_value (Fin False (7 * 2 ^ 50) (- 51))) \<and>
   bin_floor_div (float_value (f64_of_i64 7)) (int_value 2) = Inr (float_value (Fin False (3 * 2 ^ 51) (- 51))) \<and>
   bin_aug_mul cfg (list_value [none_value]) (int_value 0) = Inr (list_value [none_value]) \<and>
   bin_mul cfg (list_value [none_value]) (int_value 0) = Inr (list_value [])"
  by (intro conjI)
    (simp_all add: aug_defs bin_add_def bin_div_def bin_floor_div_def bin_mul_def checked_result_defs
      is_f32_overflow_add_def is_f32_overflow2_def is_f32_overflow_def f32_max_def f32_min_def
      rust_div_def is_number_def as_num_def list_repeat_def as_usize_def f64_eval)

section \<open>Insertions\<close>

lemma union_new_entry:
  assumes "im_get (dv_values d) key = None" and "\<not> conflict uc"
  shows "union_value r opts True (dict_value d) (dict_value (DictValue [(key, v)] [(key, op)] [] [] None None)) uc =
    Inr (dict_value (DictValue (dv_values d @ [(key, v)]) (im_insert (dv_ops d) key op) (dv_insert_indexs d)
      (dv_attr_map d) None (dv_schema_args d)), uc)"
  using assms
  by (simp add: union_value.simps do_union.simps union_entries.simps is_none_or_undefined_def
      is_list_or_config_def im_contains_def merge_meta_def set_values_def set_insert_indexs_def
      set_ops_def set_potential_schema_def im_insert_new im_get_None_iff)

text \<open>Inserting an attribute a dict does not have appends it, records its operation and
  leaves the other attributes alone.\<close>

theorem dict_insert_new:
  assumes "\<not> debug_mode cfg" and "im_get (dv_values d) key = None"
  shows "\<exists>d'. dict_insert r cfg (dict_value d) key v op None = Inr (dict_value d') \<and>
    dv_values d' = dv_values d @ [(key, v)] \<and> im_get (dv_ops d') = (im_get (dv_ops d))(key \<mapsto> op)"
  using assms union_new_entry [OF assms(2), of default_union_context]
  by (simp add: dict_insert_def dict_merge_key_value_pair_def union_entry_def is_config_def
      default_union_context_def im_get_insert)

theorem dict_insert_new_witness:
  "\<exists>d'. dict_insert (\<lambda>s ks. Inr s) \<lparr>debug_mode = False, strict_range_check = True, disable_schema_check = False\<rparr>
      (dict_value (DictValue [] [] [] [] None None)) ''a'' (int_value 1) Override None = Inr (dict_value d') \<and>
    dv_values d' = [] @ [(''a'', int_value 1)] \<and> im_get (dv_ops d') = (im_get [])(''a'' \<mapsto> Override)"
  using dict_insert_new [of "\<lparr>debug_mode = False, strict_range_check = True, disable_schema_check = False\<rparr>"
      "DictValue [] [] [] [] None None" "''a''" "\<lambda>s ks. Inr s" "int_value 1" Override]
  by simp

text \<open>Inserting a different number for an attribute that has one is a conflict under
  \<open>:\<close>, naming the attribute and both numbers; \<open>dict_merge\<close>, without the check, and the
  operation \<open>=\<close> replace it.\<close>

theorem dict_insert_conflict:
  assumes "\<not> debug_mode cfg" and "im_get (dv_values d) key = Some (int_value a)" and "a \<noteq> b" and "key \<noteq> []"
  shows "dict_insert r cfg (dict_value d) key (int_value b) Union None =
      Inl (ConflictingValues key (JsonRepr (int_value a)) (JsonRepr (int_value b)) [key]) \<and>
    (\<exists>d'. dict_merge r cfg (dict_value d) key (int_value b) Union None = Inr (dict_value d') \<and>
      dv_values d' = im_insert (dv_values d) key (int_value b)) \<and>
    (\<exists>d'. dict_insert r cfg (dict_value d) key (int_value b) Override None = Inr (dict_value d') \<and>
      dv_values d' = im_insert (dv_values d) key (int_value b))"
  using assms
  by (simp add: dict_insert_def dict_merge_def dict_merge_key_value_pair_def union_entry_def is_config_def
      union_value.simps do_union.simps union_entries.simps type_test_defs im_contains_def merge_meta_def
      entry_op_def union_target_def value_subsume.simps as_int_def default_union_context_def
      record_conflict_def push_path_def conflict_label_def repr_of_def store_union_def override_entry_def Let_def)

theorem dict_insert_conflict_witness:
  "dict_insert (\<lambda>s ks. Inr s) \<lparr>debug_mode = False, strict_range_check = False, disable_schema_check = False\<rparr>
     (dict_value (DictValue [(''a'', int_value 1)] [] [] [] None None)) ''a'' (int_value 2) Union None =
      Inl (ConflictingValues ''a'' (JsonRepr (int_value 1)) (JsonRepr (int_value 2)) [''a''])"
  using dict_insert_conflict [of "\<lparr>debug_mode = False, strict_range_check = False, disable_schema_check = False\<rparr>"
      "DictValue [(''a'', int_value 1)] [] [] [] None None" "''a''" 1 2 "\<lambda>s ks. Inr s"]
  by simp

end
