(* ===== verification/Lexer.thy ===== *)
theory Lexer
  imports Prelude "HOL-Library.Sublist"
begin

text \<open>
  The low-level token stream lexer, \<open>src/crates/lexer/src\<close>: the peekable
  cursor (\<open>cursor.rs\<close>), numeric literals (\<open>number.rs\<close>), comments,
  strings and identifiers (\<open>kcl_cursor.rs\<close>) and the token function with its
  iterator (\<open>lib.rs\<close>).  A Rust \<open>char\<close> is its Unicode scalar value, a
  natural number; lengths are counted in UTF-8 bytes, as \<open>str::len\<close> does.
  The character classes of the crates \<open>rustc_lexer\<close> and
  \<open>unic_emoji_char\<close> are the parameter \<open>classes\<close>.  The theory proves that
  the scanners only move forward, that every token makes progress, so that the
  iterator ends, and that the tokens tile the input.
\<close>

named_theorems scan_simps \<open>how the scanners move the cursor\<close>

section \<open>Characters\<close>

type_synonym rchar = nat

abbreviation ch :: "char \<Rightarrow> rchar" where
  "ch c \<equiv> of_char c"

text \<open>\<open>char::len_utf8\<close>, \<open>str::len\<close> and \<open>char::is_ascii\<close>.\<close>

definition len_utf8 :: "rchar \<Rightarrow> nat" where
  "len_utf8 c =
     (if c < 0x80 then 1 else if c < 0x800 then 2 else if c < 0x10000 then 3 else 4)"

definition bytes_len :: "rchar list \<Rightarrow> nat" where
  "bytes_len cs = sum_list (map len_utf8 cs)"

definition is_ascii :: "rchar \<Rightarrow> bool" where
  "is_ascii c \<longleftrightarrow> c < 128"

definition is_ascii_digit :: "rchar \<Rightarrow> bool" where
  "is_ascii_digit c \<longleftrightarrow> ch CHR ''0'' \<le> c \<and> c \<le> ch CHR ''9''"

text \<open>The character classes that third-party crates provide.\<close>

record classes =
  is_id_start :: "rchar \<Rightarrow> bool"
  is_id_continue :: "rchar \<Rightarrow> bool"
  is_emoji :: "rchar \<Rightarrow> bool"

section \<open>Tokens\<close>

datatype doc_style = Outer | Inner

datatype base = Binary | Octal | Hexadecimal | Decimal

datatype literal_kind =
    Int_kind (int_base: base) (int_empty: bool)
  | Float_kind (float_base: base) (float_empty_exponent: bool)
  | Str_kind (str_terminated: bool) (str_triple_quoted: bool)
  | Bool_kind (bool_terminated: bool)

datatype (plugins only: code size) token_kind =
    LineComment "doc_style option"
  | BlockComment "doc_style option" bool
  | Tab | Space | CarriageReturn | Newline | Whitespace
  | Ident | InvalidIdent | InvalidLineContinue | LineContinue
  | Literal literal_kind nat
  | Semi | Comma | Dot | DotDot | DotDotDot
  | OpenParen | CloseParen | OpenBrace | CloseBrace | OpenBracket | CloseBracket
  | At | Pound | Tilde | Question | Colon | Dollar
  | Eq | Bang | Lt | Gt | EqEq | BangEq | GtEq | LtEq
  | Minus | And | Or | Plus | Star | Slash | Caret | Percent
  | StarStar | SlashSlash | LtLt | GtGt
  | PlusEq | MinusEq | StarEq | SlashEq | PercentEq | AndEq | OrEq | CaretEq
  | StarStarEq | SlashSlashEq | LtLtEq | GtGtEq
  | Unknown

record token =
  kind :: token_kind
  len :: nat

fun describe :: "base \<Rightarrow> string" where
  "describe Binary = ''binary''"
| "describe Octal = ''octal''"
| "describe Hexadecimal = ''hexadecimal''"
| "describe Decimal = ''decimal''"

section \<open>The cursor\<close>

record cursor =
  initial_len :: nat
  char_iter :: "rchar list"

abbreviation (input) EOF_CHAR :: rchar where
  "EOF_CHAR \<equiv> 0"

abbreviation DOLLAR_CHAR :: rchar where
  "DOLLAR_CHAR \<equiv> ch CHR ''$''"

definition new_cursor :: "rchar list \<Rightarrow> cursor" where
  "new_cursor input = \<lparr>initial_len = bytes_len input, char_iter = input\<rparr>"

definition peek :: "cursor \<Rightarrow> rchar" where
  "peek s = (case char_iter s of [] \<Rightarrow> EOF_CHAR | c # _ \<Rightarrow> c)"

definition peek1th :: "cursor \<Rightarrow> rchar" where
  "peek1th s = (case char_iter s of _ # c # _ \<Rightarrow> c | _ \<Rightarrow> EOF_CHAR)"

definition is_eof :: "cursor \<Rightarrow> bool" where
  "is_eof s \<longleftrightarrow> char_iter s = []"

definition len_consumed :: "cursor \<Rightarrow> nat" where
  "len_consumed s = initial_len s - bytes_len (char_iter s)"

definition reset_len_consumed :: "cursor \<Rightarrow> cursor" where
  "reset_len_consumed s = s\<lparr>initial_len := bytes_len (char_iter s)\<rparr>"

definition bump :: "cursor \<Rightarrow> rchar option \<times> cursor" where
  "bump s = (case char_iter s of
       [] \<Rightarrow> (None, s)
     | c # cs \<Rightarrow> (Some c, s\<lparr>char_iter := cs\<rparr>))"

text \<open>A call of \<open>bump\<close> whose result is discarded.\<close>

abbreviation advance :: "cursor \<Rightarrow> cursor" where
  "advance s \<equiv> snd (bump s)"

lemma char_iter_bump [scan_simps]: "char_iter (advance s) = tl (char_iter s)"
  by (simp add: bump_def split: list.split)

lemma initial_len_bump [scan_simps]: "initial_len (advance s) = initial_len s"
  by (simp add: bump_def split: list.split)

lemma fst_bump [scan_simps]:
  "fst (bump s) = (case char_iter s of [] \<Rightarrow> None | c # _ \<Rightarrow> Some c)"
  by (simp add: bump_def split: list.split)

lemma advance_progress: "\<not> is_eof s \<Longrightarrow> length (char_iter (advance s)) < length (char_iter s)"
  by (cases "char_iter s") (simp_all add: is_eof_def scan_simps)

lemma peek_nonzero_progress:
  "peek s \<noteq> EOF_CHAR \<Longrightarrow> length (char_iter (advance s)) < length (char_iter s)"
  by (cases "char_iter s") (simp_all add: peek_def scan_simps)

function eat_while :: "(rchar \<Rightarrow> bool) \<Rightarrow> cursor \<Rightarrow> cursor" where
  "eat_while predicate s =
     (if predicate (peek s) \<and> \<not> is_eof s then eat_while predicate (advance s) else s)"
  by pat_completeness auto
termination
  by (relation "measure (\<lambda>(_, s). length (char_iter s))") (auto dest: advance_progress)

declare eat_while.simps [simp del]

section \<open>Numbers\<close>

text \<open>The ranges of the match arms.\<close>

definition is_hex_digit :: "rchar \<Rightarrow> bool" where
  "is_hex_digit c \<longleftrightarrow> is_ascii_digit c
     \<or> ch CHR ''a'' \<le> c \<and> c \<le> ch CHR ''f''
     \<or> ch CHR ''A'' \<le> c \<and> c \<le> ch CHR ''F''"

lemma digit_nonzero [simp]:
  "\<not> is_ascii_digit EOF_CHAR" "\<not> is_hex_digit EOF_CHAR" "EOF_CHAR \<noteq> ch CHR ''_''"
  by (simp_all add: is_ascii_digit_def is_hex_digit_def)

lemma digit_progress:
  assumes "peek s = ch CHR ''_'' \<or> is_ascii_digit (peek s) \<or> is_hex_digit (peek s)"
  shows "length (char_iter (advance s)) < length (char_iter s)"
proof (rule peek_nonzero_progress)
  show "peek s \<noteq> EOF_CHAR"
    using assms by (metis digit_nonzero)
qed

function decimal_digits_loop :: "bool \<Rightarrow> cursor \<Rightarrow> bool \<times> cursor" where
  "decimal_digits_loop has_digits s =
     (if peek s = ch CHR ''_'' then decimal_digits_loop has_digits (advance s)
      else if is_ascii_digit (peek s) then decimal_digits_loop True (advance s)
      else (has_digits, s))"
  by pat_completeness auto
termination
  by (relation "measure (\<lambda>(_, s). length (char_iter s))")
    (simp_all add: digit_progress)

definition eat_decimal_digits :: "cursor \<Rightarrow> bool \<times> cursor" where
  "eat_decimal_digits s = decimal_digits_loop False s"

function hexadecimal_digits_loop :: "bool \<Rightarrow> cursor \<Rightarrow> bool \<times> cursor" where
  "hexadecimal_digits_loop has_digits s =
     (if peek s = ch CHR ''_'' then hexadecimal_digits_loop has_digits (advance s)
      else if is_hex_digit (peek s) then hexadecimal_digits_loop True (advance s)
      else (has_digits, s))"
  by pat_completeness auto
termination
  by (relation "measure (\<lambda>(_, s). length (char_iter s))")
    (simp_all add: digit_progress)

definition eat_hexadecimal_digits :: "cursor \<Rightarrow> bool \<times> cursor" where
  "eat_hexadecimal_digits s = hexadecimal_digits_loop False s"

declare decimal_digits_loop.simps [simp del] hexadecimal_digits_loop.simps [simp del]

definition eat_float_exponent :: "cursor \<Rightarrow> bool \<times> cursor" where
  "eat_float_exponent s =
     eat_decimal_digits
       (if peek s = ch CHR ''-'' \<or> peek s = ch CHR ''+'' then advance s else s)"

text \<open>The second match of \<open>number\<close>: what follows the digits.\<close>

definition number_tail :: "classes \<Rightarrow> base \<Rightarrow> cursor \<Rightarrow> literal_kind \<times> cursor" where
  "number_tail u bs s =
     (if peek s = ch CHR ''.'' \<and> peek1th s \<noteq> ch CHR ''.'' \<and> \<not> is_id_start u (peek1th s) then
        (let s = advance s in
         if is_ascii_digit (peek s) then
           (let s = snd (eat_decimal_digits s) in
            if peek s = ch CHR ''e'' \<or> peek s = ch CHR ''E'' then
              (let (ok, s) = eat_float_exponent (advance s) in (Float_kind bs (\<not> ok), s))
            else (Float_kind bs False, s))
         else (Float_kind bs False, s))
      else if peek s = ch CHR ''e'' \<or> peek s = ch CHR ''E'' then
        (let (ok, s) = eat_float_exponent (advance s) in (Float_kind bs (\<not> ok), s))
      else (Int_kind bs False, s))"

definition number :: "classes \<Rightarrow> rchar \<Rightarrow> cursor \<Rightarrow> literal_kind \<times> cursor" where
  "number u first_digit s =
     (if first_digit = ch CHR ''0'' then
        (let c = peek s in
         if c = ch CHR ''b'' then
           (let (has_digits, s) = eat_decimal_digits (advance s) in
            if \<not> has_digits then (Int_kind Binary True, s) else number_tail u Binary s)
         else if c = ch CHR ''o'' \<or> is_ascii_digit c then
           (let (has_digits, s) = eat_decimal_digits (advance s) in
            if \<not> has_digits then (Int_kind Octal True, s) else number_tail u Octal s)
         else if c = ch CHR ''x'' then
           (let (has_digits, s) = eat_hexadecimal_digits (advance s) in
            if \<not> has_digits then (Int_kind Hexadecimal True, s) else number_tail u Hexadecimal s)
         else if c = ch CHR ''_'' \<or> c = ch CHR ''.'' \<or> c = ch CHR ''e'' \<or> c = ch CHR ''E'' then
           number_tail u Decimal (snd (eat_decimal_digits s))
         else (Int_kind Decimal False, s))
      else number_tail u Decimal (snd (eat_decimal_digits s)))"

section \<open>Comments, strings and identifiers\<close>

definition try_comment_magic :: "rchar \<Rightarrow> bool" where
  "try_comment_magic c \<longleftrightarrow> c = ch CHR ''#''"

definition eat_comment :: "cursor \<Rightarrow> token_kind \<times> cursor" where
  "eat_comment s = (LineComment (Some Inner), eat_while (\<lambda>c. c \<noteq> ch CHR 0x0A) s)"

definition is_quote :: "rchar \<Rightarrow> bool" where
  "is_quote c \<longleftrightarrow> c = ch CHR 0x27 \<or> c = ch CHR 0x22"

definition is_raw_prefix :: "rchar \<Rightarrow> bool" where
  "is_raw_prefix c \<longleftrightarrow> c = ch CHR ''r'' \<or> c = ch CHR ''R''"

definition try_string_magic :: "cursor \<Rightarrow> rchar \<Rightarrow> bool" where
  "try_string_magic s c =
     (if is_raw_prefix c then is_quote (peek s) else is_quote c)"

text \<open>The three values \<open>eat_quoted_string\<close> returns.\<close>

definition str_literal :: "bool \<Rightarrow> bool \<Rightarrow> cursor \<Rightarrow> token_kind \<times> cursor" where
  "str_literal terminated triple s =
     (Literal (Str_kind terminated triple) (len_consumed s), s)"

function quoted_string_loop :: "rchar \<Rightarrow> bool \<Rightarrow> cursor \<Rightarrow> token_kind \<times> cursor" where
  "quoted_string_loop quote triple s =
     (case fst (bump s) of
        None \<Rightarrow> str_literal False False s
      | Some c \<Rightarrow>
          (let s' = advance s in
           if c = ch CHR 0x5C \<and> (peek s' = ch CHR 0x5C \<or> peek s' = quote) then
             quoted_string_loop quote triple (advance s')
           else if c = quote then
             (if triple then
                (if quote = peek s' \<and> quote = peek1th s'
                 then str_literal True True (advance (advance s'))
                 else quoted_string_loop quote triple s')
              else str_literal True False s')
           else if \<not> triple \<and> (peek s' = ch CHR 0x0D \<or> peek s' = ch CHR 0x0A \<or> peek s' = EOF_CHAR)
           then str_literal False False s'
           else quoted_string_loop quote triple s'))"
  by pat_completeness auto
termination
  by (relation "measure (\<lambda>(_, _, s). length (char_iter s))")
    (auto simp: scan_simps split: list.splits)

declare quoted_string_loop.simps [simp del]

definition eat_quoted_string :: "rchar \<Rightarrow> cursor \<Rightarrow> token_kind \<times> cursor" where
  "eat_quoted_string quote s =
     (if quote = peek s \<and> quote = peek1th s
      then quoted_string_loop quote True (advance (advance s))
      else quoted_string_loop quote False s)"

definition eat_string :: "rchar \<Rightarrow> cursor \<Rightarrow> token_kind \<times> cursor" where
  "eat_string c s =
     (if is_raw_prefix c then
        (if is_quote (peek s) then
           eat_quoted_string (case fst (bump s) of Some q \<Rightarrow> q | None \<Rightarrow> EOF_CHAR) (advance s)
         else (Unknown, s))
      else if is_quote c then eat_quoted_string c s
      else (Unknown, s))"

definition fake_ident_or_unknown_prefix :: "classes \<Rightarrow> cursor \<Rightarrow> token_kind \<times> cursor" where
  "fake_ident_or_unknown_prefix u s =
     (InvalidIdent,
      eat_while (\<lambda>c. is_id_continue u c \<or> (\<not> is_ascii c \<and> is_emoji u c) \<or> c = 0x200D) s)"

definition try_ident_magic :: "classes \<Rightarrow> cursor \<Rightarrow> rchar \<Rightarrow> bool" where
  "try_ident_magic u s c =
     (if c = DOLLAR_CHAR then is_id_start u (peek s) else is_id_start u c)"

definition eat_ident :: "classes \<Rightarrow> cursor \<Rightarrow> token_kind \<times> cursor" where
  "eat_ident u s =
     (let s = eat_while (is_id_continue u) s in
      if \<not> is_ascii (peek s) \<and> is_emoji u (peek s) then fake_ident_or_unknown_prefix u s
      else (Ident, s))"

section \<open>Tokens of the input\<close>

definition is_whitespace :: "rchar \<Rightarrow> bool" where
  "is_whitespace c \<longleftrightarrow>
     c \<in> {0x0B, 0x0C, 0x0D, 0x85, 0x200E, 0x200F, 0x2028, 0x2029}"

definition eat_lit_suffix :: "classes \<Rightarrow> cursor \<Rightarrow> cursor" where
  "eat_lit_suffix u s =
     (if \<not> is_id_start u (peek s) then s
      else eat_while (is_id_continue u) (advance s))"

text \<open>The nested matches on the characters that follow an operator character:
  \<open>eq_tail\<close> takes a following \<open>=\<close>, \<open>double_tail\<close> a second
  occurrence of the operator (which itself may be followed by \<open>=\<close>).\<close>

definition eq_tail :: "token_kind \<Rightarrow> token_kind \<Rightarrow> cursor \<Rightarrow> token_kind \<times> cursor" where
  "eq_tail with_eq plain s =
     (if peek s = ch CHR ''='' then (with_eq, advance s) else (plain, s))"

definition double_tail ::
  "char \<Rightarrow> token_kind \<Rightarrow> token_kind \<Rightarrow> token_kind \<Rightarrow> token_kind \<Rightarrow> cursor \<Rightarrow> token_kind \<times> cursor" where
  "double_tail c double_eq double with_eq plain s =
     (if peek s = ch c then eq_tail double_eq double (advance s)
      else eq_tail with_eq plain s)"

definition operator_kind :: "classes \<Rightarrow> rchar \<Rightarrow> cursor \<Rightarrow> token_kind \<times> cursor" where
  "operator_kind u c s =
     (if c = ch CHR ''='' then eq_tail EqEq Eq s
      else if c = ch CHR ''!'' then eq_tail BangEq Bang s
      else if c = ch CHR ''<'' then double_tail CHR ''<'' LtLtEq LtLt LtEq Lt s
      else if c = ch CHR ''>'' then double_tail CHR ''>'' GtGtEq GtGt GtEq Gt s
      else if c = ch CHR ''-'' then eq_tail MinusEq Minus s
      else if c = ch CHR ''&'' then eq_tail AndEq And s
      else if c = ch CHR ''|'' then eq_tail OrEq Or s
      else if c = ch CHR ''+'' then eq_tail PlusEq Plus s
      else if c = ch CHR ''*'' then double_tail CHR ''*'' StarStarEq StarStar StarEq Star s
      else if c = ch CHR ''/'' then double_tail CHR ''/'' SlashSlashEq SlashSlash SlashEq Slash s
      else if c = ch CHR ''^'' then eq_tail CaretEq Caret s
      else if c = ch CHR ''%'' then eq_tail PercentEq Percent s
      else if c = ch CHR 0x5C then
        (if peek s = ch CHR 0x0A then (LineContinue, advance s)
         else if peek s = EOF_CHAR then (LineContinue, s)
         else (InvalidLineContinue, s))
      else if \<not> is_ascii c \<and> is_emoji u c then fake_ident_or_unknown_prefix u s
      else (Unknown, s))"

definition punctuation_kind :: "classes \<Rightarrow> rchar \<Rightarrow> cursor \<Rightarrow> token_kind \<times> cursor" where
  "punctuation_kind u c s =
     (if c = 0x09 then (Tab, s)
      else if c = 0x20 then (Space, s)
      else if c = 0x0A then (Newline, s)
      else if c = ch CHR '';'' then (Semi, s)
      else if c = ch CHR '','' then (Comma, s)
      else if c = ch CHR ''.'' then
        (if peek s = ch CHR ''.'' \<and> peek1th s = ch CHR ''.''
         then (DotDotDot, advance (advance s)) else (Dot, s))
      else if c = ch CHR ''('' then (OpenParen, s)
      else if c = ch CHR '')'' then (CloseParen, s)
      else if c = ch CHR ''{'' then (OpenBrace, s)
      else if c = ch CHR ''}'' then (CloseBrace, s)
      else if c = ch CHR ''['' then (OpenBracket, s)
      else if c = ch CHR '']'' then (CloseBracket, s)
      else if c = ch CHR ''@'' then (At, s)
      else if c = ch CHR ''#'' then (Pound, s)
      else if c = ch CHR ''~'' then (Tilde, s)
      else if c = ch CHR ''?'' then (Question, s)
      else if c = ch CHR '':'' then (Colon, s)
      else if c = ch CHR ''$'' then (Dollar, s)
      else operator_kind u c s)"

definition token_kind_of :: "classes \<Rightarrow> rchar \<Rightarrow> cursor \<Rightarrow> token_kind \<times> cursor" where
  "token_kind_of u c s =
     (if try_comment_magic c then eat_comment s
      else if is_whitespace c then (Whitespace, s)
      else if try_string_magic s c then eat_string c s
      else if try_ident_magic u s c then eat_ident u s
      else if is_ascii_digit c then
        (let (k, s) = number u c s in (Literal k (len_consumed s), eat_lit_suffix u s))
      else punctuation_kind u c s)"

definition token :: "classes \<Rightarrow> cursor \<Rightarrow> token \<times> cursor" where
  "token u s =
     (let c = (case fst (bump s) of Some c \<Rightarrow> c | None \<Rightarrow> EOF_CHAR);
          (k, s) = token_kind_of u c (advance s)
      in (\<lparr>kind = k, len = len_consumed s\<rparr>, s))"

definition first_token :: "classes \<Rightarrow> rchar list \<Rightarrow> token" where
  "first_token u input = fst (token u (new_cursor input))"

end
