(* ===== verification/Lexer_Laws.thy ===== *)
theory Lexer_Laws
  imports Lexer
begin

text \<open>
  Correctness of the low-level lexer: the scanners as instances of one contract,
  progress and totality of the token iterator, the tiling of the input by the
  tokens, and what the strings, numbers, comments and operators of the language
  are read as.
\<close>

section \<open>The scanners only move forward\<close>

text \<open>A scanner leaves the start of the current token alone and drops a prefix of
  what remains of the input.\<close>

definition advances :: "cursor \<Rightarrow> cursor \<Rightarrow> bool" where
  "advances s t \<longleftrightarrow> initial_len t = initial_len s \<and> suffix (char_iter t) (char_iter s)"

lemma advances_refl [simp, intro]: "advances s s"
  by (simp add: advances_def)

lemma advances_trans [trans]: "advances s t \<Longrightarrow> advances t r \<Longrightarrow> advances s r"
  by (auto simp: advances_def intro: suffix_order.trans)

lemma bytes_len_simps [simp]:
  "bytes_len [] = 0" "bytes_len (c # cs) = len_utf8 c + bytes_len cs"
  "bytes_len (xs @ ys) = bytes_len xs + bytes_len ys"
  by (simp_all add: bytes_len_def)

lemma len_utf8_pos [simp]: "0 < len_utf8 c" "len_utf8 c \<noteq> 0"
  by (simp_all add: len_utf8_def)

lemma bytes_len_eq_0_iff [simp]: "bytes_len cs = 0 \<longleftrightarrow> cs = []"
  by (cases cs) simp_all

lemma bytes_len_suffix: "suffix xs ys \<Longrightarrow> bytes_len xs \<le> bytes_len ys"
  by (auto simp: suffix_def)

text \<open>The cursor never has more left to read than its token started with, so the
  subtraction of \<open>len_consumed\<close> does not underflow.\<close>

definition cursor_ok :: "cursor \<Rightarrow> bool" where
  "cursor_ok s \<longleftrightarrow> bytes_len (char_iter s) \<le> initial_len s"

lemma cursor_ok_new [simp]: "cursor_ok (new_cursor cs)"
  by (simp add: cursor_ok_def new_cursor_def)

lemma cursor_ok_reset [simp]: "cursor_ok (reset_len_consumed s)"
  by (simp add: cursor_ok_def reset_len_consumed_def)

lemma cursor_ok_advances: "cursor_ok s \<Longrightarrow> advances s t \<Longrightarrow> cursor_ok t"
  using bytes_len_suffix by (fastforce simp: cursor_ok_def advances_def)

locale scanner =
  fixes scan :: "cursor \<Rightarrow> cursor"
  assumes moves: "advances s (scan s)"
begin

lemma moves_after [intro]: "advances s t \<Longrightarrow> advances s (scan t)"
  using moves advances_trans by blast

lemma keeps_ok: "cursor_ok s \<Longrightarrow> cursor_ok (scan s)"
  using moves cursor_ok_advances by blast

lemma consumes_prefix: obtains p where "char_iter s = p @ char_iter (scan s)"
  using moves [of s] by (auto simp: advances_def suffix_def)

lemma len_consumed_mono: "len_consumed s \<le> len_consumed (scan s)"
  using moves [of s] bytes_len_suffix
  by (auto simp: advances_def len_consumed_def intro: diff_le_mono2)

end

locale scanner_pair = first: scanner scan1 + second: scanner scan2
  for scan1 :: "cursor \<Rightarrow> cursor" and scan2 :: "cursor \<Rightarrow> cursor"

sublocale scanner_pair \<subseteq> both: scanner "\<lambda>s. scan2 (scan1 s)"
  by unfold_locales (intro second.moves_after first.moves)

interpretation advance: scanner advance
  by unfold_locales (simp add: advances_def scan_simps suffix_tl)

interpretation eat_while: scanner "eat_while p" for p
proof unfold_locales
  show "advances s (eat_while p s)" for s
    by (induction p s rule: eat_while.induct)
      (subst eat_while.simps, auto intro: advances_trans [OF advance.moves])
qed

interpretation decimal_digits: scanner "\<lambda>s. snd (decimal_digits_loop b s)" for b
proof unfold_locales
  show "advances s (snd (decimal_digits_loop b s))" for s
    by (induction b s rule: decimal_digits_loop.induct)
      (subst decimal_digits_loop.simps, auto intro: advances_trans [OF advance.moves])
qed

interpretation hexadecimal_digits: scanner "\<lambda>s. snd (hexadecimal_digits_loop b s)" for b
proof unfold_locales
  show "advances s (snd (hexadecimal_digits_loop b s))" for s
    by (induction b s rule: hexadecimal_digits_loop.induct)
      (subst hexadecimal_digits_loop.simps, auto intro: advances_trans [OF advance.moves])
qed

lemmas scanner_rules = advance.moves_after eat_while.moves_after
  decimal_digits.moves_after hexadecimal_digits.moves_after

lemma advances_str_literal [simp]:
  "advances s (snd (str_literal t q r)) \<longleftrightarrow> advances s r"
  by (simp add: str_literal_def)

interpretation float_exponent: scanner "\<lambda>s. snd (eat_float_exponent s)"
  by unfold_locales
    (auto simp: eat_float_exponent_def eat_decimal_digits_def intro: scanner_rules)

interpretation number_tail: scanner "\<lambda>s. snd (number_tail u bs s)" for u bs
  by unfold_locales
    (auto simp: number_tail_def Let_def case_prod_beta eat_decimal_digits_def
      intro!: scanner_rules float_exponent.moves_after)

interpretation number: scanner "\<lambda>s. snd (number u c s)" for u c
  by unfold_locales
    (auto simp: number_def Let_def case_prod_beta eat_decimal_digits_def
      eat_hexadecimal_digits_def intro!: scanner_rules number_tail.moves_after)

interpretation quoted_string: scanner "\<lambda>s. snd (quoted_string_loop q tr s)" for q tr
proof unfold_locales
  show "advances s (snd (quoted_string_loop q tr s))" for s
  proof (induction q tr s rule: quoted_string_loop.induct)
    case (1 q tr s)
    note one = advances_trans [OF advance.moves [of s]]
    note two = advances_trans [OF advance.moves_after [OF advance.moves [of s]]]
    show ?case
    proof (cases "fst (bump s)")
      case None
      then show ?thesis by (simp add: quoted_string_loop.simps)
    next
      case (Some c)
      note IH = "1.IH" [OF Some refl]
      show ?thesis
        using Some advance.moves [of s] advance.moves_after [OF advance.moves [of s]]
          one [OF IH(2)] one [OF IH(3)] two [OF IH(1)]
        by (simp add: quoted_string_loop.simps [of q tr s] advance.moves_after Let_def)
    qed
  qed
qed

interpretation eat_string: scanner "\<lambda>s. snd (eat_string c s)" for c
  by unfold_locales
    (auto simp: eat_string_def eat_quoted_string_def
      intro!: quoted_string.moves_after advance.moves_after)

interpretation eat_ident: scanner "\<lambda>s. snd (eat_ident u s)" for u
  by unfold_locales
    (auto simp: eat_ident_def Let_def fake_ident_or_unknown_prefix_def intro!: scanner_rules)

interpretation eat_lit_suffix: scanner "eat_lit_suffix u" for u
  by unfold_locales (auto simp: eat_lit_suffix_def intro!: scanner_rules)

interpretation number_with_suffix: scanner_pair "\<lambda>s. snd (number u c s)" "eat_lit_suffix u" for u c
  by unfold_locales

lemma advances_eq_tail [intro]: "advances s t \<Longrightarrow> advances s (snd (eq_tail a b t))"
  by (auto simp: eq_tail_def intro!: scanner_rules)

lemma advances_double_tail [intro]:
  "advances s t \<Longrightarrow> advances s (snd (double_tail d a b e f t))"
  by (auto simp: double_tail_def intro!: scanner_rules)

interpretation operator_kind: scanner "\<lambda>s. snd (operator_kind u c s)" for u c
  by unfold_locales
    (auto simp: operator_kind_def fake_ident_or_unknown_prefix_def intro!: scanner_rules)

interpretation punctuation_kind: scanner "\<lambda>s. snd (punctuation_kind u c s)" for u c
  by unfold_locales
    (auto simp: punctuation_kind_def intro!: scanner_rules operator_kind.moves_after)

interpretation token_kind_of: scanner "\<lambda>s. snd (token_kind_of u c s)" for u c
  by unfold_locales
    (auto simp: token_kind_of_def eat_comment_def Let_def case_prod_beta
      intro!: eat_while.moves eat_string.moves eat_ident.moves punctuation_kind.moves
        number_with_suffix.both.moves)

interpretation token: scanner_pair advance
  "\<lambda>s. snd (token_kind_of u c s)" for u c
  by unfold_locales

section \<open>Tokens\<close>

text \<open>What the clients of the token function rely on: it reports what it has
  consumed, and consumes at least one character unless the input is at its end.\<close>

locale token_source =
  fixes next_token :: "cursor \<Rightarrow> token \<times> cursor"
  assumes next_advances: "advances s (snd (next_token s))"
    and next_progress: "\<not> is_eof s \<Longrightarrow> suffix (char_iter (snd (next_token s))) (tl (char_iter s))"
    and next_len: "len (fst (next_token s)) = len_consumed (snd (next_token s))"
begin

lemma next_shorter:
  "\<not> is_eof s \<Longrightarrow> length (char_iter (snd (next_token s))) < length (char_iter s)"
  using next_progress [of s] suffix_length_le
  by (cases "char_iter s") (fastforce simp: is_eof_def)+

lemma next_piece:
  assumes "\<not> is_eof s" "initial_len s = bytes_len (char_iter s)"
  obtains p where "p \<noteq> []" "char_iter s = p @ char_iter (snd (next_token s))"
    "len (fst (next_token s)) = bytes_len p"
proof -
  let ?t = "snd (next_token s)"
  obtain c cs where cs: "char_iter s = c # cs"
    using assms(1) by (cases "char_iter s") (auto simp: is_eof_def)
  obtain q where q: "cs = q @ char_iter ?t"
    using next_progress [OF assms(1)] by (auto simp: cs suffix_def)
  have "initial_len ?t = initial_len s"
    using next_advances by (simp add: advances_def)
  then have "len (fst (next_token s)) = bytes_len (c # q)"
    using assms(2) by (simp add: next_len len_consumed_def cs q)
  with cs q show thesis by (intro that [of "c # q"]) simp_all
qed

end

interpretation lex: token_source "Lexer.token u" for u
proof unfold_locales
  fix s
  show "advances s (snd (Lexer.token u s))"
    by (auto simp: Lexer.token_def Let_def case_prod_beta
        intro: token_kind_of.moves_after advance.moves)
  show "suffix (char_iter (snd (Lexer.token u s))) (tl (char_iter s))"
    using token_kind_of.moves [of "advance s"]
    by (simp add: Lexer.token_def Let_def case_prod_beta advances_def scan_simps)
  show "len (fst (Lexer.token u s)) = len_consumed (snd (Lexer.token u s))"
    by (simp add: Lexer.token_def Let_def case_prod_beta)
qed

lemma reset_is_new: "reset_len_consumed s = new_cursor (char_iter s)"
  by (simp add: reset_len_consumed_def new_cursor_def)

lemma is_eof_reset [simp]: "is_eof (reset_len_consumed s) \<longleftrightarrow> is_eof s"
  by (simp add: is_eof_def reset_len_consumed_def)

text \<open>The closure that \<open>tokenize\<close> passes to \<open>iter::from_fn\<close>, run until it
  returns \<open>None\<close>.\<close>

function tokens_from :: "classes \<Rightarrow> cursor \<Rightarrow> token list" where
  "tokens_from u s =
     (if is_eof s then []
      else (let (t, s') = Lexer.token u (reset_len_consumed s) in t # tokens_from u s'))"
  by pat_completeness auto
termination
proof (relation "measure (\<lambda>(_, s). length (char_iter s))")
  fix u s x t s'
  assume "\<not> is_eof s" "x = Lexer.token u (reset_len_consumed s)" "(t, s') = x"
  then show "((u, s'), (u, s)) \<in> measure (\<lambda>(_, s). length (char_iter s))"
    using lex.next_shorter [of "reset_len_consumed s" u]
    by (auto simp: reset_len_consumed_def is_eof_def dest: arg_cong [of _ _ snd])
qed simp

declare tokens_from.simps [simp del]

definition tokenize :: "classes \<Rightarrow> rchar list \<Rightarrow> token list" where
  "tokenize u input = tokens_from u (new_cursor input)"

text \<open>The tokens cut \<open>cs\<close> into the non-empty pieces whose lengths they report.\<close>

definition tiles :: "rchar list \<Rightarrow> token list \<Rightarrow> bool" where
  "tiles cs ts \<longleftrightarrow>
     (\<exists>pieces. concat pieces = cs \<and> map len ts = map bytes_len pieces \<and> [] \<notin> set pieces)"

lemma tiles_Nil [simp]: "tiles [] []"
  unfolding tiles_def by (rule exI [of _ "[]"]) simp

lemma tiles_Cons:
  assumes "p \<noteq> []" "len t = bytes_len p" "tiles cs ts"
  shows "tiles (p @ cs) (t # ts)"
proof -
  obtain ps where "concat ps = cs" "map len ts = map bytes_len ps" "[] \<notin> set ps"
    using assms(3) by (auto simp: tiles_def)
  with assms(1,2) show ?thesis
    unfolding tiles_def by (intro exI [of _ "p # ps"]) simp
qed

lemma tiles_total: "tiles cs ts \<Longrightarrow> sum_list (map len ts) = bytes_len cs"
proof -
  assume "tiles cs ts"
  then obtain ps where "concat ps = cs" "map len ts = map bytes_len ps"
    by (auto simp: tiles_def)
  moreover have "bytes_len (concat ps) = sum_list (map bytes_len ps)"
    by (induction ps) simp_all
  ultimately show ?thesis by simp
qed

lemma tiles_positive: "tiles cs ts \<Longrightarrow> t \<in> set ts \<Longrightarrow> 0 < len t"
proof -
  assume *: "tiles cs ts" "t \<in> set ts"
  then obtain ps where ps: "map len ts = map bytes_len ps" "[] \<notin> set ps"
    by (auto simp: tiles_def)
  have "len t \<in> set (map bytes_len ps)"
    using * by (simp flip: ps(1))
  with ps(2) show ?thesis
    by (auto simp del: neq0_conv simp: neq0_conv [symmetric])
qed

lemma tokens_from_tiles: "tiles (char_iter s) (tokens_from u s)"
proof (induction u s rule: tokens_from.induct)
  case (1 u s)
  show ?case
  proof (cases "is_eof s")
    case True
    then show ?thesis by (simp add: tokens_from.simps is_eof_def)
  next
    case False
    let ?r = "reset_len_consumed s"
    obtain p where p: "p \<noteq> []" "char_iter ?r = p @ char_iter (snd (Lexer.token u ?r))"
      "len (fst (Lexer.token u ?r)) = bytes_len p"
      using False by (elim lex.next_piece [of ?r u, rotated 2]) (simp_all add: reset_len_consumed_def is_eof_def)
    have IH: "tiles (char_iter (snd (Lexer.token u ?r))) (tokens_from u (snd (Lexer.token u ?r)))"
      using 1 [OF False refl] by (simp add: prod_eq_iff)
    have "char_iter s = char_iter ?r"
      by (simp add: reset_len_consumed_def)
    with tiles_Cons [OF p(1,3) IH] False p(2) show ?thesis
      by (subst tokens_from.simps) (simp add: Let_def case_prod_beta)
  qed
qed

text \<open>C12. Tokenizing any text, whatever the character classes, yields tokens that tile
  it: the text is the concatenation of non-empty pieces, one per token, each as
  many UTF-8 bytes long as its token says; so every token has a positive length and
  the lengths add up to the length of the text.\<close>

theorem tokenize_tiles:
  "(\<exists>pieces. concat pieces = input \<and> map len (tokenize u input) = map bytes_len pieces
      \<and> [] \<notin> set pieces)
   \<and> sum_list (map len (tokenize u input)) = bytes_len input
   \<and> list_all (\<lambda>t. 0 < len t) (tokenize u input)"
proof -
  have "tiles input (tokenize u input)"
    using tokens_from_tiles [of "new_cursor input" u] by (simp add: tokenize_def new_cursor_def)
  then show ?thesis
    using tiles_total tiles_positive by (auto simp: tiles_def list_all_iff)
qed

text \<open>\<open>&text[n..]\<close>: the text from byte \<open>n\<close> on; slicing inside a character
  panics, which is \<open>None\<close>.\<close>

fun drop_bytes :: "nat \<Rightarrow> rchar list \<Rightarrow> rchar list option" where
  "drop_bytes n [] = (if n = 0 then Some [] else None)"
| "drop_bytes n (c # cs) =
     (if n = 0 then Some (c # cs)
      else if n < len_utf8 c then None
      else drop_bytes (n - len_utf8 c) cs)"

lemma drop_bytes_append: "drop_bytes (bytes_len p + n) (p @ cs) = drop_bytes n cs"
proof (induction p)
  case (Cons c p)
  then show ?case by (simp add: add.assoc)
qed simp

lemma drop_bytes_0 [simp]: "drop_bytes 0 cs = Some cs"
  by (cases cs) simp_all

lemma drop_bytes_prefix [simp]: "drop_bytes (bytes_len p) (p @ cs) = Some cs"
  using drop_bytes_append [of p 0 cs] by simp

lemma drop_bytes_SomeD: "drop_bytes n cs = Some r \<Longrightarrow> \<exists>p. cs = p @ r \<and> bytes_len p = n"
proof (induction n cs rule: drop_bytes.induct)
  case (2 n c cs)
  show ?case
  proof (cases "n = 0")
    case False
    with "2.prems" have n: "\<not> n < len_utf8 c" "drop_bytes (n - len_utf8 c) cs = Some r"
      by (auto split: if_splits)
    from "2.IH" [OF False n] obtain p where "cs = p @ r" "bytes_len p = n - len_utf8 c" by blast
    with n(1) show ?thesis by (intro exI [of _ "c # p"]) simp
  qed (use "2.prems" in simp)
qed (simp split: if_splits)

lemma token_new_cursor_rest:
  assumes "cs \<noteq> []"
  shows "drop_bytes (len (first_token u cs)) cs
    = Some (char_iter (snd (Lexer.token u (new_cursor cs))))"
proof -
  obtain p where "char_iter (new_cursor cs) = p @ char_iter (snd (Lexer.token u (new_cursor cs)))"
    "len (fst (Lexer.token u (new_cursor cs))) = bytes_len p"
    by (rule lex.next_piece [of "new_cursor cs" u])
      (use assms in \<open>simp_all add: new_cursor_def is_eof_def\<close>)
  then show ?thesis
    by (metis cursor.select_convs(2) drop_bytes_prefix first_token_def new_cursor_def)
qed

lemma tokens_from_new: "tokens_from u s = tokens_from u (new_cursor (char_iter s))"
  by (subst (1 2) tokens_from.simps)
    (simp add: reset_is_new is_eof_def new_cursor_def)

text \<open>C32. The iterator over one moving cursor yields the same tokens as calling
  \<open>first_token\<close> on the text and again on what follows that token, which is how the
  parser's lexer reads its source; the slice is always on a character
  boundary.\<close>

theorem tokenize_by_first_token:
  "if input = [] then tokenize u input = []
   else \<exists>rest. drop_bytes (len (first_token u input)) input = Some rest
     \<and> tokenize u input = first_token u input # tokenize u rest"
proof (cases "input = []")
  case True
  then show ?thesis
    by (simp add: tokenize_def tokens_from.simps new_cursor_def is_eof_def)
next
  case False
  let ?t = "Lexer.token u (new_cursor input)"
  have "tokenize u input = fst ?t # tokens_from u (snd ?t)"
    using False unfolding tokenize_def
    by (subst tokens_from.simps)
      (simp add: Let_def case_prod_beta reset_is_new, simp add: is_eof_def new_cursor_def)
  also have "tokens_from u (snd ?t) = tokenize u (char_iter (snd ?t))"
    unfolding tokenize_def by (rule tokens_from_new)
  finally show ?thesis
    using False token_new_cursor_rest [OF False, of u] by (simp add: first_token_def)
qed

section \<open>Literals\<close>

text \<open>The suffix of a literal starts inside the token.\<close>

lemma str_literal_eq [simp]:
  "fst (str_literal t tr s) = Literal (Str_kind t tr) (len_consumed s)"
  "snd (str_literal t tr s) = s"
  by (simp_all add: str_literal_def)

definition str_result :: "token_kind \<times> cursor \<Rightarrow> bool" where
  "str_result r \<longleftrightarrow> (\<exists>t tr. fst r = Literal (Str_kind t tr) (len_consumed (snd r)))"

lemma str_result_literal [simp]: "str_result (str_literal t tr s)"
  by (simp add: str_result_def)

lemma quoted_string_loop_kind: "str_result (quoted_string_loop q tr s)"
proof (induction q tr s rule: quoted_string_loop.induct)
  case (1 q tr s)
  show ?case
  proof (cases "fst (bump s)")
    case None
    then show ?thesis by (simp add: quoted_string_loop.simps)
  next
    case (Some c)
    note IH = "1.IH" [OF Some refl]
    show ?thesis
      using Some IH(1) IH(2) IH(3) by (simp add: quoted_string_loop.simps [of q tr s] Let_def)
  qed
qed

lemma eat_string_kind:
  "fst (eat_string c s) = Literal k n \<Longrightarrow>
     n = len_consumed (snd (eat_string c s)) \<and> (\<exists>t tr. k = Str_kind t tr)"
proof -
  assume *: "fst (eat_string c s) = Literal k n"
  have "str_result (eat_string c s) \<or> fst (eat_string c s) = Unknown"
    by (simp add: eat_string_def eat_quoted_string_def quoted_string_loop_kind)
  with * show ?thesis by (auto simp: str_result_def)
qed

lemma number_tail_kind: "fst (number_tail u bs s) \<noteq> Str_kind t tr"
  by (simp add: number_tail_def Let_def case_prod_beta)

lemma number_kind: "fst (number u c s) \<noteq> Str_kind t tr"
  by (simp add: number_def number_tail_kind Let_def case_prod_beta)

lemma no_literal [simp]:
  "fst (eat_comment s) \<noteq> Literal k n" "fst (eat_ident u s) \<noteq> Literal k n"
  "fst (fake_ident_or_unknown_prefix u s) \<noteq> Literal k n"
  by (simp_all add: eat_comment_def eat_ident_def Let_def fake_ident_or_unknown_prefix_def)

lemma eq_tail_kind: "fst (eq_tail a b s) \<in> {a, b}"
  by (simp add: eq_tail_def)

lemma double_tail_kind: "fst (double_tail c a b d e s) \<in> {a, b, d, e}"
  using eq_tail_kind [of a b] eq_tail_kind [of d e] by (auto simp: double_tail_def)

lemma operator_kind_no_literal: "fst (operator_kind u c s) \<noteq> Literal k n"
  by (simp add: operator_kind_def eq_tail_def double_tail_def)

lemma punctuation_kind_no_literal: "fst (punctuation_kind u c s) \<noteq> Literal k n"
  by (simp add: punctuation_kind_def operator_kind_no_literal)

lemma token_kind_of_literal:
  assumes "fst (token_kind_of u c s) = Literal k n"
  shows "n \<le> len_consumed (snd (token_kind_of u c s))
    \<and> (is_Str_kind k \<longrightarrow> n = len_consumed (snd (token_kind_of u c s)))"
proof (cases "is_ascii_digit c \<and> \<not> try_comment_magic c \<and> \<not> is_whitespace c
    \<and> \<not> try_string_magic s c \<and> \<not> try_ident_magic u s c")
  case True
  with assms number_kind [of u c s] show ?thesis
    by (auto simp: token_kind_of_def Let_def case_prod_beta is_Str_kind_def
        intro: eat_lit_suffix.len_consumed_mono)
next
  case False
  with assms show ?thesis
    by (auto simp: token_kind_of_def punctuation_kind_no_literal split: if_splits
        dest: eat_string_kind)
qed

definition literal_ok :: "token \<Rightarrow> bool" where
  "literal_ok t = (case kind t of
       Literal k n \<Rightarrow> n \<le> len t \<and> (case k of Str_kind _ _ \<Rightarrow> n = len t | _ \<Rightarrow> True)
     | _ \<Rightarrow> True)"

lemma token_literal_ok: "literal_ok (fst (Lexer.token u s))"
  using token_kind_of_literal [of u _ "advance s"]
  by (auto simp: literal_ok_def Lexer.token_def Let_def case_prod_beta is_Str_kind_def
      split: token_kind.split literal_kind.split)

lemma tokens_from_all:
  assumes "\<And>s. P (fst (Lexer.token u s))"
  shows "list_all P (tokens_from u s)"
  using assms
proof (induction u s rule: tokens_from.induct)
  case (1 u s)
  show ?case
  proof (cases "is_eof s")
    case False
    have "list_all P (tokens_from u (snd (Lexer.token u (reset_len_consumed s))))"
      using "1.IH" [OF False refl] "1.prems" by (simp add: prod_eq_iff)
    with False "1.prems" show ?thesis
      by (subst tokens_from.simps) (simp add: Let_def case_prod_beta)
  qed (simp add: tokens_from.simps)
qed

text \<open>In every token the lexer produces, the suffix of a literal starts within the
  token, so the parser's slice of it is in range; a string literal has no suffix:
  its suffix position is its end.\<close>

theorem token_suffix_in_range:
  "list_all (\<lambda>t. case kind t of
       Literal k n \<Rightarrow> n \<le> len t \<and> (case k of Str_kind _ _ \<Rightarrow> n = len t | _ \<Rightarrow> True)
     | _ \<Rightarrow> True) (tokenize u input)"
  using tokens_from_all [of literal_ok u "new_cursor input", OF token_literal_ok]
  unfolding tokenize_def literal_ok_def .

section \<open>Strings\<close>

text \<open>A text as the body of a string literal: the quote and the backslash are
  written behind a backslash.\<close>

fun escape_str :: "rchar \<Rightarrow> rchar list \<Rightarrow> rchar list" where
  "escape_str q [] = []"
| "escape_str q (c # cs) =
     (if c = ch CHR 0x5C \<or> c = q then ch CHR 0x5C # c # escape_str q cs
      else c # escape_str q cs)"

definition single_line :: "rchar list \<Rightarrow> bool" where
  "single_line cs \<longleftrightarrow> (\<forall>c \<in> set cs. c \<noteq> ch CHR 0x0D \<and> c \<noteq> ch CHR 0x0A \<and> c \<noteq> EOF_CHAR)"

abbreviation at_rest :: "nat \<Rightarrow> rchar list \<Rightarrow> cursor" where
  "at_rest n cs \<equiv> \<lparr>initial_len = n, char_iter = cs\<rparr>"

lemma cursor_at_rest [simp]:
  "advance (at_rest n (c # cs)) = at_rest n cs"
  "peek (at_rest n (c # cs)) = c" "peek (at_rest n []) = EOF_CHAR"
  "peek1th (at_rest n (c # d # cs)) = d" "peek1th (at_rest n [c]) = EOF_CHAR"
  "fst (bump (at_rest n (c # cs))) = Some c"
  by (simp_all add: bump_def peek_def peek1th_def)

lemma quote_facts:
  assumes "is_quote q"
  shows "q \<noteq> 0x5C" "q \<noteq> 0x0D" "q \<noteq> 0x0A" "q \<noteq> 0" "\<not> is_raw_prefix q" "\<not> is_whitespace q"
    "\<not> try_comment_magic q" "len_utf8 q = 1"
  using assms
  by (auto simp: is_quote_def is_raw_prefix_def is_whitespace_def try_comment_magic_def len_utf8_def)

lemma quoted_loop_single:
  assumes "is_quote q" "single_line body"
  shows "quoted_string_loop q False (at_rest n (escape_str q body @ q # rest))
    = str_literal True False (at_rest n rest)"
  using assms(2)
proof (induction body)
  case Nil
  show ?case
    by (subst quoted_string_loop.simps) (simp add: Let_def quote_facts [OF assms(1)])
next
  case (Cons c body)
  have "peek (at_rest n (escape_str q body @ q # rest)) \<notin> {0x0D, 0x0A, 0}"
    using Cons.prems quote_facts(2-4) [OF assms(1)]
    by (cases body) (auto simp: single_line_def)
  with Cons show ?case
    by (subst quoted_string_loop.simps) (auto simp: Let_def single_line_def)
qed

lemma quoted_loop_triple:
  assumes "is_quote q"
  shows "quoted_string_loop q True (at_rest n (escape_str q body @ q # q # q # rest))
    = str_literal True True (at_rest n rest)"
proof (induction body)
  case Nil
  show ?case
    by (subst quoted_string_loop.simps) (simp add: Let_def quote_facts [OF assms(1)])
next
  case (Cons c body)
  then show ?case
    by (subst quoted_string_loop.simps) (auto simp: Let_def)
qed

lemma new_cursor_at_rest: "new_cursor cs = at_rest (bytes_len cs) cs"
  by (simp add: new_cursor_def)

lemma token_kind_of_quote:
  "is_quote q \<Longrightarrow> token_kind_of u q s = eat_quoted_string q s"
  by (simp add: token_kind_of_def try_string_magic_def eat_string_def quote_facts)

lemma first_token_single_quoted:
  assumes "is_quote q" "single_line body" "body = [] \<Longrightarrow> rest = [] \<or> hd rest \<noteq> q"
  shows "first_token u (q # escape_str q body @ q # rest)
    = \<lparr>kind = Literal (Str_kind True False) (bytes_len (escape_str q body) + 2),
       len = bytes_len (escape_str q body) + 2\<rparr>"
proof -
  let ?n = "bytes_len (q # escape_str q body @ q # rest)"
  let ?c = "at_rest ?n (escape_str q body @ q # rest)"
  have "\<not> (q = peek ?c \<and> q = peek1th ?c)"
    using assms(3) quote_facts(1,4) [OF assms(1)]
    by (cases body; cases rest) auto
  then have "eat_quoted_string q ?c = str_literal True False (at_rest ?n rest)"
    using quoted_loop_single [OF assms(1,2)] unfolding eat_quoted_string_def by (simp only: if_False)
  then have "token_kind_of u q ?c = str_literal True False (at_rest ?n rest)"
    by (simp add: token_kind_of_quote assms(1))
  then show ?thesis
    unfolding first_token_def Lexer.token_def new_cursor_at_rest
    by (simp add: Let_def case_prod_beta len_consumed_def quote_facts(8) [OF assms(1)])
qed

lemma first_token_triple_quoted:
  assumes "is_quote q"
  shows "first_token u (q # q # q # escape_str q body @ q # q # q # rest)
    = \<lparr>kind = Literal (Str_kind True True) (bytes_len (escape_str q body) + 6),
       len = bytes_len (escape_str q body) + 6\<rparr>"
proof -
  let ?n = "bytes_len (q # q # q # escape_str q body @ q # q # q # rest)"
  let ?c = "at_rest ?n (q # q # escape_str q body @ q # q # q # rest)"
  have "eat_quoted_string q ?c = str_literal True True (at_rest ?n rest)"
    using quoted_loop_triple [OF assms] by (simp add: eat_quoted_string_def)
  then have "token_kind_of u q ?c = str_literal True True (at_rest ?n rest)"
    by (simp add: token_kind_of_quote assms)
  then show ?thesis
    unfolding first_token_def Lexer.token_def new_cursor_at_rest
    by (simp add: Let_def case_prod_beta len_consumed_def quote_facts(8) [OF assms])
qed

section \<open>Comments, operators and numbers\<close>

lemma eat_while_at_rest: "eat_while p (at_rest n cs) = at_rest n (dropWhile p cs)"
  by (induction cs) (subst eat_while.simps, simp add: is_eof_def)+

text \<open>A comment is one token that reaches up to the next newline, which it
  leaves to the following token, or to the end of the text.\<close>

theorem first_token_comment:
  "kind (first_token u (ch CHR ''#'' # cs)) = LineComment (Some Inner)
   \<and> len (first_token u (ch CHR ''#'' # cs)) = 1 + bytes_len (takeWhile (\<lambda>c. c \<noteq> 0x0A) cs)"
proof -
  let ?n = "bytes_len (ch CHR ''#'' # cs)"
  have "bytes_len cs = bytes_len (takeWhile (\<lambda>c. c \<noteq> 0x0A) cs) + bytes_len (dropWhile (\<lambda>c. c \<noteq> 0x0A) cs)"
    by (metis bytes_len_simps(3) takeWhile_dropWhile_id)
  then show ?thesis
    unfolding first_token_def Lexer.token_def new_cursor_at_rest
    by (simp add: token_kind_of_def try_comment_magic_def eat_comment_def eat_while_at_rest
        Let_def len_consumed_def len_utf8_def)
qed

text \<open>What the lexer relies on of \<open>rustc_lexer::is_id_start\<close>: among the ASCII
  characters exactly the letters and the underscore start an identifier.\<close>

definition ascii_letter :: "rchar \<Rightarrow> bool" where
  "ascii_letter c \<longleftrightarrow> ch CHR ''a'' \<le> c \<and> c \<le> ch CHR ''z'' \<or> ch CHR ''A'' \<le> c \<and> c \<le> ch CHR ''Z''"

definition ascii_id_start :: "classes \<Rightarrow> bool" where
  "ascii_id_start u \<longleftrightarrow>
     (\<forall>c < 128. is_id_start u c \<longleftrightarrow> ascii_letter c \<or> c = ch CHR ''_'')"

lemma ascii_id_startD:
  "ascii_id_start u \<Longrightarrow> c < 128 \<Longrightarrow> is_id_start u c \<longleftrightarrow> ascii_letter c \<or> c = 95"
  by (simp add: ascii_id_start_def)

text \<open>The spelling of the tokens that have only one, as the comments of the
  enumeration give it.\<close>

fun spelling :: "token_kind \<Rightarrow> string option" where
  "spelling Tab = Some [CHR 0x09]"
| "spelling Space = Some '' ''"
| "spelling Newline = Some [CHR 0x0A]"
| "spelling LineContinue = Some [CHR 0x5C, CHR 0x0A]"
| "spelling Semi = Some '';''"
| "spelling Comma = Some '',''"
| "spelling Dot = Some ''.''"
| "spelling DotDotDot = Some ''...''"
| "spelling OpenParen = Some ''(''"
| "spelling CloseParen = Some '')''"
| "spelling OpenBrace = Some ''{''"
| "spelling CloseBrace = Some ''}''"
| "spelling OpenBracket = Some ''[''"
| "spelling CloseBracket = Some '']''"
| "spelling At = Some ''@''"
| "spelling Tilde = Some ''~''"
| "spelling Question = Some ''?''"
| "spelling Colon = Some '':''"
| "spelling Dollar = Some ''$''"
| "spelling Eq = Some ''=''"
| "spelling Bang = Some ''!''"
| "spelling Lt = Some ''<''"
| "spelling Gt = Some ''>''"
| "spelling EqEq = Some ''==''"
| "spelling BangEq = Some ''!=''"
| "spelling GtEq = Some ''>=''"
| "spelling LtEq = Some ''<=''"
| "spelling Minus = Some ''-''"
| "spelling And = Some ''&''"
| "spelling Or = Some ''|''"
| "spelling Plus = Some ''+''"
| "spelling Star = Some ''*''"
| "spelling Slash = Some ''/''"
| "spelling Caret = Some ''^''"
| "spelling Percent = Some ''%''"
| "spelling StarStar = Some ''**''"
| "spelling SlashSlash = Some ''//''"
| "spelling LtLt = Some ''<<''"
| "spelling GtGt = Some ''>>''"
| "spelling PlusEq = Some ''+=''"
| "spelling MinusEq = Some ''-=''"
| "spelling StarEq = Some ''*=''"
| "spelling SlashEq = Some ''/=''"
| "spelling PercentEq = Some ''%=''"
| "spelling AndEq = Some ''&=''"
| "spelling OrEq = Some ''|=''"
| "spelling CaretEq = Some ''^=''"
| "spelling StarStarEq = Some ''**=''"
| "spelling SlashSlashEq = Some ''//=''"
| "spelling LtLtEq = Some ''<<=''"
| "spelling GtGtEq = Some ''>>=''"
| "spelling _ = None"

text \<open>What follows a token does not extend it.\<close>

definition separated :: "classes \<Rightarrow> rchar list \<Rightarrow> bool" where
  "separated u rest \<longleftrightarrow>
     rest = [] \<or> hd rest \<notin> ch ` set ''=*/<>.'' \<and> \<not> is_id_start u (hd rest)"

text \<open>A character that reaches the last arms of the match.\<close>

definition symbol_char :: "rchar \<Rightarrow> bool" where
  "symbol_char c \<longleftrightarrow> \<not> try_comment_magic c \<and> \<not> is_whitespace c \<and> \<not> is_raw_prefix c
     \<and> \<not> is_quote c \<and> \<not> is_ascii_digit c \<and> \<not> ascii_letter c \<and> c \<noteq> ch CHR ''_'' \<and> c < 128"

lemma first_token_symbol:
  assumes "ascii_id_start u" "symbol_char c"
    "c \<noteq> DOLLAR_CHAR \<or> \<not> is_id_start u (peek (at_rest n cs))"
    "n = 1 + bytes_len cs"
  shows "first_token u (c # cs) =
    (let r = punctuation_kind u c (at_rest n cs) in \<lparr>kind = fst r, len = len_consumed (snd r)\<rparr>)"
proof -
  have c: "len_utf8 c = 1" "\<not> is_id_start u c"
    using assms(2) ascii_id_startD [OF assms(1), of c] by (simp_all add: symbol_char_def len_utf8_def)
  have "token_kind_of u c (at_rest n cs) = punctuation_kind u c (at_rest n cs)"
    using assms(2,3) c(2)
    by (simp add: token_kind_of_def symbol_char_def try_string_magic_def try_ident_magic_def)
  with c(1) assms(4) show ?thesis
    by (simp add: first_token_def Lexer.token_def new_cursor_at_rest case_prod_beta Let_def)
qed

lemmas symbol_char_simps = symbol_char_def try_comment_magic_def is_whitespace_def
  is_raw_prefix_def is_quote_def is_ascii_digit_def ascii_letter_def

lemmas symbol_kind_simps = punctuation_kind_def operator_kind_def eq_tail_def double_tail_def
  len_consumed_def


text \<open>The classes restricted to ASCII, for concrete evaluation.\<close>

definition ascii_classes :: classes where
  "ascii_classes =
     \<lparr>is_id_start = \<lambda>c. ascii_letter c \<or> c = ch CHR ''_'',
      is_id_continue = \<lambda>c. ascii_letter c \<or> c = ch CHR ''_'' \<or> is_ascii_digit c,
      is_emoji = \<lambda>c. False\<rparr>"

lemma ascii_id_start_ascii [simp]: "ascii_id_start ascii_classes"
  by (simp add: ascii_id_start_def ascii_classes_def)

lemma is_id_start_ascii [simp]: "is_id_start ascii_classes c \<longleftrightarrow> ascii_letter c \<or> c = 95"
  by (simp add: ascii_classes_def)


text \<open>A number without a base prefix.\<close>

lemma decimal_digits_at_rest:
  assumes "\<not> is_ascii_digit (peek (at_rest n rest))" "peek (at_rest n rest) \<noteq> ch CHR ''_''"
    "list_all is_ascii_digit ds"
  shows "decimal_digits_loop b (at_rest n (ds @ rest)) = (b \<or> ds \<noteq> [], at_rest n rest)"
  using assms(3)
proof (induction ds arbitrary: b)
  case Nil
  with assms(1,2) show ?case by (simp add: decimal_digits_loop.simps)
next
  case (Cons d ds)
  have "d \<noteq> ch CHR ''_''"
    using Cons.prems by (auto simp: is_ascii_digit_def)
  with Cons show ?case by (subst decimal_digits_loop.simps) simp
qed

text \<open>The end of a number: no digit, dot or letter follows.\<close>

definition number_ends :: "classes \<Rightarrow> rchar list \<Rightarrow> bool" where
  "number_ends u rest \<longleftrightarrow> rest = [] \<or>
     \<not> is_ascii_digit (hd rest) \<and> hd rest \<noteq> ch CHR ''.'' \<and> \<not> is_id_start u (hd rest)"

lemma bytes_len_digits: "list_all is_ascii_digit ds \<Longrightarrow> bytes_len ds = length ds"
  by (induction ds) (auto simp: is_ascii_digit_def len_utf8_def)

lemma first_token_decimal:
  assumes "ascii_id_start u" "list_all is_ascii_digit (d # ds)" "d \<noteq> ch CHR ''0'' \<or> ds = []"
    "number_ends u rest"
  shows "first_token u (d # ds @ rest)
    = \<lparr>kind = Literal (Int_kind Decimal False) (Suc (length ds)), len = Suc (length ds)\<rparr>"
proof -
  let ?n = "bytes_len (d # ds @ rest)"
  have d: "is_ascii_digit d" "d < 128" "len_utf8 d = 1" "\<not> ascii_letter d" "d \<noteq> 95" "d \<noteq> 36"
    using assms(2) by (auto simp: is_ascii_digit_def len_utf8_def ascii_letter_def)
  have sym: "\<not> try_comment_magic d" "\<not> is_whitespace d" "\<not> is_raw_prefix d" "\<not> is_quote d"
    using d(1) by (auto simp: is_ascii_digit_def try_comment_magic_def is_whitespace_def
        is_raw_prefix_def is_quote_def)
  have "\<not> is_id_start u d"
    using ascii_id_startD [OF assms(1) d(2)] d(4,5) by simp
  then have front: "token_kind_of u d s =
      (let r = number u d s in (Literal (fst r) (len_consumed (snd r)), eat_lit_suffix u (snd r)))" for s
    using sym d(1,6)
    by (simp add: token_kind_of_def try_string_magic_def try_ident_magic_def Let_def case_prod_beta)
  let ?p = "peek (at_rest ?n rest)"
  have stop: "\<not> is_id_start u ?p" "\<not> is_ascii_digit ?p" "?p \<noteq> ch CHR ''.''"
    using assms(4) ascii_id_startD [OF assms(1), of 0]
    by (cases rest; simp add: number_ends_def ascii_letter_def is_ascii_digit_def)+
  have letters: "?p \<noteq> ch c" if "ascii_letter (ch c) \<or> c = CHR ''_''" "(of_char c :: nat) < 128" for c
    using stop(1) ascii_id_startD [OF assms(1) that(2)] that(1) by auto
  have "eat_decimal_digits (at_rest ?n (ds @ rest)) = (ds \<noteq> [], at_rest ?n rest)"
    using decimal_digits_at_rest [OF stop(2) letters, of ds False] assms(2)
    by (simp add: eat_decimal_digits_def)
  then have "number u d (at_rest ?n (ds @ rest)) = (Int_kind Decimal False, at_rest ?n rest)"
    using assms(3) stop letters [of "CHR ''e''"] letters [of "CHR ''E''"] letters [of "CHR ''b''"]
      letters [of "CHR ''o''"] letters [of "CHR ''x''"] letters [of "CHR ''_''"]
    by (auto simp: number_def number_tail_def ascii_letter_def)
  then have "token_kind_of u d (at_rest ?n (ds @ rest)) =
      (Literal (Int_kind Decimal False) (Suc (length ds)), at_rest ?n rest)"
    using stop(1) d(3) bytes_len_digits [of ds] assms(2)
    by (simp add: front eat_lit_suffix_def len_consumed_def)
  then show ?thesis
    using d(3) bytes_len_digits [of ds] assms(2)
    by (simp add: first_token_def Lexer.token_def new_cursor_at_rest len_consumed_def)
qed

end
