(* ===== verification/String_Content.thy ===== *)
theory String_Content
  imports Lexer_Laws
begin

text \<open>
  Evaluation of the content of a string literal,
  \<open>src/crates/parser/src/lexer/string.rs\<close>: the escape sequences of the language
  (octal, hexadecimal, \<open>\\u\<close>, \<open>\\U\<close>, named characters), raw strings, and
  the errors, which are \<open>None\<close>.  The table of the crate
  \<open>unicode_names2\<close> is the parameter \<open>names\<close>.
\<close>

section \<open>Escapes of a character\<close>

text \<open>\<open>char::to_digit\<close> for the radices up to 16.\<close>

definition to_digit :: "nat \<Rightarrow> rchar \<Rightarrow> nat option" where
  "to_digit radix c =
     (let d = (if is_ascii_digit c then c - ch CHR ''0''
               else if ch CHR ''a'' \<le> c \<and> c \<le> ch CHR ''z'' then c - ch CHR ''a'' + 10
               else if ch CHR ''A'' \<le> c \<and> c \<le> ch CHR ''Z'' then c - ch CHR ''A'' + 10
               else radix)
      in if d < radix then Some d else None)"

text \<open>\<open>char::from_u32\<close>.\<close>

definition from_u32 :: "u32 \<Rightarrow> rchar option" where
  "from_u32 p = (if p \<le> 0x10FFFF \<and> \<not> (0xD800 \<le> p \<and> p \<le> 0xDFFF) then Some (unat p) else None)"

text \<open>The loop of \<open>unicode_literal\<close>, with the number of digits still to read.\<close>

fun unicode_digits :: "nat \<Rightarrow> u32 \<Rightarrow> rchar list \<Rightarrow> (u32 \<times> rchar list) option" where
  "unicode_digits 0 p cs = Some (p, cs)"
| "unicode_digits (Suc k) p [] = None"
| "unicode_digits (Suc k) p (c # cs) =
     (case to_digit 16 c of
        Some d \<Rightarrow> unicode_digits k (p + push_bit (k * 4) (of_nat d)) cs
      | None \<Rightarrow> None)"

definition unicode_literal :: "nat \<Rightarrow> rchar list \<Rightarrow> (rchar \<times> rchar list) option" where
  "unicode_literal literal_number cs =
     (case unicode_digits literal_number 0 cs of
        None \<Rightarrow> None
      | Some (p, cs) \<Rightarrow>
          if 0xD800 \<le> p \<and> p \<le> 0xDFFF then Some (0xFFFD, cs)
          else map_option (\<lambda>c. (c, cs)) (from_u32 p))"

definition is_octal_digit :: "rchar \<Rightarrow> bool" where
  "is_octal_digit c \<longleftrightarrow> ch CHR ''0'' \<le> c \<and> c \<le> ch CHR ''7''"

text \<open>The loop of \<open>parse_octet\<close> and its result: \<open>from_str_radix\<close> of at most three
  octal digits, which is always the number of a character.\<close>

fun octet_digits :: "rchar list \<Rightarrow> rchar list \<Rightarrow> rchar list \<times> rchar list" where
  "octet_digits octet [] = (octet, [])"
| "octet_digits octet (c # cs) =
     (if length octet < 3 \<and> is_octal_digit c then octet_digits (octet @ [c]) cs
      else (octet, c # cs))"

definition parse_octet :: "rchar \<Rightarrow> rchar list \<Rightarrow> rchar \<times> rchar list" where
  "parse_octet c cs =
     (let (octet, cs) = octet_digits [c] cs
      in (foldl (\<lambda>v d. v * 8 + (d - ch CHR ''0'')) 0 octet, cs))"

fun unicode_name :: "rchar list \<Rightarrow> rchar list \<Rightarrow> (rchar list \<times> rchar list) option" where
  "unicode_name name [] = None"
| "unicode_name name (c # cs) =
     (if c = ch CHR ''}'' then Some (name, cs) else unicode_name (name @ [c]) cs)"

definition parse_unicode_name ::
  "(rchar list \<Rightarrow> rchar option) \<Rightarrow> rchar list \<Rightarrow> (rchar \<times> rchar list) option" where
  "parse_unicode_name names cs =
     (case cs of
        [] \<Rightarrow> None
      | c # cs \<Rightarrow>
          if c = ch CHR ''{'' then
            (case unicode_name [] cs of
               None \<Rightarrow> None
             | Some (name, cs) \<Rightarrow> map_option (\<lambda>c. (c, cs)) (names name))
          else None)"

lemma unicode_digits_length: "unicode_digits k p cs = Some (q, ds) \<Longrightarrow> length ds \<le> length cs"
  by (induction k p cs rule: unicode_digits.induct) (auto split: option.splits)

lemma unicode_literal_length: "unicode_literal k cs = Some (c, ds) \<Longrightarrow> length ds \<le> length cs"
  by (auto simp: unicode_literal_def dest!: unicode_digits_length split: option.splits if_splits)

lemma octet_digits_length: "length (snd (octet_digits o1 cs)) \<le> length cs"
  by (induction o1 cs rule: octet_digits.induct) auto

lemma parse_octet_length: "length (snd (parse_octet c cs)) \<le> length cs"
  by (simp add: parse_octet_def case_prod_beta octet_digits_length)

lemma unicode_name_length: "unicode_name n cs = Some (m, ds) \<Longrightarrow> length ds \<le> length cs"
  by (induction n cs rule: unicode_name.induct) (auto split: if_splits)

lemma parse_unicode_name_length:
  "parse_unicode_name names cs = Some (c, ds) \<Longrightarrow> length ds \<le> length cs"
  by (auto simp: parse_unicode_name_def dest!: unicode_name_length
      split: option.splits list.splits if_splits)

section \<open>The content of a string\<close>

text \<open>What follows a backslash outside a raw string: the characters the escape stands
  for and the rest of the content, or \<open>None\<close> for an error.\<close>

definition eval_escape ::
  "(rchar list \<Rightarrow> rchar option) \<Rightarrow> bool \<Rightarrow> rchar \<Rightarrow> rchar list \<Rightarrow> (rchar list \<times> rchar list) option" where
  "eval_escape names is_bytes c cs =
     (if c = ch CHR 0x5C then Some ([ch CHR 0x5C], cs)
      else if c = ch CHR 0x27 then Some ([ch CHR 0x27], cs)
      else if c = ch CHR 0x22 then Some ([ch CHR 0x22], cs)
      else if c = ch CHR 0x0A then Some ([], cs)
      else if c = ch CHR ''a'' then Some ([0x07], cs)
      else if c = ch CHR ''b'' then Some ([0x08], cs)
      else if c = ch CHR ''f'' then Some ([0x0C], cs)
      else if c = ch CHR ''n'' then Some ([0x0A], cs)
      else if c = ch CHR ''r'' then Some ([0x0D], cs)
      else if c = ch CHR ''t'' then Some ([0x09], cs)
      else if c = ch CHR ''v'' then Some ([0x0B], cs)
      else if is_octal_digit c then (let (o1, cs) = parse_octet c cs in Some ([o1], cs))
      else if c = ch CHR ''x'' then map_option (\<lambda>(p, cs). ([p], cs)) (unicode_literal 2 cs)
      else if c = ch CHR ''u'' \<and> \<not> is_bytes then
        map_option (\<lambda>(p, cs). ([p], cs)) (unicode_literal 4 cs)
      else if c = ch CHR ''U'' \<and> \<not> is_bytes then
        map_option (\<lambda>(p, cs). ([p], cs)) (unicode_literal 8 cs)
      else if c = ch CHR ''N'' \<and> \<not> is_bytes then
        map_option (\<lambda>(p, cs). ([p], cs)) (parse_unicode_name names cs)
      else Some ([ch CHR 0x5C, c], cs))"

lemma eval_escape_length:
  "eval_escape names is_bytes c cs = Some (out, ds) \<Longrightarrow> length ds \<le> length cs"
  using parse_octet_length [of c cs]
  by (auto simp: eval_escape_def case_prod_beta
      dest: unicode_literal_length parse_unicode_name_length split: if_splits)

function content_loop ::
  "(rchar list \<Rightarrow> rchar option) \<Rightarrow> rchar \<Rightarrow> bool \<Rightarrow> bool \<Rightarrow> bool \<Rightarrow> rchar list \<Rightarrow> rchar list
     \<Rightarrow> rchar list option" where
  "content_loop names quote_char triple is_bytes is_raw out [] = Some out"
| "content_loop names quote_char triple is_bytes is_raw out (c # cs) =
     (if c = ch CHR 0x5C then
        (case cs of
           [] \<Rightarrow> None
         | d # ds \<Rightarrow>
             if d = quote_char \<and> \<not> is_raw then
               content_loop names quote_char triple is_bytes is_raw (out @ [quote_char]) ds
             else if is_raw then
               content_loop names quote_char triple is_bytes is_raw (out @ [ch CHR 0x5C, d]) ds
             else
               (case eval_escape names is_bytes d ds of
                  None \<Rightarrow> None
                | Some (e, rest) \<Rightarrow>
                    content_loop names quote_char triple is_bytes is_raw (out @ e) rest))
      else if (c = ch CHR 0x0A \<and> \<not> triple) \<or> (is_bytes \<and> \<not> is_ascii c) then None
      else content_loop names quote_char triple is_bytes is_raw (out @ [c]) cs)"
  by pat_completeness auto
termination
  by (relation "measure (\<lambda>(_, _, _, _, _, _, cs). length cs)")
    (auto dest!: eval_escape_length)

definition str_content_eval ::
  "(rchar list \<Rightarrow> rchar option) \<Rightarrow> rchar list \<Rightarrow> rchar \<Rightarrow> bool \<Rightarrow> bool \<Rightarrow> bool \<Rightarrow> rchar list option" where
  "str_content_eval names string_content quote_char triple is_bytes is_raw =
     content_loop names quote_char triple is_bytes is_raw [] string_content"

section \<open>Escaping and evaluating\<close>

lemma content_loop_escaped:
  assumes "is_quote q" "triple \<or> ch CHR 0x0A \<notin> set body"
  shows "content_loop names q triple False False out (escape_str q body @ cs)
    = content_loop names q triple False False (out @ body) cs"
  using assms(2)
proof (induction body arbitrary: out)
  case (Cons c body)
  then show ?case
    using quote_facts(1) [OF assms(1)] by (auto simp: eval_escape_def)
qed simp

lemma str_content_eval_escaped:
  "is_quote q \<Longrightarrow> triple \<or> ch CHR 0x0A \<notin> set body \<Longrightarrow>
     str_content_eval names (escape_str q body) q triple False False = Some body"
  using content_loop_escaped [of q triple body names "[]" "[]"]
  by (simp add: str_content_eval_def)

end
