(* ===== verification/Ast_Token.thy ===== *)
theory Ast_Token
  imports Lexer
begin

text \<open>
  The tokens the parser consumes, \<open>src/crates/ast/src/token.rs\<close>, and the spans
  they carry, \<open>src/compiler_base/3rdparty/rustc_span/src\<close>.  A \<open>Symbol\<close> is an
  interned string; symbols are equal when their strings are, so the model keeps the
  string.  Constructors whose names the low-level tokens already use carry the
  suffix \<open>_t\<close>.
\<close>

section \<open>Spans\<close>

type_synonym byte_pos = u32

record span_data =
  data_lo :: byte_pos
  data_hi :: byte_pos

record span =
  base_or_index :: "32 word"
  len_or_tag :: "16 word"

definition DUMMY_SP :: span where
  "DUMMY_SP = \<lparr>base_or_index = 0, len_or_tag = 0\<rparr>"

definition span_new :: "byte_pos \<Rightarrow> byte_pos \<Rightarrow> span" where
  "span_new lo hi =
     (let (lo, hi) = (if lo > hi then (hi, lo) else (lo, hi))
      in \<lparr>base_or_index = lo, len_or_tag = ucast (hi - lo)\<rparr>)"

definition data_untracked :: "span \<Rightarrow> span_data" where
  "data_untracked s =
     \<lparr>data_lo = base_or_index s, data_hi = base_or_index s + ucast (len_or_tag s)\<rparr>"

definition span_lo :: "span \<Rightarrow> byte_pos" where
  "span_lo s = data_lo (data_untracked s)"

definition span_hi :: "span \<Rightarrow> byte_pos" where
  "span_hi s = data_hi (data_untracked s)"

text \<open>\<open>SpanData::contains\<close> and \<open>is_dummy\<close>.\<close>

definition contains :: "span_data \<Rightarrow> span_data \<Rightarrow> bool" where
  "contains s other \<longleftrightarrow> data_lo s \<le> data_lo other \<and> data_hi other \<le> data_hi s"

definition is_dummy :: "span_data \<Rightarrow> bool" where
  "is_dummy s \<longleftrightarrow> data_lo s = 0 \<and> data_hi s = 0"

lemma mod_if_lt: "(n :: nat) mod 2 ^ k = n \<longleftrightarrow> n < 2 ^ k"
  by (metis mod_less mod_less_divisor zero_less_numeral zero_less_power)

lemma unat_eq_iff: "x = y \<longleftrightarrow> unat x = unat (y :: 'a :: len word)"
  by (simp add: word_eq_iff_unsigned)

lemma unat_len_or_tag:
  fixes x :: "32 word"
  shows "unat (ucast (ucast x :: 16 word) :: 32 word) = unat x mod 2 ^ 16"
proof -
  have "unat (ucast (ucast x :: 16 word) :: 32 word) = take_bit 16 (unat x)"
    by (simp add: unsigned_ucast_eq unsigned_take_bit_eq)
  then show ?thesis by (simp add: take_bit_eq_mod)
qed

text \<open>A span gives back its start, and its end exactly when it covers fewer than
  65536 bytes: \<open>Span::new\<close> keeps only the low 16 bits of the length.\<close>

theorem span_new_roundtrip:
  assumes "lo \<le> hi"
  shows "span_lo (span_new lo hi) = lo \<and> (span_hi (span_new lo hi) = hi \<longleftrightarrow> unat (hi - lo) < 2 ^ 16)"
proof -
  have "span_hi (span_new lo hi) = lo + ucast (ucast (hi - lo) :: 16 word)"
    and lo: "span_lo (span_new lo hi) = lo"
    using assms by (auto simp: span_new_def span_hi_def span_lo_def data_untracked_def)
  then have "span_hi (span_new lo hi) = hi \<longleftrightarrow> ucast (ucast (hi - lo) :: 16 word) = hi - lo"
    by (auto simp: algebra_simps)
  also have "\<dots> \<longleftrightarrow> unat (ucast (ucast (hi - lo) :: 16 word) :: 32 word) = unat (hi - lo)"
    by (rule unat_eq_iff)
  also have "\<dots> \<longleftrightarrow> unat (hi - lo) < 2 ^ 16"
    unfolding unat_len_or_tag by (rule mod_if_lt)
  finally show ?thesis using lo by simp
qed

theorem span_new_roundtrip_witness:
  "span_lo (span_new 3 0x10003) = 3 \<and> span_hi (span_new 3 0x10003) \<noteq> 0x10003
   \<and> (3 :: byte_pos) \<le> 0x10003"
  using span_new_roundtrip [of 3 "0x10003"] by simp

section \<open>Tokens\<close>

type_synonym symbol = "rchar list"

abbreviation (input) VALID_SPACES_LENGTH :: nat where
  "VALID_SPACES_LENGTH \<equiv> 0"

datatype comment_kind = Line symbol

datatype unary_op_token = UTilde | UNot

datatype bin_op_token =
    Plus_t | Minus_t | Star_t | Slash_t | Percent_t | StarStar_t | SlashSlash_t
  | Caret_t | And_t | Or_t | Shl | Shr

datatype bin_cmp_token = Eq_t | NotEq | Lt_t | LtEq_t | Gt_t | GtEq_t

datatype delim_token = Paren | Bracket | Brace | NoDelim

datatype lit_kind =
    Bool_lit
  | Integer
  | Float_lit
  | Str_lit bool bool
  | None_lit
  | Undefined
  | Err

record lit =
  lit_kind :: lit_kind
  symbol :: symbol
  suffix_sym :: "symbol option"
  raw :: "symbol option"

datatype (plugins only: code size) ast_kind =
    UnaryOp unary_op_token
  | BinOp bin_op_token
  | BinOpEq bin_op_token
  | BinCmp bin_cmp_token
  | At_t | Dot_t | DotDotDot_t | Comma_t | Colon_t | RArrow | Dollar_t | Question_t | Assign
  | OpenDelim delim_token
  | CloseDelim delim_token
  | Literal_t lit
  | Ident_t symbol
  | DocComment comment_kind
  | Indent nat
  | Dedent nat
  | Newline_t
  | Dummy
  | Eof

record ast_token =
  tok_kind :: ast_kind
  span :: span

definition token_new :: "ast_kind \<Rightarrow> span \<Rightarrow> ast_token" where
  "token_new k s = \<lparr>tok_kind = k, span = s\<rparr>"

definition token_dummy :: ast_token where
  "token_dummy = token_new Dummy DUMMY_SP"

fun lit_kind_string :: "lit_kind \<Rightarrow> string" where
  "lit_kind_string Bool_lit = ''bool''"
| "lit_kind_string Integer = ''int''"
| "lit_kind_string Float_lit = ''float''"
| "lit_kind_string (Str_lit _ _) = ''str''"
| "lit_kind_string None_lit = ''None''"
| "lit_kind_string Undefined = ''Undefined''"
| "lit_kind_string Err = ''error''"

text \<open>\<open>impl From<TokenKind> for String\<close>, and the operator tables inside it.\<close>

fun bin_op_string :: "bin_op_token \<Rightarrow> string" where
  "bin_op_string Plus_t = ''+''"
| "bin_op_string Minus_t = ''-''"
| "bin_op_string Star_t = ''*''"
| "bin_op_string Slash_t = ''/''"
| "bin_op_string Percent_t = ''%''"
| "bin_op_string StarStar_t = ''**''"
| "bin_op_string SlashSlash_t = ''//''"
| "bin_op_string Caret_t = ''^''"
| "bin_op_string And_t = ''&''"
| "bin_op_string Or_t = ''|''"
| "bin_op_string Shl = ''<<''"
| "bin_op_string Shr = ''>>''"

fun bin_cmp_string :: "bin_cmp_token \<Rightarrow> string" where
  "bin_cmp_string Eq_t = ''==''"
| "bin_cmp_string NotEq = ''!=''"
| "bin_cmp_string Lt_t = ''<''"
| "bin_cmp_string LtEq_t = ''<=''"
| "bin_cmp_string Gt_t = ''>''"
| "bin_cmp_string GtEq_t = ''>=''"

fun token_kind_string :: "ast_kind \<Rightarrow> string" where
  "token_kind_string (UnaryOp UTilde) = ''~''"
| "token_kind_string (UnaryOp UNot) = ''not''"
| "token_kind_string (BinOp b) = bin_op_string b"
| "token_kind_string (BinOpEq b) = bin_op_string b @ ''=''"
| "token_kind_string (BinCmp b) = bin_cmp_string b"
| "token_kind_string At_t = ''@''"
| "token_kind_string Dot_t = ''.''"
| "token_kind_string DotDotDot_t = ''...''"
| "token_kind_string Comma_t = '',''"
| "token_kind_string Colon_t = '':''"
| "token_kind_string RArrow = ''->''"
| "token_kind_string Dollar_t = ''$''"
| "token_kind_string Question_t = ''?''"
| "token_kind_string Assign = ''=''"
| "token_kind_string (OpenDelim Paren) = ''(''"
| "token_kind_string (OpenDelim Bracket) = ''[''"
| "token_kind_string (OpenDelim Brace) = ''{''"
| "token_kind_string (OpenDelim NoDelim) = ''open_no_delim''"
| "token_kind_string (CloseDelim Paren) = '')''"
| "token_kind_string (CloseDelim Bracket) = '']''"
| "token_kind_string (CloseDelim Brace) = ''}''"
| "token_kind_string (CloseDelim NoDelim) = ''close_no_delim''"
| "token_kind_string (Literal_t l) = (case lit_kind l of
       Bool_lit \<Rightarrow> ''bool'' | Integer \<Rightarrow> ''integer'' | Float_lit \<Rightarrow> ''float''
     | Str_lit _ _ \<Rightarrow> ''string'' | None_lit \<Rightarrow> ''None'' | Undefined \<Rightarrow> ''Undefined'' | Err \<Rightarrow> ''err'')"
| "token_kind_string (Ident_t _) = ''identifier''"
| "token_kind_string (DocComment (Line _)) = ''inline_comment''"
| "token_kind_string (Indent _) = ''indent''"
| "token_kind_string (Dedent _) = ''dedent''"
| "token_kind_string Newline_t = ''newline''"
| "token_kind_string Dummy = ''dummy''"
| "token_kind_string Eof = ''eof''"

definition token_string :: "ast_token \<Rightarrow> symbol" where
  "token_string t = (case tok_kind t of
       Literal_t lk \<Rightarrow> (case suffix_sym lk of Some suf \<Rightarrow> symbol lk @ suf | None \<Rightarrow> symbol lk)
     | k \<Rightarrow> map of_char (token_kind_string k))"

definition ident :: "ast_token \<Rightarrow> (symbol \<times> span) option" where
  "ident t = (case tok_kind t of Ident_t name \<Rightarrow> Some (name, span t) | _ \<Rightarrow> None)"

definition run_on_ident :: "ast_token \<Rightarrow> (symbol \<times> span \<Rightarrow> bool) \<Rightarrow> bool" where
  "run_on_ident t pred = (case ident t of Some i \<Rightarrow> pred i | None \<Rightarrow> False)"

definition is_keyword :: "ast_token \<Rightarrow> symbol \<Rightarrow> bool" where
  "is_keyword t kw = run_on_ident t (\<lambda>i. fst i = kw)"

definition is_string_lit :: "ast_token \<Rightarrow> bool" where
  "is_string_lit t = (case tok_kind t of
       Literal_t l \<Rightarrow> (case lit_kind l of Str_lit _ _ \<Rightarrow> True | _ \<Rightarrow> False)
     | _ \<Rightarrow> False)"

definition is_in_recovery_set :: "ast_token \<Rightarrow> bool" where
  "is_in_recovery_set t = (case tok_kind t of
       Indent n \<Rightarrow> n = VALID_SPACES_LENGTH | Dummy \<Rightarrow> True | _ \<Rightarrow> False)"

end
