(* ===== verification/Parse_Lexer.thy ===== *)
theory Parse_Lexer
  imports String_Content Ast_Token
begin

text \<open>
  The lexer of the parser, \<open>src/crates/parser/src/lexer\<close>: it reads the source with
  the low-level lexer, turns each low-level token into a token of the parser
  (\<open>lex_token\<close>, \<open>lex_literal\<close>), keeps the stack of open delimiters and the
  stack of indentation levels (\<open>indent.rs\<close>), reports errors to the parse session
  and produces the token stream (\<open>into_tokens\<close>).  Positions are \<open>u32\<close> as in
  the source.  The two vectors that are used as stacks have their top first.  A
  panic (a \<open>bug!\<close>, a slice that is out of range or inside a character) is a
  value of \<open>lexer_panic\<close>; a loop that would not end is \<open>None\<close>.
\<close>

section \<open>Slices of the source\<close>

fun take_bytes :: "nat \<Rightarrow> rchar list \<Rightarrow> rchar list option" where
  "take_bytes n [] = (if n = 0 then Some [] else None)"
| "take_bytes n (c # cs) =
     (if n = 0 then Some []
      else if n < len_utf8 c then None
      else map_option (Cons c) (take_bytes (n - len_utf8 c) cs))"

definition slice_bytes :: "nat \<Rightarrow> nat \<Rightarrow> rchar list \<Rightarrow> rchar list option" where
  "slice_bytes a b cs =
     (if a \<le> b then
        (case drop_bytes a cs of Some r \<Rightarrow> take_bytes (b - a) r | None \<Rightarrow> None)
      else None)"

text \<open>The UTF-8 encoding, for \<open>as_bytes\<close>.\<close>

definition utf8_encode :: "rchar \<Rightarrow> nat list" where
  "utf8_encode c =
     (if c < 0x80 then [c]
      else if c < 0x800 then [0xC0 + c div 64, 0x80 + c mod 64]
      else if c < 0x10000 then [0xE0 + c div 4096, 0x80 + c div 64 mod 64, 0x80 + c mod 64]
      else [0xF0 + c div 262144, 0x80 + c div 4096 mod 64, 0x80 + c div 64 mod 64, 0x80 + c mod 64])"

definition as_bytes :: "rchar list \<Rightarrow> nat list" where
  "as_bytes cs = concat (map utf8_encode cs)"

section \<open>The state of the lexer\<close>

datatype lexer_panic =
    BugImpossible
  | BugInvalidTokenStart
  | SliceOutOfRange

datatype parse_message =
    InvalidTokenNot
  | InvalidTokenElseIf
  | UnterminatedString
  | CharAfterLineContinuationToken
  | RedundantSemicolon
  | ExpectExpr string
  | InvalidStringInterpolationExpr string
  | InvalidJoinedStringSpec
  | InvalidJoinedStringExpr

datatype parse_error =
    UnexpectedToken "string list" string span
  | Message parse_message span "string list option"
  | StringError string span

record indent_level =
  level_tabs :: nat
  level_spaces :: nat

record indent_context =
  new_line_beginning :: bool
  delims :: "ast_kind list"
  tabs :: nat
  spaces :: nat
  indents :: "indent_level list"

record lexer =
  start_pos :: byte_pos
  pos :: byte_pos
  tok_start_pos :: byte_pos
  end_src_index :: nat
  src :: "rchar list"
  indent_cxt :: indent_context
  errors :: "parse_error list"

datatype indent_or_dedents =
    IndentTok ast_token
  | Dedents "ast_token list"

datatype token_with_indents =
    Token ast_token
  | WithIndent ast_token indent_or_dedents

type_synonym token_buf = "ast_token list"

definition add_parse_err :: "parse_error \<Rightarrow> lexer \<Rightarrow> lexer" where
  "add_parse_err e lx = lx\<lparr>errors := errors lx @ [e]\<rparr>"

definition struct_span_error :: "string \<Rightarrow> span \<Rightarrow> lexer \<Rightarrow> lexer" where
  "struct_span_error msg sp lx = add_parse_err (StringError msg sp) lx"

definition struct_message_error ::
  "parse_message \<Rightarrow> span \<Rightarrow> string list option \<Rightarrow> lexer \<Rightarrow> lexer" where
  "struct_message_error m sp suggestions lx = add_parse_err (Message m sp suggestions) lx"

abbreviation map_cxt :: "(indent_context \<Rightarrow> indent_context) \<Rightarrow> lexer \<Rightarrow> lexer" where
  "map_cxt f lx \<equiv> lx\<lparr>indent_cxt := f (indent_cxt lx)\<rparr>"

section \<open>Indentation\<close>

definition default_level :: indent_level where
  "default_level = \<lparr>level_tabs = 0, level_spaces = 0\<rparr>"

abbreviation nat_cmp :: "nat \<Rightarrow> nat \<Rightarrow> ordering" where
  "nat_cmp \<equiv> ordering_of (<)"

definition inconsistent_msg :: string where
  "inconsistent_msg = ''inconsistent use of tabs and spaces in indentation''"

definition level_cmp :: "indent_level \<Rightarrow> indent_level \<Rightarrow> string + ordering" where
  "level_cmp a b =
     (case nat_cmp (level_tabs a) (level_tabs b) of
        Less \<Rightarrow> if level_spaces a \<le> level_spaces b then Inr Less else Inl inconsistent_msg
      | Greater \<Rightarrow> if level_spaces a \<ge> level_spaces b then Inr Greater else Inl inconsistent_msg
      | Equal \<Rightarrow> Inr (nat_cmp (level_spaces a) (level_spaces b)))"

definition here :: "lexer \<Rightarrow> span" where
  "here lx = span_new (pos lx) (pos lx)"

definition last_indent :: "lexer \<Rightarrow> indent_level \<times> lexer" where
  "last_indent lx =
     (case indents (indent_cxt lx) of
        l # _ \<Rightarrow> (l, lx)
      | [] \<Rightarrow> (default_level,
          map_cxt (indents_update (\<lambda>_. [default_level]))
            (struct_span_error ''mismatched indent level'' (here lx) lx)))"

lemma level_cmp_default: "level_cmp l default_level \<noteq> Inr Less"
  by (simp add: level_cmp_def ordering_of_def default_level_def)

text \<open>The loop of \<open>lex_indent\<close> that pops levels until it finds the one of the line.
  It is entered with the comparison of the line against the top level.\<close>

function dedent_loop ::
  "indent_level \<Rightarrow> indent_level \<Rightarrow> string + ordering \<Rightarrow> indent_level list \<Rightarrow> token_buf \<Rightarrow> lexer
     \<Rightarrow> token_buf \<times> lexer" where
  "dedent_loop indent cur_indent cmp popped dedents lx =
     (case cmp of
        Inr Less \<Rightarrow>
          (let popped = take 1 (indents (indent_cxt lx)) @ popped;
               lx = map_cxt (indents_update tl) lx;
               dedents = dedents @ [token_new (Dedent VALID_SPACES_LENGTH) (here lx)];
               (cur_indent, lx) = last_indent lx
           in dedent_loop indent cur_indent (level_cmp indent cur_indent) popped dedents lx)
      | Inr Equal \<Rightarrow> (dedents, lx)
      | Inr Greater \<Rightarrow>
          (let spaces_diff = level_spaces indent - level_spaces cur_indent;
               lx = map_cxt (indents_update (\<lambda>ls. take 1 popped @ ls)) lx
           in (butlast dedents @ [token_new (Dedent spaces_diff) (here lx)], lx))
      | Inl msg \<Rightarrow> (dedents, struct_span_error msg (here lx) lx))"
  by pat_completeness auto
termination
proof (relation "measure (\<lambda>(_, _, cmp, _, _, lx).
    if cmp = Inr Less then Suc (length (indents (indent_cxt lx))) else 0)")
qed (auto simp: last_indent_def level_cmp_default neq_Nil_conv dest!: arg_cong [of "tl _" _ length]
  split: list.splits)

declare dedent_loop.simps [simp del]

definition lex_indent :: "lexer \<Rightarrow> indent_or_dedents option \<times> lexer" where
  "lex_indent lx =
     (let cxt = indent_cxt lx;
          indent = \<lparr>level_tabs = tabs cxt, level_spaces = spaces cxt\<rparr>;
          lx = map_cxt (\<lambda>c. c\<lparr>tabs := 0, spaces := 0\<rparr>) lx;
          (cur_indent, lx) = last_indent lx
      in case level_cmp indent cur_indent of
           Inr Greater \<Rightarrow>
             (Some (IndentTok (token_new (Indent VALID_SPACES_LENGTH) (here lx))),
              map_cxt (indents_update (Cons indent)) lx)
         | Inr Less \<Rightarrow>
             (let (dedents, lx) =
                dedent_loop indent cur_indent (level_cmp indent cur_indent) [] [] lx
              in (Some (Dedents dedents), lx))
         | Inr Equal \<Rightarrow> (None, lx)
         | Inl msg \<Rightarrow> (None, struct_span_error msg (here lx) lx))"

definition lex_indent_context :: "token_kind \<Rightarrow> lexer \<Rightarrow> indent_or_dedents option \<times> lexer" where
  "lex_indent_context tk lx =
     (if \<not> new_line_beginning (indent_cxt lx) then (None, lx)
      else case tk of
        LineComment _ \<Rightarrow> (None, map_cxt (\<lambda>c. c\<lparr>tabs := 0, spaces := 0\<rparr>) lx)
      | Newline \<Rightarrow> (None, map_cxt (\<lambda>c. c\<lparr>tabs := 0, spaces := 0\<rparr>) lx)
      | Tab \<Rightarrow> (None, map_cxt (\<lambda>c. c\<lparr>tabs := tabs c + 1\<rparr>) lx)
      | Space \<Rightarrow> (None, map_cxt (\<lambda>c. c\<lparr>spaces := spaces c + 1\<rparr>) lx)
      | _ \<Rightarrow> lex_indent (map_cxt (\<lambda>c. c\<lparr>new_line_beginning := False\<rparr>) lx))"

section \<open>Literals\<close>

definition src_index :: "lexer \<Rightarrow> byte_pos \<Rightarrow> nat" where
  "src_index lx p = unat (p - start_pos lx)"

definition char_from :: "lexer \<Rightarrow> byte_pos \<Rightarrow> lexer_panic + rchar" where
  "char_from lx p =
     (if src_index lx p < length (as_bytes (src lx)) then Inr (as_bytes (src lx) ! src_index lx p)
      else Inl SliceOutOfRange)"

definition str_from_to :: "lexer \<Rightarrow> byte_pos \<Rightarrow> byte_pos \<Rightarrow> lexer_panic + rchar list" where
  "str_from_to lx start stop =
     (case slice_bytes (src_index lx start) (src_index lx stop) (src lx) of
        Some s \<Rightarrow> Inr s | None \<Rightarrow> Inl SliceOutOfRange)"

definition str_from :: "lexer \<Rightarrow> byte_pos \<Rightarrow> lexer_panic + rchar list" where
  "str_from lx start = str_from_to lx start (pos lx)"

definition base_radix :: "base \<Rightarrow> nat option" where
  "base_radix b = (case b of Binary \<Rightarrow> Some 2 | Octal \<Rightarrow> Some 8 | Hexadecimal \<Rightarrow> Some 16 | Decimal \<Rightarrow> None)"

text \<open>The first character of the text, with its byte index, that is no digit.\<close>

fun invalid_digit :: "nat \<Rightarrow> nat \<Rightarrow> rchar list \<Rightarrow> (nat \<times> rchar) option" where
  "invalid_digit radix idx [] = None"
| "invalid_digit radix idx (c # cs) =
     (if c \<noteq> ch CHR ''_'' \<and> to_digit radix c = None then Some (idx, c)
      else invalid_digit radix (idx + len_utf8 c) cs)"

definition show_pos :: "byte_pos \<Rightarrow> string" where
  "show_pos p = show_nat (unat p)"

definition validate_literal_int ::
  "base \<Rightarrow> byte_pos \<Rightarrow> byte_pos \<Rightarrow> lexer \<Rightarrow> lexer_panic + (bool \<times> lexer)" where
  "validate_literal_int bs content_start content_end lx =
     (case base_radix bs of
        None \<Rightarrow> Inr (True, lx)
      | Some radix \<Rightarrow>
          (case str_from_to lx (content_start + 2) content_end of
             Inl p \<Rightarrow> Inl p
           | Inr s \<Rightarrow>
               (case invalid_digit radix 0 s of
                  None \<Rightarrow> Inr (True, lx)
                | Some (idx, c) \<Rightarrow>
                    (let lo = content_start + (2 + of_nat idx);
                         hi = content_start + (2 + of_nat idx + of_nat (len_utf8 c))
                     in Inr (False,
                          struct_span_error
                            (''invalid digit for a base '' @ show_nat radix @ '' literal, start: ''
                              @ show_pos lo @ '', stop: '' @ show_pos hi)
                            (span_new lo (pos lx)) lx)))))"

definition validate_literal_float :: "base \<Rightarrow> byte_pos \<Rightarrow> bool \<Rightarrow> lexer \<Rightarrow> bool \<times> lexer" where
  "validate_literal_float bs start empty_exponent lx =
     (if empty_exponent then
        (False, struct_span_error ''expected at least one digit in exponent'' (span_new start (pos lx)) lx)
      else case bs of
        Decimal \<Rightarrow> (True, lx)
      | _ \<Rightarrow> (False, struct_span_error (describe bs @ '' float literal is not supported'')
                 (span_new start (pos lx)) lx))"

definition sym :: "string \<Rightarrow> symbol" where
  "sym s = map of_char s"

text \<open>\<open>NumberBinarySuffix::all_names\<close>.\<close>

definition all_names :: "symbol list" where
  "all_names = map sym
     [''n'', ''u'', ''m'', ''k'', ''K'', ''M'', ''G'', ''T'', ''P'', ''Ki'', ''Mi'', ''Gi'', ''Ti'', ''Pi'', ''i'']"

text \<open>The string arm of \<open>lex_literal\<close>.\<close>

definition invalid_string :: "byte_pos \<Rightarrow> lexer \<Rightarrow> symbol \<times> lexer" where
  "invalid_string content_start lx =
     ([], struct_span_error ''invalid string syntax'' (span_new content_start (pos lx)) lx)"

definition lex_string ::
  "(rchar list \<Rightarrow> rchar option) \<Rightarrow> byte_pos \<Rightarrow> byte_pos \<Rightarrow> bool \<Rightarrow> bool \<Rightarrow> lexer
     \<Rightarrow> lexer_panic + (lit \<times> lexer)" where
  "lex_string names start suffix_start terminated triple lx =
     (case char_from lx start of
        Inl p \<Rightarrow> Inl p
      | Inr start_char \<Rightarrow>
      let is_raw = is_raw_prefix start_char;
          quote_char_pos = (if is_raw then start + 1 else start)
      in case char_from lx quote_char_pos of
        Inl p \<Rightarrow> Inl p
      | Inr quote_char \<Rightarrow>
      let lx = (if \<not> terminated
                then struct_span_error ''unterminated string'' (span_new quote_char_pos (pos lx)) lx
                else lx);
          offset = (if triple then (if is_raw then 4 else 3) else if is_raw then 2 else 1);
          content_start = start + offset;
          content_end = suffix_start - offset;
          content_end = (if is_raw then content_end + 1 else content_end);
          content_end = (if \<not> terminated then content_end + (if triple then 3 else 1) else content_end)
      in case
        (if content_start > content_end then Inr (invalid_string content_start lx)
         else case str_from_to lx content_start content_end of
             Inl p \<Rightarrow> Inl p
           | Inr content \<Rightarrow>
               (case str_content_eval names content quote_char triple False is_raw of
                  Some v \<Rightarrow> Inr (v, lx)
                | None \<Rightarrow> Inr (invalid_string content_start lx))) of
        Inl p \<Rightarrow> Inl p
      | Inr (value, lx) \<Rightarrow>
      case str_from_to lx start suffix_start of
        Inl p \<Rightarrow> Inl p
      | Inr raw_text \<Rightarrow>
          Inr (\<lparr>lit_kind = Str_lit triple is_raw, symbol = value, suffix_sym = None, raw = Some raw_text\<rparr>, lx))"

definition lex_suffix :: "byte_pos \<Rightarrow> byte_pos \<Rightarrow> lexer \<Rightarrow> lexer_panic + (symbol option \<times> lexer)" where
  "lex_suffix start suffix_start lx =
     (if suffix_start < pos lx then
        (case str_from lx suffix_start of
           Inl p \<Rightarrow> Inl p
         | Inr s \<Rightarrow>
             if s \<notin> set all_names then
               Inr (None, struct_span_error ''invalid int binary suffix'' (span_new start (pos lx)) lx)
             else Inr (Some s, lx))
      else Inr (None, lx))"

definition lex_int ::
  "byte_pos \<Rightarrow> byte_pos \<Rightarrow> base \<Rightarrow> bool \<Rightarrow> lexer \<Rightarrow> lexer_panic + (lit \<times> lexer)" where
  "lex_int start suffix_start bs empty_int lx =
     (if empty_int then
        Inr (\<lparr>lit_kind = Integer, symbol = sym ''0'', suffix_sym = None, raw = None\<rparr>,
          struct_span_error ''no valid digits found for number'' (span_new start (pos lx)) lx)
      else case validate_literal_int bs start suffix_start lx of
        Inl p \<Rightarrow> Inl p
      | Inr (ok, lx) \<Rightarrow>
      case (if ok then str_from_to lx start suffix_start else Inr (sym ''0'')) of
        Inl p \<Rightarrow> Inl p
      | Inr s \<Rightarrow>
      case lex_suffix start suffix_start lx of
        Inl p \<Rightarrow> Inl p
      | Inr (sfx, lx) \<Rightarrow>
          Inr (\<lparr>lit_kind = Integer, symbol = s, suffix_sym = sfx, raw = None\<rparr>, lx))"

definition lex_literal ::
  "(rchar list \<Rightarrow> rchar option) \<Rightarrow> byte_pos \<Rightarrow> byte_pos \<Rightarrow> literal_kind \<Rightarrow> lexer
     \<Rightarrow> lexer_panic + (lit \<times> lexer)" where
  "lex_literal names start suffix_start k lx =
     (case k of
        Str_kind terminated triple \<Rightarrow> lex_string names start suffix_start terminated triple lx
      | Int_kind bs empty_int \<Rightarrow> lex_int start suffix_start bs empty_int lx
      | Float_kind bs empty_exponent \<Rightarrow>
          (let (ok, lx) = validate_literal_float bs start empty_exponent lx
           in case (if ok then str_from_to lx start suffix_start else Inr (sym ''0'')) of
                Inl p \<Rightarrow> Inl p
              | Inr s \<Rightarrow> Inr (\<lparr>lit_kind = Float_lit, symbol = s, suffix_sym = None, raw = None\<rparr>, lx))
      | Bool_kind _ \<Rightarrow>
          (case str_from_to lx start suffix_start of
             Inl p \<Rightarrow> Inl p
           | Inr s \<Rightarrow> Inr (\<lparr>lit_kind = Bool_lit, symbol = s, suffix_sym = None, raw = None\<rparr>, lx)))"

section \<open>Tokens\<close>

definition peek_tok_kind :: "token_buf \<Rightarrow> ast_kind" where
  "peek_tok_kind buf = (if buf = [] then Dummy else tok_kind (last buf))"

definition pop_if_tok_kind :: "ast_kind \<Rightarrow> token_buf \<Rightarrow> ast_token option \<times> token_buf" where
  "pop_if_tok_kind expected buf =
     (if peek_tok_kind buf = expected then
        (if buf = [] then (None, buf) else (Some (last buf), butlast buf))
      else (None, buf))"

definition look_behind ::
  "token_kind \<Rightarrow> token_buf \<Rightarrow> lexer \<Rightarrow> lexer_panic + (ast_kind option \<times> token_buf \<times> lexer)" where
  "look_behind tk buf lx =
     (case tk of
        Gt \<Rightarrow>
          (case pop_if_tok_kind (BinOp Minus_t) buf of
             (Some _, buf) \<Rightarrow>
               if tok_start_pos lx \<ge> 1 then
                 Inr (Some RArrow, buf, lx\<lparr>tok_start_pos := tok_start_pos lx - 1\<rparr>)
               else Inl BugInvalidTokenStart
           | (None, buf) \<Rightarrow> Inr (None, buf, lx))
      | _ \<Rightarrow> Inr (None, buf, lx))"

text \<open>An opening delimiter is pushed; a closing one is matched against the top of the
  stack and, after an error message, becomes the one the top asks for.\<close>

definition open_delim :: "delim_token \<Rightarrow> lexer \<Rightarrow> ast_kind \<times> lexer" where
  "open_delim d lx = (OpenDelim d, map_cxt (delims_update (Cons (OpenDelim d))) lx)"

definition close_delim ::
  "delim_token \<Rightarrow> string \<Rightarrow> byte_pos \<Rightarrow> lexer \<Rightarrow> lexer_panic + (ast_kind \<times> lexer)" where
  "close_delim d msg start lx =
     (let popped = map_cxt (delims_update tl) lx;
          err = struct_span_error msg (span_new start (pos lx))
      in case delims (indent_cxt lx) of
           [] \<Rightarrow> Inr (CloseDelim d, err popped)
         | OpenDelim NoDelim # _ \<Rightarrow> Inl BugImpossible
         | OpenDelim e # _ \<Rightarrow> Inr (CloseDelim e, if e = d then popped else err popped)
         | _ \<Rightarrow> Inl BugImpossible)"

text \<open>The arms of \<open>lex_token\<close> that are one constant each.\<close>

definition simple_kind :: "token_kind \<Rightarrow> ast_kind option" where
  "simple_kind tk =
     (case tk of
        Tilde \<Rightarrow> Some (UnaryOp UTilde)
      | Plus \<Rightarrow> Some (BinOp Plus_t)
      | Minus \<Rightarrow> Some (BinOp Minus_t)
      | Star \<Rightarrow> Some (BinOp Star_t)
      | Slash \<Rightarrow> Some (BinOp Slash_t)
      | Percent \<Rightarrow> Some (BinOp Percent_t)
      | StarStar \<Rightarrow> Some (BinOp StarStar_t)
      | SlashSlash \<Rightarrow> Some (BinOp SlashSlash_t)
      | Caret \<Rightarrow> Some (BinOp Caret_t)
      | And \<Rightarrow> Some (BinOp And_t)
      | Or \<Rightarrow> Some (BinOp Or_t)
      | LtLt \<Rightarrow> Some (BinOp Shl)
      | GtGt \<Rightarrow> Some (BinOp Shr)
      | PlusEq \<Rightarrow> Some (BinOpEq Plus_t)
      | MinusEq \<Rightarrow> Some (BinOpEq Minus_t)
      | StarEq \<Rightarrow> Some (BinOpEq Star_t)
      | SlashEq \<Rightarrow> Some (BinOpEq Slash_t)
      | PercentEq \<Rightarrow> Some (BinOpEq Percent_t)
      | StarStarEq \<Rightarrow> Some (BinOpEq StarStar_t)
      | SlashSlashEq \<Rightarrow> Some (BinOpEq SlashSlash_t)
      | CaretEq \<Rightarrow> Some (BinOpEq Caret_t)
      | AndEq \<Rightarrow> Some (BinOpEq And_t)
      | OrEq \<Rightarrow> Some (BinOpEq Or_t)
      | LtLtEq \<Rightarrow> Some (BinOpEq Shl)
      | GtGtEq \<Rightarrow> Some (BinOpEq Shr)
      | EqEq \<Rightarrow> Some (BinCmp Eq_t)
      | BangEq \<Rightarrow> Some (BinCmp NotEq)
      | Lt \<Rightarrow> Some (BinCmp Lt_t)
      | LtEq \<Rightarrow> Some (BinCmp LtEq_t)
      | GtEq \<Rightarrow> Some (BinCmp GtEq_t)
      | At \<Rightarrow> Some At_t
      | Dot \<Rightarrow> Some Dot_t
      | DotDotDot \<Rightarrow> Some DotDotDot_t
      | Comma \<Rightarrow> Some Comma_t
      | Colon \<Rightarrow> Some Colon_t
      | Dollar \<Rightarrow> Some Dollar_t
      | Question \<Rightarrow> Some Question_t
      | Eq \<Rightarrow> Some Assign
      | _ \<Rightarrow> None)"

type_synonym lexed = "lexer_panic + (ast_kind option \<times> token_buf \<times> lexer)"

definition lex_token ::
  "(rchar list \<Rightarrow> rchar option) \<Rightarrow> token \<Rightarrow> byte_pos \<Rightarrow> token_buf \<Rightarrow> lexer \<Rightarrow> lexed" where
  "lex_token names t start buf lx =
     (let sp = span_new start (pos lx);
          skip_with = (\<lambda>lx. Inr (None, buf, lx));
          closing = (\<lambda>r. case r of Inl p \<Rightarrow> Inl p | Inr (k, lx) \<Rightarrow> Inr (Some k, buf, lx));
          opening = (\<lambda>(k, lx). Inr (Some k, buf, lx))
      in case kind t of
        LineComment _ \<Rightarrow>
          (case str_from lx start of
             Inl p \<Rightarrow> Inl p
           | Inr s \<Rightarrow> Inr (Some (DocComment (Line s)), buf, lx))
      | Newline \<Rightarrow>
          Inr (Some Newline_t, buf, map_cxt (\<lambda>c. c\<lparr>new_line_beginning := True\<rparr>) lx)
      | Tab \<Rightarrow> skip_with lx
      | Space \<Rightarrow> skip_with lx
      | CarriageReturn \<Rightarrow> skip_with lx
      | Whitespace \<Rightarrow> skip_with lx
      | Ident \<Rightarrow>
          (case str_from lx start of
             Inl p \<Rightarrow> Inl p
           | Inr s \<Rightarrow> Inr (Some (Ident_t s), buf, lx))
      | Literal k suffix_start \<Rightarrow>
          (case lex_literal names start (start + of_nat suffix_start) k lx of
             Inl p \<Rightarrow> Inl p
           | Inr (l, lx) \<Rightarrow> Inr (Some (Literal_t l), buf, lx))
      | Bang \<Rightarrow>
          Inr (Some (UnaryOp UNot), buf, struct_message_error InvalidTokenNot sp (Some [''not '']) lx)
      | Gt \<Rightarrow>
          (case look_behind (kind t) buf lx of
             Inl p \<Rightarrow> Inl p
           | Inr (Some k, buf, lx) \<Rightarrow> Inr (Some k, buf, lx)
           | Inr (None, buf, lx) \<Rightarrow> Inr (Some (BinCmp Gt_t), buf, lx))
      | OpenParen \<Rightarrow> opening (open_delim Paren lx)
      | CloseParen \<Rightarrow> closing (close_delim Paren ''error nesting on close paren'' start lx)
      | OpenBrace \<Rightarrow> opening (open_delim Brace lx)
      | CloseBrace \<Rightarrow> closing (close_delim Brace ''error nesting on close brace'' start lx)
      | OpenBracket \<Rightarrow> opening (open_delim Bracket lx)
      | CloseBracket \<Rightarrow> closing (close_delim Bracket ''mismatched closing delimiter'' start lx)
      | LineContinue \<Rightarrow> skip_with lx
      | InvalidLineContinue \<Rightarrow>
          skip_with (struct_message_error CharAfterLineContinuationToken sp None lx)
      | Semi \<Rightarrow> skip_with (struct_message_error RedundantSemicolon sp (Some ['''']) lx)
      | tk \<Rightarrow>
          (case simple_kind tk of
             Some k \<Rightarrow> Inr (Some k, buf, lx)
           | None \<Rightarrow> skip_with (struct_span_error ''unknown start of token'' sp lx)))"

section \<open>The token stream\<close>

fun is_eof_tok :: "token_with_indents \<Rightarrow> bool" where
  "is_eof_tok (Token t) \<longleftrightarrow> tok_kind t = Eof"
| "is_eof_tok (WithIndent t _) \<longleftrightarrow> tok_kind t = Eof"

fun append_to :: "token_with_indents \<Rightarrow> token_buf \<Rightarrow> token_buf" where
  "append_to (Token t) buf = buf @ [t]"
| "append_to (WithIndent t (IndentTok i)) buf = buf @ [i] @ [t]"
| "append_to (WithIndent t (Dedents ds)) buf = buf @ ds @ [t]"

text \<open>One turn of the loop of \<open>Lexer::token\<close>, on a text that is not empty.\<close>

definition token_step ::
  "classes \<Rightarrow> (rchar list \<Rightarrow> rchar option) \<Rightarrow> rchar list \<Rightarrow> token_buf \<Rightarrow> lexer
     \<Rightarrow> indent_or_dedents option \<times> lexed" where
  "token_step u names text buf lx =
     (let t = first_token u text;
          (indent, lx) = lex_indent_context (kind t) lx;
          lx = lx\<lparr>tok_start_pos := pos lx\<rparr>;
          lx = lx\<lparr>pos := pos lx + of_nat (len t)\<rparr>
      in (indent, lex_token names t (tok_start_pos lx) buf lx))"

partial_function (option) lexer_token ::
  "classes \<Rightarrow> (rchar list \<Rightarrow> rchar option) \<Rightarrow> token_buf \<Rightarrow> lexer
     \<Rightarrow> (lexer_panic + (token_with_indents \<times> token_buf \<times> lexer)) option" where
  "lexer_token u names buf lx =
     (case slice_bytes (src_index lx (pos lx)) (end_src_index lx) (src lx) of
        None \<Rightarrow> Some (Inl SliceOutOfRange)
      | Some text \<Rightarrow>
          if text = [] then Some (Inr (Token (token_new Eof (here lx)), buf, lx))
          else
            (case token_step u names text buf lx of
               (indent, Inl p) \<Rightarrow> Some (Inl p)
             | (indent, Inr (None, buf, lx)) \<Rightarrow> lexer_token u names buf lx
             | (indent, Inr (Some k, buf, lx)) \<Rightarrow>
                 (let t = token_new k (span_new (tok_start_pos lx) (pos lx))
                  in Some (Inr (case indent of Some i \<Rightarrow> WithIndent t i | None \<Rightarrow> Token t, buf, lx)))))"

definition lexer_eof :: "token_buf \<Rightarrow> lexer \<Rightarrow> token_buf \<times> lexer" where
  "lexer_eof buf lx =
     (let newline = (if new_line_beginning (indent_cxt lx) then [] else [token_new Newline_t (here lx)]);
          dedents = map (\<lambda>_. token_new (Dedent VALID_SPACES_LENGTH) (here lx)) (tl (indents (indent_cxt lx)));
          lx' = map_cxt (\<lambda>c. c\<lparr>new_line_beginning := True, indents := drop (length dedents) (indents c)\<rparr>) lx
      in (buf @ newline @ dedents @ [token_new Eof (here lx)], lx'))"

partial_function (option) into_tokens ::
  "classes \<Rightarrow> (rchar list \<Rightarrow> rchar option) \<Rightarrow> token_buf \<Rightarrow> lexer
     \<Rightarrow> (lexer_panic + (token_buf \<times> lexer)) option" where
  "into_tokens u names buf lx =
     (case lexer_token u names buf lx of
        None \<Rightarrow> None
      | Some (Inl p) \<Rightarrow> Some (Inl p)
      | Some (Inr (t, buf, lx)) \<Rightarrow>
          if is_eof_tok t then Some (Inr (lexer_eof buf lx))
          else into_tokens u names (append_to t buf) lx)"

declare lexer_token.simps [code] into_tokens.simps [code]

definition new_lexer :: "rchar list \<Rightarrow> byte_pos \<Rightarrow> lexer" where
  "new_lexer source start =
     \<lparr>start_pos = start, pos = start, tok_start_pos = start,
      end_src_index = bytes_len source, src = source,
      indent_cxt = \<lparr>new_line_beginning = False, delims = [], tabs = 0, spaces = 0,
        indents = [default_level]\<rparr>,
      errors = []\<rparr>"

definition parse_token_streams ::
  "classes \<Rightarrow> (rchar list \<Rightarrow> rchar option) \<Rightarrow> rchar list \<Rightarrow> byte_pos
     \<Rightarrow> (lexer_panic + (token_buf \<times> lexer)) option" where
  "parse_token_streams u names source start = into_tokens u names [] (new_lexer source start)"

end
