(* ===== verification/Parse_Lexer_Laws.thy ===== *)
theory Parse_Lexer_Laws
  imports Parse_Lexer
begin

text \<open>
  Correctness of the parser's lexer: its slices of the source are always in range
  and on character boundaries, no step panics, the loops end, the stack of
  indentation levels stays well formed and a line that returns to an open level
  closes exactly the levels above it, closing delimiters match, and string and
  integer literals are read back.
\<close>

section \<open>Slices\<close>

lemma take_bytes_0 [simp]: "take_bytes 0 cs = Some []"
  by (cases cs) simp_all

lemma take_bytes_prefix [simp]: "take_bytes (bytes_len p) (p @ cs) = Some p"
  by (induction p) simp_all

lemma slice_bytes_middle:
  "slice_bytes (bytes_len p) (bytes_len p + bytes_len m) (p @ m @ r) = Some m"
  by (simp add: slice_bytes_def)

lemma length_as_bytes: "length (as_bytes cs) = bytes_len cs"
  by (induction cs) (simp_all add: as_bytes_def utf8_encode_def len_utf8_def)

lemma as_bytes_nth_ascii:
  assumes "c < 128"
  shows "as_bytes (p @ c # r) ! bytes_len p = c"
proof -
  have "as_bytes (p @ c # r) = as_bytes p @ c # as_bytes r"
    using assms by (simp add: as_bytes_def utf8_encode_def)
  then show ?thesis
    by (simp add: nth_append length_as_bytes)
qed

text \<open>The source has room in the position space: no position wraps around.\<close>

definition positions_fit :: "lexer \<Rightarrow> bool" where
  "positions_fit lx \<longleftrightarrow> unat (start_pos lx) + bytes_len (src lx) < 2 ^ 32"

definition pos_at :: "lexer \<Rightarrow> nat \<Rightarrow> byte_pos" where
  "pos_at lx k = start_pos lx + of_nat k"

lemma unat_pos_at:
  assumes "positions_fit lx" "k \<le> bytes_len (src lx)"
  shows "unat (pos_at lx k) = unat (start_pos lx) + k"
  using assms
  by (simp add: positions_fit_def pos_at_def unat_word_ariths unat_of_nat take_bit_eq_mod)

lemma src_index_pos_at:
  assumes "positions_fit lx" "k \<le> bytes_len (src lx)"
  shows "src_index lx (pos_at lx k) = k"
  using assms
  by (simp add: positions_fit_def pos_at_def src_index_def unat_of_nat take_bit_eq_mod)

lemma pos_at_add: "pos_at lx k + of_nat n = pos_at lx (k + n)"
  by (simp add: pos_at_def)

lemma pos_at_sub: "n \<le> k \<Longrightarrow> pos_at lx k - of_nat n = pos_at lx (k - n)"
  by (simp add: pos_at_def)

lemma pos_at_le_iff:
  assumes "positions_fit lx" "k \<le> bytes_len (src lx)" "n \<le> bytes_len (src lx)"
  shows "pos_at lx k \<le> pos_at lx n \<longleftrightarrow> k \<le> n"
  using assms by (simp add: word_le_nat_alt unat_pos_at)

lemma str_from_to_middle:
  assumes "positions_fit lx" "src lx = p @ m @ r"
  shows "str_from_to lx (pos_at lx (bytes_len p)) (pos_at lx (bytes_len p + bytes_len m)) = Inr m"
  using assms slice_bytes_middle [of p m r]
  by (simp add: str_from_to_def src_index_pos_at)

lemma char_from_ascii:
  assumes "positions_fit lx" "src lx = p @ c # r" "c < 128"
  shows "char_from lx (pos_at lx (bytes_len p)) = Inr c"
  using assms by (simp add: char_from_def src_index_pos_at length_as_bytes as_bytes_nth_ascii)

section \<open>The text of a literal\<close>

text \<open>What a string token has consumed, behind its opening_quote quote.\<close>

definition closing_quote :: "rchar \<Rightarrow> bool \<Rightarrow> bool \<Rightarrow> rchar list" where
  "closing_quote q tr t = (if t then (if tr then [q, q, q] else [q]) else [])"

definition str_shape :: "rchar \<Rightarrow> bool \<Rightarrow> cursor \<Rightarrow> token_kind \<times> cursor \<Rightarrow> bool" where
  "str_shape q tr s r \<longleftrightarrow> (\<exists>body t n.
     fst r = Literal (Str_kind t (t \<and> tr)) n \<and> char_iter s = body @ closing_quote q tr t @ char_iter (snd r))"

lemma str_shape_advance:
  assumes "fst (bump s) = Some c" "str_shape q tr (advance s) r"
  shows "str_shape q tr s r"
proof -
  obtain body t n where *: "fst r = Literal (Str_kind t (t \<and> tr)) n"
    "char_iter (advance s) = body @ closing_quote q tr t @ char_iter (snd r)"
    using assms(2) by (auto simp: str_shape_def)
  have "char_iter s = (c # body) @ closing_quote q tr t @ char_iter (snd r)"
    using assms(1) *(2) by (cases "char_iter s") (simp_all add: scan_simps)
  with *(1) show ?thesis unfolding str_shape_def by blast
qed

lemma str_shape_open: "char_iter s = body @ char_iter r \<Longrightarrow> str_shape q tr s (str_literal False False r)"
  unfolding str_shape_def
  by (intro exI [of _ body] exI [of _ False] exI [of _ "len_consumed r"]) (simp add: closing_quote_def)

lemma str_shape_closed:
  "char_iter s = body @ closing_quote q tr True @ char_iter r \<Longrightarrow> str_shape q tr s (str_literal True tr r)"
  unfolding str_shape_def
  by (intro exI [of _ body] exI [of _ True] exI [of _ "len_consumed r"]) simp

lemma peek_twice:
  assumes "q = peek s" "q = peek1th s" "q \<noteq> 0" "char_iter s = cs"
  obtains r where "cs = q # q # r"
  using assms by (cases cs; cases "tl cs") (simp_all add: peek_def peek1th_def)

lemma quoted_string_loop_shape:
  assumes "q \<noteq> 0"
  shows "str_shape q tr s (quoted_string_loop q tr s)"
  using assms
proof (induction q tr s rule: quoted_string_loop.induct)
  case (1 q tr s)
  show ?case
  proof (cases "fst (bump s)")
    case None
    then show ?thesis
      by (simp add: quoted_string_loop.simps str_shape_open [of s "[]"])
  next
    case (Some c)
    then obtain cs where cs: "char_iter s = c # cs"
      by (cases "char_iter s") (simp_all add: scan_simps)
    note IH = "1.IH" [OF Some refl]
    let ?s = "advance s"
    have adv: "char_iter ?s = cs" by (simp add: scan_simps cs)
    consider (esc) "c = 0x5C" "peek ?s = 0x5C \<or> peek ?s = q"
      | (quote) "\<not> (c = 0x5C \<and> (peek ?s = 0x5C \<or> peek ?s = q))" "c = q"
      | (other) "\<not> (c = 0x5C \<and> (peek ?s = 0x5C \<or> peek ?s = q))" "c \<noteq> q"
      by blast
    then show ?thesis
    proof cases
      case esc
      then obtain d where "fst (bump ?s) = Some d"
        using "1.prems" by (cases cs) (auto simp: scan_simps cs peek_def)
      with esc IH(1) "1.prems" show ?thesis
        by (auto simp: quoted_string_loop.simps [of q tr s] Some Let_def
            intro: str_shape_advance [OF Some] str_shape_advance)
    next
      case quote
      have closed: "str_shape q False s (str_literal True False ?s)"
        using cs adv quote by (intro str_shape_closed [of _ "[]"]) (simp add: closing_quote_def)
      have closed3: "str_shape q True s (str_literal True True (advance (advance ?s)))"
        if p: "q = peek ?s" "q = peek1th ?s"
      proof -
        obtain r where "cs = q # q # r"
          by (rule peek_twice [OF p "1.prems" adv])
        then have "char_iter s = [] @ closing_quote q True True @ char_iter (advance (advance ?s))"
          using quote(2) by (simp add: closing_quote_def scan_simps cs)
        then show ?thesis by (rule str_shape_closed)
      qed
      show ?thesis
        using quote IH(2) "1.prems" closed closed3 str_shape_advance [OF Some]
        by (cases tr) (auto simp: quoted_string_loop.simps [of q _ s] Some Let_def)
    next
      case other
      have "str_shape q tr s (str_literal False False ?s)"
        by (rule str_shape_open [of _ "[c]"]) (simp add: cs adv)
      with other IH(3) "1.prems" show ?thesis
        using str_shape_advance [OF Some]
        by (auto simp: quoted_string_loop.simps [of q tr s] Some Let_def)
    qed
  qed
qed

definition opening_quote :: "rchar \<Rightarrow> bool \<Rightarrow> rchar list" where
  "opening_quote q tr = (if tr then [q, q, q] else [q])"

lemma eat_quoted_string_shape:
  assumes "is_quote q"
  shows "\<exists>body t tr n. fst (eat_quoted_string q s) = Literal (Str_kind t tr) n \<and> (tr \<longrightarrow> t)
    \<and> q # char_iter s = opening_quote q tr @ body @ closing_quote q tr t @ char_iter (snd (eat_quoted_string q s))"
proof (cases "q = peek s \<and> q = peek1th s")
  case True
  note q = quote_facts(4) [OF assms]
  obtain r where r: "char_iter s = q # q # r"
    by (rule peek_twice [OF _ _ q refl]) (use True in auto)
  let ?r = "quoted_string_loop q True (advance (advance s))"
  obtain body t n where *: "fst ?r = Literal (Str_kind t (t \<and> True)) n"
    "char_iter (advance (advance s)) = body @ closing_quote q True t @ char_iter (snd ?r)"
    using quoted_string_loop_shape [OF q, of True "advance (advance s)"] unfolding str_shape_def by blast
  have r': "r = body @ closing_quote q True t @ char_iter (snd ?r)"
    using *(2) by (simp add: scan_simps r)
  have e: "eat_quoted_string q s = ?r"
    using True by (simp add: eat_quoted_string_def)
  show ?thesis
  proof (cases t)
    case True
    with * r r' e show ?thesis
      by (intro exI [of _ body] exI [of _ True] exI [of _ n]) (simp add: opening_quote_def)
  next
    case False
    with * r r' e show ?thesis
      by (intro exI [of _ "q # q # body"] exI [of _ False] exI [of _ n])
        (simp add: opening_quote_def closing_quote_def)
  qed
next
  case False
  let ?r = "quoted_string_loop q False s"
  obtain body t n where *: "fst ?r = Literal (Str_kind t False) n"
    "char_iter s = body @ closing_quote q False t @ char_iter (snd ?r)"
    using quoted_string_loop_shape [OF quote_facts(4) [OF assms], of False s]
    unfolding str_shape_def by auto
  have e: "eat_quoted_string q s = ?r"
    using False unfolding eat_quoted_string_def by (simp only: if_False)
  show ?thesis
    unfolding e using * by (intro exI [of _ body] exI [of _ t] exI [of _ False] exI [of _ n])
      (simp add: opening_quote_def)
qed

lemma eat_string_shape:
  assumes "fst (eat_string c s) = Literal (Str_kind t tr) n"
  obtains pre q body where "is_quote q" "pre = [] \<or> (\<exists>r. pre = [r] \<and> is_raw_prefix r)" "tr \<longrightarrow> t"
    "c # char_iter s = pre @ opening_quote q tr @ body @ closing_quote q tr t @ char_iter (snd (eat_string c s))"
proof (cases "is_raw_prefix c")
  case True
  then have q: "is_quote (peek s)"
    using assms by (simp add: eat_string_def split: if_splits)
  then obtain cs where cs: "char_iter s = peek s # cs"
    by (cases "char_iter s") (auto simp: peek_def is_quote_def)
  have e: "eat_string c s = eat_quoted_string (peek s) (advance s)"
    using True q cs by (auto simp: eat_string_def scan_simps split: list.splits)
  obtain body where "tr \<longrightarrow> t" "peek s # char_iter (advance s) = opening_quote (peek s) tr @ body @ closing_quote (peek s) tr t
      @ char_iter (snd (eat_string c s))"
    using eat_quoted_string_shape [OF q, of "advance s"] assms unfolding e by auto
  then show thesis
    using that [of "peek s" "[c]"] q True cs by (simp add: scan_simps)
next
  case False
  then have q: "is_quote c" and e: "eat_string c s = eat_quoted_string c s"
    using assms by (auto simp: eat_string_def split: if_splits)
  obtain body where "tr \<longrightarrow> t" "c # char_iter s = opening_quote c tr @ body @ closing_quote c tr t @ char_iter (snd (eat_string c s))"
    using eat_quoted_string_shape [OF q, of s] assms unfolding e by auto
  then show thesis
    using that [of c "[]"] q by simp
qed

lemma number_based_shape:
  assumes "fst (number u c s) = Int_kind b False" "b \<noteq> Decimal"
  obtains x m where "c = ch CHR ''0''" "x < 128" "char_iter s = x # m @ char_iter (snd (number u c s))"
proof -
  have c: "c = ch CHR ''0''"
  proof (rule ccontr)
    assume "c \<noteq> ch CHR ''0''"
    then have "fst (number_tail u Decimal (snd (eat_decimal_digits s))) = Int_kind b False"
      using assms(1) by (simp add: number_def)
    with assms(2) show False
      by (simp add: number_tail_def Let_def case_prod_beta split: if_splits)
  qed
  have p: "peek s = ch CHR ''b'' \<or> peek s = ch CHR ''o'' \<or> is_ascii_digit (peek s) \<or> peek s = ch CHR ''x''"
    using assms by (auto simp: number_def c number_tail_def Let_def case_prod_beta split: if_splits)
  then have p0: "peek s \<noteq> 0" "peek s < 128"
    by (auto simp: is_ascii_digit_def)
  then obtain cs where cs: "char_iter s = peek s # cs"
    by (cases "char_iter s") (simp_all add: peek_def)
  have "advances (advance s) (snd (number u c s))"
    using p unfolding number_def c
    by (auto simp: Let_def case_prod_beta eat_decimal_digits_def eat_hexadecimal_digits_def
        is_ascii_digit_def
        intro!: number_tail.moves_after decimal_digits.moves hexadecimal_digits.moves)
  then obtain m where "cs = m @ char_iter (snd (number u c s))"
    using cs by (auto simp: advances_def suffix_def scan_simps)
  with c p0 cs show thesis by (intro that [of "peek s" m]) simp_all
qed

section \<open>Literals\<close>

text \<open>The lexer has only reported errors.\<close>

definition reports :: "lexer \<Rightarrow> lexer \<Rightarrow> bool" where
  "reports lx lx' \<longleftrightarrow> (\<exists>es. lx' = lx\<lparr>errors := errors lx @ es\<rparr>)"

lemma reports_refl [simp, intro]: "reports lx lx"
  unfolding reports_def by (rule exI [of _ "[]"]) simp

lemma reports_error [intro]:
  "reports lx lx' \<Longrightarrow> reports lx (struct_span_error m sp lx')"
  "reports lx lx' \<Longrightarrow> reports lx (struct_message_error e sp g lx')"
  by (auto simp: reports_def struct_span_error_def struct_message_error_def add_parse_err_def)

lemma error_keeps [simp]:
  "pos (struct_span_error m sp lx) = pos lx" "src (struct_span_error m sp lx) = src lx"
  "start_pos (struct_span_error m sp lx) = start_pos lx"
  "indent_cxt (struct_span_error m sp lx) = indent_cxt lx"
  "str_from_to (struct_span_error m sp lx) = str_from_to lx"
  "str_from (struct_span_error m sp lx) = str_from lx"
  by (simp_all add: struct_span_error_def add_parse_err_def str_from_to_def str_from_def
      src_index_def fun_eq_iff)

lemma pos_at_num:
  "pos_at lx k + numeral n = pos_at lx (k + numeral n)" "pos_at lx k + 1 = pos_at lx (k + 1)"
  "numeral n \<le> k \<Longrightarrow> pos_at lx k - numeral n = pos_at lx (k - numeral n)"
  "1 \<le> k \<Longrightarrow> pos_at lx k - 1 = pos_at lx (k - 1)"
  using pos_at_add [of lx k "numeral n"] pos_at_add [of lx k 1]
    pos_at_sub [of "numeral n" k lx] pos_at_sub [of 1 k lx] by simp_all

lemma bytes_len_quotes:
  "is_quote q \<Longrightarrow> bytes_len (opening_quote q tr) = (if tr then 3 else 1)"
  "is_quote q \<Longrightarrow> bytes_len (closing_quote q tr t) = (if t then if tr then 3 else 1 else 0)"
  by (simp_all add: opening_quote_def closing_quote_def quote_facts(8))

text \<open>The string arm on the text of a string token: it evaluates the body.\<close>

lemma lex_string_eval:
  assumes fit: "positions_fit lx" and src: "src lx = p @ piece @ r"
    and piece: "piece = pre @ opening_quote q tr @ body @ closing_quote q tr t"
    and q: "is_quote q" and pre: "pre = [] \<or> (\<exists>r. pre = [r] \<and> is_raw_prefix r)"
    and tr: "tr \<longrightarrow> t"
    and start: "start = pos_at lx (bytes_len p)"
    and stop: "stop = pos_at lx (bytes_len p + bytes_len piece)"
  shows "\<exists>lx'. reports lx lx' \<and>
    lex_string names start stop t tr lx =
      Inr (\<lparr>lit_kind = Str_lit tr (pre \<noteq> []),
            symbol = (case str_content_eval names body q tr False (pre \<noteq> []) of Some v \<Rightarrow> v | None \<Rightarrow> []),
            suffix_sym = None, raw = Some piece\<rparr>, lx')
    \<and> (t \<and> str_content_eval names body q tr False (pre \<noteq> []) \<noteq> None \<longrightarrow> lx' = lx)"
proof -
  let ?k = "bytes_len p" and ?op = "opening_quote q tr" and ?cl = "closing_quote q tr t"
  let ?raw = "pre \<noteq> []" and ?a = "bytes_len (p @ pre @ opening_quote q tr)"
  let ?b = "?a + bytes_len body"
  have pre1: "bytes_len pre = (if ?raw then 1 else 0)"
    using pre by (auto simp: is_raw_prefix_def len_utf8_def)
  have op: "?op = q # tl ?op"
    by (simp add: opening_quote_def)
  obtain c cs where c: "piece = c # cs" "c < 128" "is_raw_prefix c \<longleftrightarrow> ?raw"
  proof (cases pre)
    case Nil
    with op piece have "piece = q # (tl ?op @ body @ ?cl)"
      by (metis append_Cons append_Nil)
    with Nil q quote_facts(5) [OF q] show ?thesis
      by (intro that [of q]) (auto simp: is_quote_def)
  next
    case (Cons d ds)
    with pre piece show ?thesis
      by (intro that [of d]) (auto simp: is_raw_prefix_def)
  qed
  have start_char: "char_from lx start = Inr c"
    using char_from_ascii [OF fit _ c(2), of p "cs @ r"] by (simp add: start src c(1))
  have quote_char: "char_from lx (if ?raw then start + 1 else start) = Inr q"
  proof -
    have "src lx = (p @ pre) @ q # (tl ?op @ body @ ?cl @ r)"
      by (subst src, subst piece, subst op) simp
    from char_from_ascii [OF fit this] have "char_from lx (pos_at lx (bytes_len (p @ pre))) = Inr q"
      using q by (auto simp: is_quote_def)
    then show ?thesis
      using pre1 by (cases ?raw) (simp_all add: start pos_at_num)
  qed
  have cstart: "start + (if tr then if ?raw then 4 else 3 else if ?raw then 2 else 1) = pos_at lx ?a"
    using pre1 by (simp add: start bytes_len_quotes [OF q] pos_at_num add.assoc)
  have body: "str_from_to lx (pos_at lx ?a) (pos_at lx ?b) = Inr body"
    using str_from_to_middle [OF fit, of "p @ pre @ ?op" body "?cl @ r"] by (simp add: src piece)
  have ab: "\<not> pos_at lx ?b < pos_at lx ?a"
    using pos_at_le_iff [OF fit, of ?a ?b] by (simp add: src piece not_less)
  have stop': "stop = pos_at lx (?b + (if t then if tr then 3 else 1 else 0))"
    by (simp add: stop piece bytes_len_quotes(2) [OF q] add.assoc)
  have whole: "str_from_to lx start stop = Inr piece"
    using str_from_to_middle [OF fit src] by (simp add: start stop)
  let ?off = "if tr then if ?raw then 4 else 3 else if ?raw then 2 else 1 :: byte_pos"
  let ?fin = "if ?raw then stop - ?off + 1 else stop - ?off"
  have cend: "(if \<not> t then ?fin + (if tr then 3 else 1) else ?fin) = pos_at lx ?b"
    using tr by (simp add: stop' pos_at_def)
  let ?lx1 = "if \<not> t then struct_span_error ''unterminated string''
      (span_new (if ?raw then start + 1 else start) (pos lx)) lx else lx"
  let ?lx2 = "if str_content_eval names body q tr False ?raw = None
      then snd (invalid_string (pos_at lx ?a) ?lx1) else ?lx1"
  have keep: "str_from_to ?lx1 = str_from_to lx" "str_from_to ?lx2 = str_from_to lx"
    by (simp_all add: invalid_string_def)
  have "reports lx ?lx2"
    by (auto simp: invalid_string_def)
  moreover have "lex_string names start stop t tr lx =
      Inr (\<lparr>lit_kind = Str_lit tr ?raw,
            symbol = (case str_content_eval names body q tr False ?raw of Some v \<Rightarrow> v | None \<Rightarrow> []),
            suffix_sym = None, raw = Some piece\<rparr>, ?lx2)"
    unfolding lex_string_def start_char Let_def sum.case c(3) quote_char cstart cend
    using ab body whole
    by (cases "str_content_eval names body q tr False ?raw") (simp_all add: invalid_string_def)
  ultimately show ?thesis
    by (intro exI [of _ ?lx2]) auto
qed

lemma validate_literal_int_ok:
  assumes "positions_fit lx" "src lx = p @ num @ r"
    "bs = Decimal \<or> (\<exists>z x m. num = z # x # m \<and> z < 128 \<and> x < 128)"
  shows "\<exists>ok lx'. validate_literal_int bs (pos_at lx (bytes_len p))
      (pos_at lx (bytes_len p + bytes_len num)) lx = Inr (ok, lx') \<and> reports lx lx'"
proof (cases "base_radix bs")
  case None
  then show ?thesis by (auto simp: validate_literal_int_def)
next
  case (Some radix)
  then obtain z x m where num: "num = z # x # m" "z < 128" "x < 128"
    using assms(3) by (cases bs) (auto simp: base_radix_def)
  have "str_from_to lx (pos_at lx (bytes_len p) + 2) (pos_at lx (bytes_len p + bytes_len num)) = Inr m"
    using str_from_to_middle [OF assms(1), of "p @ [z, x]" m r] num assms(2)
    by (simp add: pos_at_num len_utf8_def)
  then show ?thesis
    by (auto simp: validate_literal_int_def Some Let_def split: option.split)
qed

lemma lex_suffix_ok:
  assumes "positions_fit lx" "src lx = p @ sfx @ r" "pos lx = pos_at lx (bytes_len p + bytes_len sfx)"
  shows "\<exists>s lx'. lex_suffix start (pos_at lx (bytes_len p)) lx = Inr (s, lx') \<and> reports lx lx'"
  using str_from_to_middle [OF assms(1,2)] assms(3)
  by (auto simp: lex_suffix_def str_from_def)

lemma reports_keeps:
  assumes "reports lx lx'"
  shows "start_pos lx' = start_pos lx" "pos lx' = pos lx" "src lx' = src lx"
    "end_src_index lx' = end_src_index lx" "indent_cxt lx' = indent_cxt lx"
    "tok_start_pos lx' = tok_start_pos lx" "pos_at lx' = pos_at lx" "positions_fit lx' = positions_fit lx"
    "str_from_to lx' = str_from_to lx"
  using assms by (auto simp: reports_def pos_at_def positions_fit_def str_from_to_def src_index_def fun_eq_iff)

lemma reports_trans [trans]: "reports a b \<Longrightarrow> reports b c \<Longrightarrow> reports a c"
  by (auto simp: reports_def)

lemma lex_int_ok:
  assumes fit: "positions_fit lx" and src: "src lx = p @ num @ sfx @ r"
    and pos: "pos lx = pos_at lx (bytes_len p + bytes_len num + bytes_len sfx)"
    and based: "bs = Decimal \<or> emp \<or> (\<exists>z x m. num = z # x # m \<and> z < 128 \<and> x < 128)"
  shows "\<exists>l lx'. lex_int (pos_at lx (bytes_len p)) (pos_at lx (bytes_len p + bytes_len num)) bs emp lx
      = Inr (l, lx') \<and> reports lx lx'"
proof (cases emp)
  case True
  then show ?thesis by (auto simp: lex_int_def)
next
  case False
  let ?a = "pos_at lx (bytes_len p)" and ?b = "pos_at lx (bytes_len p + bytes_len num)"
  obtain ok lx1 where v: "validate_literal_int bs ?a ?b lx = Inr (ok, lx1)" "reports lx lx1"
    using validate_literal_int_ok [OF fit, of p num "sfx @ r" bs] based False src by auto
  note keep = reports_keeps [OF v(2)]
  have num: "str_from_to lx1 ?a ?b = Inr num"
    using str_from_to_middle [OF fit, of p num "sfx @ r"] src by (simp add: keep)
  obtain s lx2 where x: "lex_suffix ?a ?b lx1 = Inr (s, lx2)" "reports lx1 lx2"
    using lex_suffix_ok [of lx1 "p @ num" sfx r ?a] fit src pos by (auto simp: keep add.assoc)
  from v(2) x(2) have "reports lx lx2" by (rule reports_trans)
  with False v(1) num x(1) show ?thesis
    by (cases ok) (simp_all add: lex_int_def)
qed

text \<open>A decimal integer without suffix is its own symbol.\<close>

lemma lex_int_decimal:
  assumes "positions_fit lx" "src lx = p @ num @ r" "pos lx = pos_at lx (bytes_len p + bytes_len num)"
  shows "lex_int (pos_at lx (bytes_len p)) (pos lx) Decimal False lx
    = Inr (\<lparr>lit_kind = Integer, symbol = num, suffix_sym = None, raw = None\<rparr>, lx)"
  using str_from_to_middle [OF assms(1,2)] assms(3)
  by (simp add: lex_int_def validate_literal_int_def base_radix_def lex_suffix_def)

text \<open>The text of a literal token: the literal itself and its suffix.\<close>

fun literal_text :: "literal_kind \<Rightarrow> rchar list \<Rightarrow> bool" where
  "literal_text (Str_kind t tr) num \<longleftrightarrow> (tr \<longrightarrow> t) \<and>
     (\<exists>pre q body. is_quote q \<and> (pre = [] \<or> (\<exists>r. pre = [r] \<and> is_raw_prefix r))
        \<and> num = pre @ opening_quote q tr @ body @ closing_quote q tr t)"
| "literal_text (Int_kind bs e) num \<longleftrightarrow>
     bs = Decimal \<or> e \<or> (\<exists>z x m. num = z # x # m \<and> z < 128 \<and> x < 128)"
| "literal_text _ num \<longleftrightarrow> True"

lemma len_consumed_advances:
  assumes "advances s t" "initial_len s = bytes_len (c # char_iter s)"
  obtains m where "c # char_iter s = (c # m) @ char_iter t" "len_consumed t = bytes_len (c # m)"
proof -
  obtain m where "char_iter s = m @ char_iter t" "initial_len t = initial_len s"
    using assms(1) by (auto simp: advances_def suffix_def)
  with assms(2) show thesis by (intro that [of m]) (simp_all add: len_consumed_def)
qed

lemma number_literal_text:
  assumes "c # char_iter s = (c # m) @ char_iter (snd (number u c s))"
  shows "literal_text (fst (number u c s)) (c # m)"
proof (cases "fst (number u c s)")
  case (Int_kind bs e)
  show ?thesis
  proof (cases "bs = Decimal \<or> e")
    case False
    then obtain x m' where "c = ch CHR ''0''" "x < 128" "char_iter s = x # m' @ char_iter (snd (number u c s))"
      using number_based_shape [of u c s bs] Int_kind by auto
    with assms Int_kind show ?thesis by auto
  qed (auto simp: Int_kind)
qed (use number_kind in \<open>auto\<close>)

lemma token_kind_of_literal_text:
  assumes "fst (token_kind_of u c s) = Literal k n" "initial_len s = bytes_len (c # char_iter s)"
  shows "\<exists>num sfx. c # char_iter s = num @ sfx @ char_iter (snd (token_kind_of u c s))
    \<and> n = bytes_len num \<and> literal_text k num \<and> (is_Str_kind k \<longrightarrow> sfx = [])"
proof -
  let ?fin = "snd (token_kind_of u c s)"
  consider (str) "token_kind_of u c s = eat_string c s"
    | (num) "token_kind_of u c s =
        (Literal (fst (number u c s)) (len_consumed (snd (number u c s))), eat_lit_suffix u (snd (number u c s)))"
    using assms(1)
    by (auto simp: token_kind_of_def punctuation_kind_no_literal Let_def case_prod_beta split: if_splits)
  then show ?thesis
  proof cases
    case str
    then have s: "fst (eat_string c s) = Literal k n" using assms(1) by simp
    obtain t tr where k: "k = Str_kind t tr" and n: "n = len_consumed ?fin"
      using eat_string_kind [OF s] str by auto
    obtain pre q body where sh: "is_quote q" "pre = [] \<or> (\<exists>r. pre = [r] \<and> is_raw_prefix r)" "tr \<longrightarrow> t"
      "c # char_iter s = pre @ opening_quote q tr @ body @ closing_quote q tr t @ char_iter ?fin"
      using eat_string_shape [OF s [unfolded k]] str by metis
    let ?num = "pre @ opening_quote q tr @ body @ closing_quote q tr t"
    have "initial_len ?fin = initial_len s"
      using eat_string.moves [of s c] str by (simp add: advances_def)
    then have "n = bytes_len ?num"
      using assms(2) sh(4) n by (simp add: len_consumed_def del: bytes_len_simps(2))
    with sh k show ?thesis
      by (intro exI [of _ ?num] exI [of _ "[]"]) auto
  next
    case num
    obtain m where m: "c # char_iter s = (c # m) @ char_iter (snd (number u c s))"
      "len_consumed (snd (number u c s)) = bytes_len (c # m)"
      using len_consumed_advances [OF number.moves assms(2)] by blast
    obtain sfx where "char_iter (snd (number u c s)) = sfx @ char_iter ?fin"
      using eat_lit_suffix.consumes_prefix num by (metis snd_conv)
    moreover have "\<not> is_Str_kind k"
      using assms(1) num number_kind by (auto simp: is_Str_kind_def)
    ultimately show ?thesis
      using m number_literal_text [OF m(1)] assms(1) num
      by (intro exI [of _ "c # m"] exI [of _ sfx]) auto
  qed
qed

lemma first_token_literal:
  assumes "cs \<noteq> []" "kind (first_token u cs) = Literal k n"
  obtains num sfx rest where "cs = num @ sfx @ rest" "n = bytes_len num"
    "len (first_token u cs) = bytes_len num + bytes_len sfx" "literal_text k num"
    "is_Str_kind k \<longrightarrow> sfx = []"
proof -
  obtain c ds where cs: "cs = c # ds" using assms(1) by (cases cs) auto
  let ?s = "at_rest (bytes_len cs) ds"
  have tok: "first_token u cs = \<lparr>kind = fst (token_kind_of u c ?s), len = len_consumed (snd (token_kind_of u c ?s))\<rparr>"
    by (simp add: first_token_def Lexer.token_def new_cursor_at_rest cs Let_def case_prod_beta)
  obtain num sfx where *: "c # char_iter ?s = num @ sfx @ char_iter (snd (token_kind_of u c ?s))"
    "n = bytes_len num" "literal_text k num" "is_Str_kind k \<longrightarrow> sfx = []"
  proof -
    have "fst (token_kind_of u c ?s) = Literal k n"
      using assms(2) unfolding tok by simp
    from token_kind_of_literal_text [OF this] show ?thesis
      using that by (auto simp: cs)
  qed
  have "initial_len (snd (token_kind_of u c ?s)) = bytes_len cs"
    using token_kind_of.moves [of ?s u c] by (simp add: advances_def)
  moreover have "bytes_len cs = bytes_len num + (bytes_len sfx + bytes_len (char_iter (snd (token_kind_of u c ?s))))"
    using arg_cong [OF *(1), of bytes_len] by (simp add: cs)
  ultimately have "len (first_token u cs) = bytes_len num + bytes_len sfx"
    unfolding tok len_consumed_def by simp
  with * cs show thesis by (intro that) auto
qed

lemma lex_literal_ok:
  assumes fit: "positions_fit lx" and src: "src lx = p @ num @ sfx @ r"
    and pos: "pos lx = pos_at lx (bytes_len p + bytes_len num + bytes_len sfx)"
    and shape: "literal_text k num"
  shows "\<exists>l lx'. lex_literal names (pos_at lx (bytes_len p)) (pos_at lx (bytes_len p + bytes_len num)) k lx
      = Inr (l, lx') \<and> reports lx lx'"
proof -
  have slice: "str_from_to lx (pos_at lx (bytes_len p)) (pos_at lx (bytes_len p + bytes_len num)) = Inr num"
    using str_from_to_middle [OF fit, of p num "sfx @ r"] src by simp
  show ?thesis
  proof (cases k)
    case (Int_kind bs e)
    with lex_int_ok [OF fit src pos, of bs e] shape show ?thesis
      by (simp add: lex_literal_def)
  next
    case (Float_kind bs e)
    have "\<exists>ok lx'. validate_literal_float bs (pos_at lx (bytes_len p)) e lx = (ok, lx') \<and> reports lx lx'"
      by (cases bs) (auto simp: validate_literal_float_def)
    then obtain ok lx' where v: "validate_literal_float bs (pos_at lx (bytes_len p)) e lx = (ok, lx')"
      "reports lx lx'" by blast
    with slice Float_kind show ?thesis
      by (cases ok) (simp_all add: lex_literal_def reports_keeps [OF v(2)])
  next
    case (Str_kind t tr)
    then obtain pre q body where *: "is_quote q" "pre = [] \<or> (\<exists>r. pre = [r] \<and> is_raw_prefix r)"
      "tr \<longrightarrow> t" "num = pre @ opening_quote q tr @ body @ closing_quote q tr t"
      using shape by auto
    from lex_string_eval [OF fit src *(4,1,2,3) refl refl, of names] Str_kind show ?thesis
      by (auto simp: lex_literal_def)
  next
    case (Bool_kind b)
    with slice show ?thesis by (auto simp: lex_literal_def)
  qed
qed

section \<open>Delimiters\<close>

definition delims_ok :: "lexer \<Rightarrow> bool" where
  "delims_ok lx \<longleftrightarrow> list_all (\<lambda>k. \<exists>d. k = OpenDelim d \<and> d \<noteq> NoDelim) (delims (indent_cxt lx))"

text \<open>What a step of \<open>lex_token\<close> leaves alone.\<close>

definition same_place :: "lexer \<Rightarrow> lexer \<Rightarrow> bool" where
  "same_place lx lx' \<longleftrightarrow> start_pos lx' = start_pos lx \<and> pos lx' = pos lx \<and> src lx' = src lx
     \<and> end_src_index lx' = end_src_index lx \<and> indents (indent_cxt lx') = indents (indent_cxt lx)"

lemma same_place_refl [simp]: "same_place lx lx"
  by (simp add: same_place_def)

lemma reports_same_place: "reports lx lx' \<Longrightarrow> same_place lx lx' \<and> (delims_ok lx' \<longleftrightarrow> delims_ok lx)"
  by (simp add: same_place_def delims_ok_def reports_keeps)

lemma error_same_place [simp]:
  "same_place lx (struct_span_error m sp lx') \<longleftrightarrow> same_place lx lx'"
  "same_place lx (struct_message_error e sp g lx') \<longleftrightarrow> same_place lx lx'"
  "delims_ok (struct_span_error m sp lx') \<longleftrightarrow> delims_ok lx'"
  "delims_ok (struct_message_error e sp g lx') \<longleftrightarrow> delims_ok lx'"
  by (simp_all add: same_place_def delims_ok_def struct_span_error_def struct_message_error_def
      add_parse_err_def)

lemma open_delim_ok:
  "d \<noteq> NoDelim \<Longrightarrow> delims_ok lx \<Longrightarrow> delims_ok (snd (open_delim d lx)) \<and> same_place lx (snd (open_delim d lx))"
  by (simp add: open_delim_def delims_ok_def same_place_def)

lemma close_delim_ok:
  assumes "delims_ok lx"
  shows "\<exists>e lx'. close_delim d m start lx = Inr (CloseDelim e, lx') \<and> delims_ok lx' \<and> same_place lx lx'"
proof (cases "delims (indent_cxt lx)")
  case Nil
  then show ?thesis by (simp add: close_delim_def Let_def, simp add: delims_ok_def same_place_def)
next
  case (Cons k ks)
  with assms obtain e where "k = OpenDelim e" "e \<noteq> NoDelim" "list_all (\<lambda>k. \<exists>d. k = OpenDelim d \<and> d \<noteq> NoDelim) ks"
    by (auto simp: delims_ok_def)
  with Cons show ?thesis
    by (cases e) (simp_all add: close_delim_def Let_def, simp_all add: delims_ok_def same_place_def)
qed

section \<open>One token\<close>

lemma look_behind_ok:
  assumes "buf \<noteq> [] \<longrightarrow> tok_start_pos lx \<ge> 1"
  shows "\<exists>k buf' lx'. look_behind Gt buf lx = Inr (k, buf', lx') \<and> same_place lx lx'
    \<and> (delims_ok lx' \<longleftrightarrow> delims_ok lx) \<and> (buf' = buf \<or> buf' = butlast buf) \<and> k \<noteq> Some Eof"
  using assms
  by (auto simp: look_behind_def pop_if_tok_kind_def peek_tok_kind_def same_place_def delims_ok_def
      split: if_splits)

lemma simple_kind_not_eof: "simple_kind tk \<noteq> Some Eof"
  by (cases tk) (simp_all add: simple_kind_def)

definition token_result :: "token_buf \<Rightarrow> lexer \<Rightarrow> lexed \<Rightarrow> bool" where
  "token_result buf lx r \<longleftrightarrow> (\<exists>k buf' lx'. r = Inr (k, buf', lx') \<and> same_place lx lx' \<and> delims_ok lx'
     \<and> (buf' = buf \<or> buf' = butlast buf) \<and> k \<noteq> Some Eof)"

lemma token_resultI:
  "same_place lx lx' \<Longrightarrow> delims_ok lx' \<Longrightarrow> k \<noteq> Some Eof \<Longrightarrow> token_result buf lx (Inr (k, buf, lx'))"
  by (simp add: token_result_def)

lemma token_result_close:
  assumes "delims_ok lx"
  shows "token_result buf lx (case close_delim d m start lx of
    Inl p \<Rightarrow> Inl p | Inr (k, lx) \<Rightarrow> Inr (Some k, buf, lx))"
  using close_delim_ok [OF assms, of d m start] by (auto simp: token_result_def)

lemma token_result_open:
  assumes "delims_ok lx" "d \<noteq> NoDelim"
  shows "token_result buf lx (case open_delim d lx of (k, lx) \<Rightarrow> Inr (Some k, buf, lx))"
  using open_delim_ok [OF assms(2,1)] by (auto simp: token_result_def open_delim_def)

lemma token_result_simple:
  assumes "delims_ok lx"
  shows "token_result buf lx (case simple_kind tk of Some k \<Rightarrow> Inr (Some k, buf, lx)
    | None \<Rightarrow> Inr (None, buf, struct_span_error m sp lx))"
  using simple_kind_not_eof [of tk] assms by (cases "simple_kind tk") (auto intro!: token_resultI)

lemma lex_token_ok:
  assumes fit: "positions_fit lx" and src: "src lx = p @ cs"
    and cs: "cs = piece @ r" "cs \<noteq> []" "len (first_token u cs) = bytes_len piece"
    and start: "start = pos_at lx (bytes_len p)"
    and pos: "pos lx = pos_at lx (bytes_len p + bytes_len piece)"
    and buf: "buf \<noteq> [] \<longrightarrow> tok_start_pos lx \<ge> 1" and delims: "delims_ok lx"
  shows "token_result buf lx (lex_token names (first_token u cs) start buf lx)"
proof -
  have str: "str_from lx start = Inr piece"
    using str_from_to_middle [OF fit, of p piece r] src cs(1) by (simp add: str_from_def start pos)
  have lit: "token_result buf lx (case lex_literal names start (start + of_nat n) k lx of
        Inl p \<Rightarrow> Inl p | Inr (l, lx) \<Rightarrow> Inr (Some (Literal_t l), buf, lx))"
    if "kind (first_token u cs) = Literal k n" for k n
  proof -
    obtain num sfx rest where *: "cs = num @ sfx @ rest" "n = bytes_len num"
      "len (first_token u cs) = bytes_len num + bytes_len sfx" "literal_text k num"
      by (rule first_token_literal [OF cs(2) \<open>kind (first_token u cs) = Literal k n\<close>])
    have "pos lx = pos_at lx (bytes_len p + bytes_len num + bytes_len sfx)"
      using pos cs(3) *(3) by (simp add: add.assoc)
    from lex_literal_ok [OF fit _ this *(4), of rest names] src *(1)
    obtain l lx' where "lex_literal names start (start + of_nat n) k lx = Inr (l, lx')" "reports lx lx'"
      by (auto simp: start *(2) pos_at_add)
    with reports_same_place [OF this(2)] delims show ?thesis
      by (auto intro!: token_resultI)
  qed
  have gt: "token_result buf lx (case look_behind Gt buf lx of
      Inl p \<Rightarrow> Inl p | Inr (Some k, buf, lx) \<Rightarrow> Inr (Some k, buf, lx)
      | Inr (None, buf, lx) \<Rightarrow> Inr (Some (BinCmp Gt_t), buf, lx))"
    using look_behind_ok [OF buf] delims by (auto simp: token_result_def split: option.split)
  have newline: "token_result buf lx
      (Inr (Some Newline_t, buf, map_cxt (\<lambda>c. c\<lparr>new_line_beginning := True\<rparr>) lx))"
    using delims by (intro token_resultI) (simp_all add: same_place_def delims_ok_def)
  note res = token_result_simple [OF delims] token_result_close [OF delims] token_result_open [OF delims]
    lit gt newline
  show ?thesis
    by (cases "kind (first_token u cs)")
      (simp_all add: lex_token_def Let_def str delims res token_resultI)
qed

section \<open>Indentation\<close>

text \<open>Levels are compared in the product order of tabs and spaces; incomparable ones
  are the inconsistent ones.\<close>

definition deeper :: "indent_level \<Rightarrow> indent_level \<Rightarrow> bool" where
  "deeper a b \<longleftrightarrow> level_tabs b \<le> level_tabs a \<and> level_spaces b \<le> level_spaces a \<and> a \<noteq> b"

lemma level_eq_iff: "a = b \<longleftrightarrow> level_tabs a = level_tabs b \<and> level_spaces a = level_spaces b"
  for a b :: indent_level
  by auto

lemma level_cmp_iff:
  "level_cmp a b = Inr Greater \<longleftrightarrow> deeper a b"
  "level_cmp a b = Inr Less \<longleftrightarrow> deeper b a"
  "level_cmp a b = Inr Equal \<longleftrightarrow> a = b"
  by (auto simp: level_cmp_def ordering_of_def deeper_def level_eq_iff)

lemma deeper_trans: "deeper a b \<Longrightarrow> deeper b c \<Longrightarrow> deeper a c"
  by (auto simp: deeper_def level_eq_iff)

lemma deeper_irrefl [simp]: "\<not> deeper a a"
  by (simp add: deeper_def)

text \<open>The stack of levels: each deeper than the one below it, down to column zero.\<close>

definition indents_ok :: "indent_level list \<Rightarrow> bool" where
  "indents_ok ls \<longleftrightarrow> ls \<noteq> [] \<and> last ls = default_level \<and> sorted_wrt deeper ls"

lemma indents_ok_drop: "indents_ok ls \<Longrightarrow> n < length ls \<Longrightarrow> indents_ok (drop n ls)"
  by (auto simp: indents_ok_def sorted_wrt_drop)

lemma indents_ok_push: "indents_ok (l # ls) \<Longrightarrow> deeper a l \<Longrightarrow> indents_ok (a # l # ls)"
  using deeper_trans by (fastforce simp: indents_ok_def)

abbreviation dedent_tok :: "lexer \<Rightarrow> ast_token" where
  "dedent_tok lx \<equiv> token_new (Dedent VALID_SPACES_LENGTH) (here lx)"

lemma here_cxt [simp]: "here (lx\<lparr>indent_cxt := c\<rparr>) = here lx"
  by (simp add: here_def)

lemma last_indent_Cons [simp]: "indents (indent_cxt lx) = l # ls \<Longrightarrow> last_indent lx = (l, lx)"
  by (simp add: last_indent_def)

lemma set_indents_same:
  "indents (indent_cxt lx) = ls \<Longrightarrow> map_cxt (indents_update (\<lambda>_. ls)) lx = lx"
  by (cases lx, cases "indent_cxt lx") simp

lemma dedent_loop_end:
  "dedent_loop i l (Inr Equal) popped dedents lx = (dedents, lx)"
  "dedent_loop i l (Inr Greater) popped dedents lx =
     (butlast dedents @ [token_new (Dedent (level_spaces i - level_spaces l)) (here lx)],
      map_cxt (indents_update (\<lambda>ls. take 1 popped @ ls)) lx)"
  "dedent_loop i l (Inl m) popped dedents lx = (dedents, struct_span_error m (here lx) lx)"
  by (simp_all add: dedent_loop.simps Let_def)

text \<open>The loop pops the levels that are deeper than the line.\<close>

lemma dedent_loop_pops:
  assumes "indents (indent_cxt lx) = open_above @ l # below" "\<forall>a \<in> set open_above. deeper a i"
  shows "dedent_loop i (hd (open_above @ [l])) (level_cmp i (hd (open_above @ [l]))) popped dedents lx
    = dedent_loop i l (level_cmp i l) (rev open_above @ popped)
        (dedents @ replicate (length open_above) (dedent_tok lx))
        (map_cxt (indents_update (\<lambda>_. l # below)) lx)"
  using assms
proof (induction open_above arbitrary: popped dedents lx)
  case Nil
  then show ?case by (simp add: set_indents_same)
next
  case (Cons a open_above)
  let ?lx = "map_cxt (indents_update tl) lx"
  have less: "level_cmp i a = Inr Less"
    using Cons.prems(2) by (simp add: level_cmp_iff)
  obtain m ms where m: "open_above @ l # below = m # ms" "hd (open_above @ [l]) = m"
    by (cases open_above) auto
  have "dedent_loop i a (level_cmp i a) popped dedents lx
      = dedent_loop i m (level_cmp i m) (a # popped) (dedents @ [dedent_tok lx]) ?lx"
    using Cons.prems(1) m
    by (subst dedent_loop.simps) (simp add: less)
  also have "\<dots> = dedent_loop i l (level_cmp i l) (rev open_above @ a # popped)
        ((dedents @ [dedent_tok lx]) @ replicate (length open_above) (dedent_tok ?lx))
        (map_cxt (indents_update (\<lambda>_. l # below)) ?lx)"
    using Cons.IH [of ?lx "a # popped" "dedents @ [dedent_tok lx]"] Cons.prems m(2) by simp
  finally show ?case by simp
qed

text \<open>C15. A line that is indented like one of the open levels closes exactly the levels
  above it: one \<open>Dedent\<close> token for each, of the valid length, and the level of the
  line is the innermost one afterwards; there is no \<open>Dedent\<close> when it is the
  innermost one already, and nothing is reported.\<close>

theorem lex_indent_closes_levels:
  assumes "indents (indent_cxt lx) = open_above @ l # below" "indents_ok (open_above @ l # below)"
    "l = \<lparr>level_tabs = tabs (indent_cxt lx), level_spaces = spaces (indent_cxt lx)\<rparr>"
  shows "lex_indent lx =
    (if open_above = [] then None
     else Some (Dedents (replicate (length open_above) (token_new (Dedent VALID_SPACES_LENGTH) (here lx)))),
     lx\<lparr>indent_cxt := (indent_cxt lx)\<lparr>tabs := 0, spaces := 0, indents := l # below\<rparr>\<rparr>)"
proof -
  let ?lx = "map_cxt (\<lambda>c. c\<lparr>tabs := 0, spaces := 0\<rparr>) lx"
  have ind: "indents (indent_cxt ?lx) = open_above @ l # below" using assms(1) by simp
  have deep: "\<forall>a \<in> set open_above. deeper a l"
    using assms(2) by (auto simp: indents_ok_def sorted_wrt_append)
  have eq: "level_cmp l l = Inr Equal" by (simp add: level_cmp_iff)
  show ?thesis
  proof (cases open_above)
    case Nil
    with ind eq assms(1) show ?thesis
      by (simp add: lex_indent_def Let_def flip: assms(3))
  next
    case (Cons a as)
    have less: "level_cmp l a = Inr Less"
      using deep Cons by (simp add: level_cmp_iff)
    have "dedent_loop l a (level_cmp l a) [] [] ?lx =
        (replicate (length open_above) (dedent_tok lx), map_cxt (indents_update (\<lambda>_. l # below)) ?lx)"
      using dedent_loop_pops [OF ind deep, of "[]" "[]"] Cons
      by (simp add: dedent_loop_end eq)
    with ind less Cons show ?thesis
      by (simp add: lex_indent_def Let_def flip: assms(3))
  qed
qed

theorem lex_indent_closes_levels_witness:
  "let level = (\<lambda>n. \<lparr>level_tabs = 0, level_spaces = n\<rparr>);
       lx = (new_lexer [] 7)\<lparr>indent_cxt := \<lparr>new_line_beginning = False, delims = [], tabs = 0,
         spaces = 2, indents = map level [8, 4, 2, 0]\<rparr>\<rparr>
   in fst (lex_indent lx) = Some (Dedents (replicate 2 (token_new (Dedent 0) (here lx))))
     \<and> indents (indent_cxt (snd (lex_indent lx))) = map level [2, 0]"
  using lex_indent_closes_levels [of
      "(new_lexer [] 7)\<lparr>indent_cxt := \<lparr>new_line_beginning = False, delims = [], tabs = 0, spaces = 2,
         indents = map (\<lambda>n. \<lparr>level_tabs = 0, level_spaces = n\<rparr>) [8, 4, 2, 0]\<rparr>\<rparr>"
      "map (\<lambda>n. \<lparr>level_tabs = 0, level_spaces = n\<rparr>) [8, 4]"
      "\<lparr>level_tabs = 0, level_spaces = 2\<rparr>" "[\<lparr>level_tabs = 0, level_spaces = 0\<rparr>]"]
  by (simp add: indents_ok_def deeper_def default_level_def numeral_2_eq_2)

text \<open>Every step of the indentation keeps the stack well formed.\<close>

definition cxt_step :: "lexer \<Rightarrow> lexer \<Rightarrow> bool" where
  "cxt_step lx lx' \<longleftrightarrow> start_pos lx' = start_pos lx \<and> pos lx' = pos lx \<and> src lx' = src lx
     \<and> end_src_index lx' = end_src_index lx \<and> delims (indent_cxt lx') = delims (indent_cxt lx)
     \<and> indents_ok (indents (indent_cxt lx'))"

lemma cxt_step_map:
  "delims (f (indent_cxt lx)) = delims (indent_cxt lx) \<Longrightarrow> indents_ok (indents (f (indent_cxt lx))) \<Longrightarrow>
     cxt_step lx (map_cxt f lx)"
  by (simp add: cxt_step_def)

lemma cxt_step_trans: "cxt_step a b \<Longrightarrow> cxt_step b c \<Longrightarrow> cxt_step a c"
  by (simp add: cxt_step_def)

lemma cxt_step_error [simp]: "cxt_step lx (struct_span_error m sp lx') \<longleftrightarrow> cxt_step lx lx'"
  by (simp add: cxt_step_def struct_span_error_def add_parse_err_def)

lemma split_levels:
  assumes "indents_ok ls"
  obtains open_above l below where "ls = open_above @ l # below" "\<forall>a \<in> set open_above. deeper a i"
    "\<not> deeper l i"
proof -
  have "last ls \<in> set ls" "\<not> deeper (last ls) i"
    using assms by (auto simp: indents_ok_def deeper_def default_level_def level_eq_iff)
  then have "\<not> (\<forall>a \<in> set ls. deeper a i)" by blast
  then obtain l where "dropWhile (\<lambda>a. deeper a i) ls = l # tl (dropWhile (\<lambda>a. deeper a i) ls)" "\<not> deeper l i"
    by (metis dropWhile_eq_Nil_conv hd_dropWhile list.collapse)
  then show thesis
    by (intro that [of "takeWhile (\<lambda>a. deeper a i) ls"]) (auto dest: set_takeWhileD intro: sym [OF takeWhile_dropWhile_id, THEN trans])
qed

lemma cmp_result_cases:
  fixes r :: "string + ordering"
  obtains "r = Inr Less" | "r = Inr Equal" | "r = Inr Greater" | m where "r = Inl m"
  by (cases r) (use ordering.exhaust in blast)+

lemma dedent_loop_step:
  assumes "indents (indent_cxt lx) = a # ls" "indents_ok (a # ls)"
  shows "cxt_step lx (snd (dedent_loop i a (level_cmp i a) [] [] lx))"
proof -
  obtain above1 l below where s: "a # ls = above1 @ l # below" "\<forall>a \<in> set above1. deeper a i" "\<not> deeper l i"
    using split_levels [OF assms(2)] by blast
  let ?lx = "map_cxt (indents_update (\<lambda>_. l # below)) lx"
  have hd: "hd (above1 @ [l]) = a"
    using s(1) by (cases above1) auto
  have pops: "dedent_loop i a (level_cmp i a) [] [] lx = dedent_loop i l (level_cmp i l) (rev above1)
      (replicate (length above1) (dedent_tok lx)) ?lx"
    using dedent_loop_pops [of lx above1 l below i "[]" "[]"] s assms(1) by (simp add: hd)
  have suf: "indents_ok (drop n (a # ls))" if "n \<le> length above1" for n
    using indents_ok_drop [OF assms(2), of n] that s(1) by (simp add: arg_cong [OF s(1), of length])
  have lower: "indents_ok (l # below)"
    using suf [of "length above1"] by (simp add: s(1))
  have restored: "indents_ok (take 1 (rev above1) @ l # below)"
    using suf [of "length above1 - 1"] lower s(1)
    by (cases above1 rule: rev_cases) simp_all
  have "level_cmp i l \<noteq> Inr Less"
    using s(3) by (simp add: level_cmp_iff)
  then show ?thesis
    unfolding pops using lower restored
    by (cases "level_cmp i l" rule: cmp_result_cases)
      (simp_all add: dedent_loop_end, simp_all add: cxt_step_def)
qed

lemma lex_indent_step:
  assumes "indents_ok (indents (indent_cxt lx))"
  shows "cxt_step lx (snd (lex_indent lx))"
proof -
  let ?i = "\<lparr>level_tabs = tabs (indent_cxt lx), level_spaces = spaces (indent_cxt lx)\<rparr>"
  let ?lx = "map_cxt (\<lambda>c. c\<lparr>tabs := 0, spaces := 0\<rparr>) lx"
  obtain l ls where ls: "indents (indent_cxt lx) = l # ls"
    using assms by (cases "indents (indent_cxt lx)") (auto simp: indents_ok_def)
  have step: "cxt_step lx ?lx" using assms by (intro cxt_step_map) simp_all
  have last: "last_indent ?lx = (l, ?lx)" using ls by simp
  have push: "cxt_step lx (map_cxt (indents_update (Cons ?i)) ?lx)" if "level_cmp ?i l = Inr Greater"
    using assms ls that indents_ok_push [of l ls ?i] by (simp add: cxt_step_def level_cmp_iff)
  have loop: "cxt_step lx (snd (dedent_loop ?i l (level_cmp ?i l) [] [] ?lx))"
    using cxt_step_trans [OF step dedent_loop_step] ls assms by simp
  show ?thesis
    using last step push loop
    by (cases "level_cmp ?i l" rule: cmp_result_cases) (simp_all add: lex_indent_def Let_def case_prod_beta)
qed

lemma lex_indent_context_step:
  assumes "indents_ok (indents (indent_cxt lx))"
  shows "cxt_step lx (snd (lex_indent_context tk lx))"
proof -
  have refl: "cxt_step lx lx" using assms by (simp add: cxt_step_def)
  have "cxt_step lx (snd (lex_indent (map_cxt (\<lambda>c. c\<lparr>new_line_beginning := False\<rparr>) lx)))"
    using assms lex_indent_step [of "map_cxt (\<lambda>c. c\<lparr>new_line_beginning := False\<rparr>) lx"]
    by (simp add: cxt_step_def)
  with refl assms show ?thesis
    by (cases tk) (simp_all add: lex_indent_context_def cxt_step_def)
qed

section \<open>The token stream\<close>

text \<open>The lexer between two tokens: it has read \<open>p\<close> and has \<open>rest\<close> to read.\<close>

definition lexing :: "byte_pos \<Rightarrow> rchar list \<Rightarrow> lexer \<Rightarrow> rchar list \<Rightarrow> rchar list \<Rightarrow> token_buf \<Rightarrow> bool" where
  "lexing start source lx p rest buf \<longleftrightarrow> start_pos lx = start \<and> source = p @ rest \<and> positions_fit lx \<and> src lx = p @ rest \<and> pos lx = pos_at lx (bytes_len p)
     \<and> end_src_index lx = bytes_len (src lx) \<and> delims_ok lx \<and> indents_ok (indents (indent_cxt lx))
     \<and> (buf \<noteq> [] \<longrightarrow> p \<noteq> [])"

lemma lexing_new:
  "unat start + bytes_len source < 2 ^ 32 \<Longrightarrow> lexing start source (new_lexer source start) [] source []"
  by (simp add: lexing_def new_lexer_def positions_fit_def pos_at_def delims_ok_def indents_ok_def)

lemma lexing_slice:
  assumes "lexing start source lx p rest buf"
  shows "slice_bytes (src_index lx (pos lx)) (end_src_index lx) (src lx) = Some rest"
  using assms slice_bytes_middle [of p rest "[]"] by (simp add: lexing_def src_index_pos_at)

lemma first_token_piece:
  assumes "cs \<noteq> []"
  obtains piece r where "cs = piece @ r" "len (first_token u cs) = bytes_len piece" "piece \<noteq> []"
proof -
  obtain p where "p \<noteq> []" "char_iter (new_cursor cs) = p @ char_iter (snd (Lexer.token u (new_cursor cs)))"
    "len (fst (Lexer.token u (new_cursor cs))) = bytes_len p"
    by (rule lex.next_piece [of "new_cursor cs" u]) (use assms in \<open>simp_all add: new_cursor_def is_eof_def\<close>)
  then show thesis
    by (intro that [of p]) (simp_all add: first_token_def, simp add: new_cursor_def)
qed

lemma token_step_ok:
  assumes "lexing start source lx p rest buf" "rest \<noteq> []"
  obtains indent k buf' lx' p' rest' where "token_step u names rest buf lx = (indent, Inr (k, buf', lx'))"
    "lexing start source lx' p' rest' buf'" "length rest' < length rest" "k \<noteq> Some Eof" "p' \<noteq> []"
    "buf' = buf \<or> buf' = butlast buf" "indent = fst (lex_indent_context (kind (first_token u rest)) lx)"
proof -
  let ?t = "first_token u rest"
  define lx1 where "lx1 = snd (lex_indent_context (kind ?t) lx)"
  define lx2 where "lx2 = lx1\<lparr>tok_start_pos := pos lx1, pos := pos lx1 + of_nat (len ?t)\<rparr>"
  have fixed: "start_pos lx = start" "source = p @ rest"
    using assms(1) by (simp_all add: lexing_def)
  have inv: "positions_fit lx" "src lx = p @ rest" "pos lx = pos_at lx (bytes_len p)"
    "end_src_index lx = bytes_len (src lx)" "delims_ok lx" "indents_ok (indents (indent_cxt lx))"
    "buf \<noteq> [] \<longrightarrow> p \<noteq> []"
    using assms(1) by (simp_all add: lexing_def)
  have step: "cxt_step lx lx1"
    unfolding lx1_def by (rule lex_indent_context_step [OF inv(6)])
  obtain piece r where piece: "rest = piece @ r" "len ?t = bytes_len piece" "piece \<noteq> []"
    by (rule first_token_piece [OF assms(2)])
  have at: "start_pos lx2 = start_pos lx" "pos_at lx2 = pos_at lx" "positions_fit lx2" "src lx2 = p @ rest"
    "tok_start_pos lx2 = pos_at lx (bytes_len p)" "pos lx2 = pos_at lx (bytes_len p + bytes_len piece)"
    "delims_ok lx2" "end_src_index lx2 = bytes_len (src lx2)" "indents_ok (indents (indent_cxt lx2))"
    using step inv piece(2)
    by (auto simp: lx2_def cxt_step_def pos_at_def positions_fit_def delims_ok_def fun_eq_iff)
  have start1: "tok_start_pos lx2 \<ge> 1" if "p \<noteq> []"
  proof -
    have "unat (pos_at lx (bytes_len p)) = unat (start_pos lx) + bytes_len p"
      using inv by (intro unat_pos_at) simp_all
    moreover have "1 \<le> bytes_len p"
      using that by (simp only: One_nat_def Suc_le_eq neq0_conv [symmetric] bytes_len_eq_0_iff simp_thms)
    ultimately show ?thesis by (simp add: at word_le_nat_alt)
  qed
  have "token_result buf lx2 (lex_token names ?t (tok_start_pos lx2) buf lx2)"
    by (rule lex_token_ok [where p = p and piece = piece and r = r])
      (use at piece assms(2) inv(7) start1 in \<open>auto\<close>)
  then obtain k buf' lx' where res: "lex_token names ?t (tok_start_pos lx2) buf lx2 = Inr (k, buf', lx')"
    "same_place lx2 lx'" "delims_ok lx'" "buf' = buf \<or> buf' = butlast buf" "k \<noteq> Some Eof"
    by (auto simp: token_result_def)
  have "lexing start source lx' (p @ piece) r buf'"
    using res(2,3) at piece(1,3) fixed inv(2)
    by (auto simp: lexing_def same_place_def pos_at_def positions_fit_def)
  moreover have "token_step u names rest buf lx = (fst (lex_indent_context (kind ?t) lx), Inr (k, buf', lx'))"
    using res(1) by (simp add: token_step_def Let_def case_prod_beta lx1_def lx2_def)
  ultimately show thesis
    using res piece by (intro that [of _ k buf' lx' "p @ piece" r]) auto
qed

text \<open>The tokens that the indentation adds.\<close>

definition layout_tok :: "ast_token \<Rightarrow> bool" where
  "layout_tok t \<longleftrightarrow> (case tok_kind t of Indent _ \<Rightarrow> True | Dedent _ \<Rightarrow> True | _ \<Rightarrow> False)"

lemma layout_tok_new [simp]: "layout_tok (token_new (Dedent n) s)" "layout_tok (token_new (Indent n) s)"
  by (simp_all add: layout_tok_def token_new_def)

fun layout_tokens :: "indent_or_dedents \<Rightarrow> token_buf" where
  "layout_tokens (IndentTok t) = [t]"
| "layout_tokens (Dedents ts) = ts"

lemma dedent_loop_layout:
  "list_all layout_tok dedents \<Longrightarrow> list_all layout_tok (fst (dedent_loop i l c popped dedents lx))"
proof (induction i l c popped dedents lx rule: dedent_loop.induct)
  case (1 i l c popped dedents lx)
  have butlast: "list_all layout_tok (butlast dedents)"
    using "1.prems" by (auto simp: list_all_iff dest: in_set_butlastD)
  show ?case
  proof (cases c rule: cmp_result_cases)
    case 1
    show ?thesis
      using "1.IH" [OF 1 refl refl refl refl refl] "1.prems" 1
      by (subst dedent_loop.simps) (simp add: Let_def case_prod_beta prod_eq_iff)
  qed (use "1.prems" butlast in \<open>simp_all add: dedent_loop_end\<close>)
qed

lemma lex_indent_layout: "fst (lex_indent lx) = Some i \<Longrightarrow> list_all layout_tok (layout_tokens i)"
  using dedent_loop_layout [of "[]"]
  by (auto simp: lex_indent_def Let_def case_prod_beta split: sum.splits ordering.splits)

lemma lex_indent_context_layout:
  "fst (lex_indent_context tk lx) = Some i \<Longrightarrow> list_all layout_tok (layout_tokens i)"
  by (cases tk) (auto simp: lex_indent_context_def dest: lex_indent_layout split: if_splits)

definition eof_free :: "token_buf \<Rightarrow> bool" where
  "eof_free buf \<longleftrightarrow> list_all (\<lambda>t. tok_kind t \<noteq> Eof) buf"

lemma eof_free_simps [simp]:
  "eof_free []" "eof_free (a @ b) \<longleftrightarrow> eof_free a \<and> eof_free b"
  "eof_free [token_new k s] \<longleftrightarrow> k \<noteq> Eof"
  by (simp_all add: eof_free_def token_new_def)

lemma eof_free_layout: "list_all layout_tok ts \<Longrightarrow> eof_free ts"
  by (auto simp: eof_free_def list_all_iff layout_tok_def)

lemma eof_free_butlast: "eof_free buf \<Longrightarrow> eof_free (butlast buf)"
  by (auto simp: eof_free_def list_all_iff dest: in_set_butlastD)

definition with_layout :: "indent_or_dedents option \<Rightarrow> ast_token \<Rightarrow> token_with_indents" where
  "with_layout indent t = (case indent of Some i \<Rightarrow> WithIndent t i | None \<Rightarrow> Token t)"

lemma append_with_layout:
  "append_to (with_layout indent t) buf
    = buf @ (case indent of Some i \<Rightarrow> layout_tokens i | None \<Rightarrow> []) @ [t]"
  by (cases indent; cases "the indent") (simp_all add: with_layout_def)

lemma is_eof_with_layout [simp]: "is_eof_tok (with_layout indent t) \<longleftrightarrow> tok_kind t = Eof"
  by (simp add: with_layout_def split: option.split)

text \<open>\<open>Lexer::token\<close> returns: the end of the stream, or a token that made progress.\<close>

definition token_outcome ::
  "byte_pos \<Rightarrow> rchar list \<Rightarrow> nat \<Rightarrow> (lexer_panic + (token_with_indents \<times> token_buf \<times> lexer)) option \<Rightarrow> bool" where
  "token_outcome start source n r \<longleftrightarrow>
     (\<exists>buf lx p. r = Some (Inr (Token (token_new Eof (here lx)), buf, lx)) \<and> lexing start source lx p [] buf \<and> eof_free buf)
     \<or> (\<exists>t buf lx p rest. r = Some (Inr (t, buf, lx)) \<and> \<not> is_eof_tok t
          \<and> lexing start source lx p rest (append_to t buf) \<and> length rest < n \<and> eof_free (append_to t buf))"

lemma token_outcome_mono:
  assumes "token_outcome start source m r" "m \<le> n"
  shows "token_outcome start source n r"
  using assms(1) unfolding token_outcome_def
proof (elim disjE, goal_cases)
  case 2
  then show ?case using less_le_trans [OF _ assms(2)] by (intro disjI2) blast
qed blast

lemma lexer_token_ok:
  assumes "lexing start source lx p rest buf" "eof_free buf"
  shows "token_outcome start source (length rest) (lexer_token u names buf lx)"
  using assms
proof (induction "length rest" arbitrary: lx p rest buf rule: less_induct)
  case less
  note slice = lexing_slice [OF less.prems(1)]
  show ?case
  proof (cases "rest = []")
    case True
    with slice less.prems show ?thesis
      unfolding token_outcome_def
      by (intro disjI1 exI [of _ buf] exI [of _ lx] exI [of _ p]) (subst lexer_token.simps, simp)
  next
    case False
    obtain indent k buf' lx' p' rest' where st:
      "token_step u names rest buf lx = (indent, Inr (k, buf', lx'))" "lexing start source lx' p' rest' buf'"
      "length rest' < length rest" "k \<noteq> Some Eof" "p' \<noteq> []" "buf' = buf \<or> buf' = butlast buf"
      "indent = fst (lex_indent_context (kind (first_token u rest)) lx)"
      by (rule token_step_ok [OF less.prems(1) False])
    have free: "eof_free buf'"
      using st(6) less.prems(2) eof_free_butlast by auto
    show ?thesis
    proof (cases k)
      case None
      have "lexer_token u names buf lx = lexer_token u names buf' lx'"
        using slice False st(1) None by (subst lexer_token.simps) simp
      with less.hyps [OF st(3,2) free] st(3) show ?thesis
        by (simp add: token_outcome_mono)
    next
      case (Some kd)
      let ?t = "token_new kd (span_new (tok_start_pos lx') (pos lx'))"
      have "lexer_token u names buf lx = Some (Inr (with_layout indent ?t, buf', lx'))"
        using slice False st(1) Some
        by (subst lexer_token.simps) (simp add: Let_def with_layout_def)
      moreover have "eof_free (append_to (with_layout indent ?t) buf')"
        using free st(4,7) Some lex_indent_context_layout eof_free_layout
        by (auto simp: append_with_layout split: option.split)
      moreover have "lexing start source lx' p' rest' (append_to (with_layout indent ?t) buf')"
        using st(2,5) by (simp add: lexing_def)
      ultimately show ?thesis
        unfolding token_outcome_def using st(3,4) Some
        by (intro disjI2 exI [of _ "with_layout indent ?t"] exI [of _ buf'] exI [of _ lx'] exI [of _ p']
            exI [of _ rest']) (simp add: token_new_def)
    qed
  qed
qed

lemma into_tokens_ok:
  assumes "lexing start source lx p rest buf" "eof_free buf"
  shows "\<exists>buf' lx' p'. into_tokens u names buf lx = Some (Inr (lexer_eof buf' lx'))
    \<and> lexing start source lx' p' [] buf' \<and> eof_free buf'"
  using assms
proof (induction "length rest" arbitrary: lx p rest buf rule: less_induct)
  case less
  from lexer_token_ok [OF less.prems, of u names, unfolded token_outcome_def] show ?case
  proof (elim disjE exE conjE)
    fix buf' lx' p'
    assume "lexer_token u names buf lx = Some (Inr (Token (token_new Eof (here lx')), buf', lx'))"
      "lexing start source lx' p' [] buf'" "eof_free buf'"
    then show ?thesis
      by (intro exI [of _ buf'] exI [of _ lx'] exI [of _ p'])
        (subst into_tokens.simps, simp add: token_new_def)
  next
    fix t buf' lx' p' rest'
    assume *: "lexer_token u names buf lx = Some (Inr (t, buf', lx'))" "\<not> is_eof_tok t"
      "lexing start source lx' p' rest' (append_to t buf')" "length rest' < length rest" "eof_free (append_to t buf')"
    have "into_tokens u names buf lx = into_tokens u names (append_to t buf') lx'"
      using *(1,2) by (subst into_tokens.simps) simp
    with less.hyps [OF *(4,3,5)] show ?thesis by simp
  qed
qed



section \<open>Reading back literals\<close>

text \<open>A source that is one token: the stream is this token and the end of the line.\<close>

lemma parse_single_token:
  assumes fit: "unat start + bytes_len source < 2 ^ 32" "source \<noteq> []"
    and tok: "len (first_token u source) = bytes_len source"
    and lexed: "\<And>lx. src lx = source \<Longrightarrow> start_pos lx = start \<Longrightarrow> positions_fit lx \<Longrightarrow>
      pos lx = start + of_nat (bytes_len source) \<Longrightarrow>
      lex_token names (first_token u source) start [] lx = Inr (Some k, [], lx)"
    and k: "k \<noteq> Eof"
  shows "\<exists>lx. parse_token_streams u names source start =
      Some (Inr ([token_new k (span_new start (start + of_nat (bytes_len source))),
        token_new Newline_t (here lx), token_new Eof (here lx)], lx)) \<and> errors lx = []"
proof -
  let ?init = "new_lexer source start"
  let ?lx = "?init\<lparr>pos := start + of_nat (bytes_len source)\<rparr>"
  have l0: "lexing start source ?init [] source []"
    by (rule lexing_new [OF fit(1)])
  have same: "?init\<lparr>tok_start_pos := start, pos := p\<rparr> = ?init\<lparr>pos := p\<rparr>" for p
    by (simp add: new_lexer_def)
  have "lex_token names (first_token u source) start [] ?lx = Inr (Some k, [], ?lx)"
    by (rule lexed) (use fit in \<open>simp_all add: new_lexer_def positions_fit_def\<close>)
  moreover have "lex_indent_context tk ?init = (None, ?init)" for tk
    by (simp add: lex_indent_context_def new_lexer_def)
  ultimately have "token_step u names source [] ?init = (None, Inr (Some k, [], ?lx))"
    unfolding token_step_def Let_def by (simp add: tok, simp add: new_lexer_def)
  then have first: "lexer_token u names [] ?init =
      Some (Inr (Token (token_new k (span_new start (pos ?lx))), [], ?lx))"
    using lexing_slice [OF l0] fit(2)
    by (subst lexer_token.simps) (simp, simp add: new_lexer_def)
  have "lexing start source ?lx source [] buf" if "source \<noteq> []" for buf
    using fit(1) that
    by (simp add: lexing_def new_lexer_def positions_fit_def pos_at_def delims_ok_def indents_ok_def)
  from lexing_slice [OF this [OF fit(2)]]
  have second: "lexer_token u names buf ?lx = Some (Inr (Token (token_new Eof (here ?lx)), buf, ?lx))" for buf
    by (subst lexer_token.simps) simp
  let ?t = "token_new k (span_new start (pos ?lx))"
  have "into_tokens u names [] ?init = into_tokens u names [?t] ?lx"
    using k by (subst into_tokens.simps) (simp add: first token_new_def)
  also have "\<dots> = Some (Inr (lexer_eof [?t] ?lx))"
    by (subst into_tokens.simps) (simp add: second token_new_def)
  finally show ?thesis
    unfolding parse_token_streams_def
    by (simp add: lexer_eof_def Let_def new_lexer_def here_def)
qed

text \<open>The text of a string literal that denotes \<open>body\<close>.\<close>

definition quoted :: "rchar \<Rightarrow> bool \<Rightarrow> rchar list \<Rightarrow> rchar list" where
  "quoted q triple body = opening_quote q triple @ escape_str q body @ closing_quote q triple True"

lemma first_token_quoted:
  assumes "is_quote q" "triple \<or> single_line body"
  shows "first_token u (quoted q triple body)
    = \<lparr>kind = Literal (Str_kind True triple) (bytes_len (quoted q triple body)),
       len = bytes_len (quoted q triple body)\<rparr>"
  using first_token_triple_quoted [OF assms(1), of u body "[]"]
    first_token_single_quoted [OF assms(1), of body "[]" u] assms(2)
  by (auto simp: quoted_def opening_quote_def closing_quote_def quote_facts(8) [OF assms(1)])

text \<open>C13. A string literal is read back: the source that consists of the quoted and escaped
  text of a string (in single or double quotes, once or three times; between single
  quotes the string has no line breaks or null characters) lexes, without errors, to one string
  literal whose value is the string and whose raw text is the source.\<close>

theorem string_literal_roundtrip:
  assumes "is_quote q" "triple \<or> single_line body"
    "unat start + bytes_len (quoted q triple body) < 2 ^ 32"
  shows "\<exists>lx. parse_token_streams u names (quoted q triple body) start =
      Some (Inr ([token_new (Literal_t \<lparr>lit_kind = Str_lit triple False, symbol = body, suffix_sym = None,
          raw = Some (quoted q triple body)\<rparr>) (span_new start (start + of_nat (bytes_len (quoted q triple body)))),
        token_new Newline_t (here lx), token_new Eof (here lx)], lx)) \<and> errors lx = []"
proof (rule parse_single_token [OF assms(3)])
  let ?s = "quoted q triple body"
  show "?s \<noteq> []" by (simp add: quoted_def opening_quote_def)
  show "len (first_token u ?s) = bytes_len ?s"
    by (simp add: first_token_quoted [OF assms(1,2)])
  fix lx
  assume lx: "src lx = ?s" "start_pos lx = start" "positions_fit lx" "pos lx = start + of_nat (bytes_len ?s)"
  have eval: "str_content_eval names (escape_str q body) q triple False False = Some body"
    using assms(1,2) by (intro str_content_eval_escaped) (auto simp: single_line_def)
  have "lex_string names start (start + of_nat (bytes_len ?s)) True triple lx =
      Inr (\<lparr>lit_kind = Str_lit triple False, symbol = body, suffix_sym = None, raw = Some ?s\<rparr>, lx)"
  proof -
    have "\<exists>lx'. reports lx lx' \<and> lex_string names start (start + of_nat (bytes_len ?s)) True triple lx =
        Inr (\<lparr>lit_kind = Str_lit triple ([] \<noteq> ([] :: rchar list)),
          symbol = (case str_content_eval names (escape_str q body) q triple False ([] \<noteq> ([] :: rchar list)) of
            Some v \<Rightarrow> v | None \<Rightarrow> []), suffix_sym = None, raw = Some ?s\<rparr>, lx')
        \<and> (True \<and> str_content_eval names (escape_str q body) q triple False ([] \<noteq> ([] :: rchar list)) \<noteq> None
          \<longrightarrow> lx' = lx)"
      by (rule lex_string_eval [where p = "[]" and r = "[]" and pre = "[]"])
        (use lx assms(1) in \<open>simp_all add: pos_at_def, simp_all add: quoted_def\<close>)
    with eval show ?thesis by auto
  qed
  then show "lex_token names (first_token u ?s) start [] lx = Inr (Some (Literal_t
      \<lparr>lit_kind = Str_lit triple False, symbol = body, suffix_sym = None, raw = Some ?s\<rparr>), [], lx)"
    by (simp add: first_token_quoted [OF assms(1,2)] lex_token_def lex_literal_def)
qed simp

theorem string_literal_roundtrip_witness:
  "(\<exists>lx. parse_token_streams ascii_classes (\<lambda>_. None) [34, 97, 92, 34, 92, 92, 34] 3 =
      Some (Inr ([token_new (Literal_t \<lparr>lit_kind = Str_lit False False, symbol = [97, 34, 92], suffix_sym = None,
          raw = Some [34, 97, 92, 34, 92, 92, 34]\<rparr>) (span_new 3 10),
        token_new Newline_t (here lx), token_new Eof (here lx)], lx)) \<and> errors lx = [])
   \<and> is_quote 34 \<and> single_line [97, 34, 92]"
  using string_literal_roundtrip [of 34 False "[97, 34, 92]" 3 ascii_classes "\<lambda>_. None"]
  by (simp add: is_quote_def single_line_def quoted_def opening_quote_def closing_quote_def len_utf8_def)

section \<open>Where the lexer departs from its comments\<close>

text \<open>A zero followed by exactly one digit is read as an octal number without digits,
  which \<open>lex_literal\<close> rejects, although the comment allows the prefix: the arm of
  the match consumes the digit before it looks for digits.\<close>

theorem octal_one_digit_empty:
  assumes "ascii_id_start u" "is_ascii_digit d" "number_ends u rest"
  shows "first_token u (ch CHR ''0'' # d # rest) = \<lparr>kind = Literal (Int_kind Octal True) 2, len = 2\<rparr>"
proof -
  let ?n = "bytes_len (ch CHR ''0'' # d # rest)"
  have d: "len_utf8 d = 1" "d \<noteq> 98" "d < 128"
    using assms(2) by (auto simp: is_ascii_digit_def len_utf8_def)
  have stop: "\<not> is_id_start u (peek (at_rest ?n rest))" "\<not> is_ascii_digit (peek (at_rest ?n rest))"
    using assms(3) ascii_id_startD [OF assms(1), of 0]
    by (cases rest; simp add: number_ends_def ascii_letter_def is_ascii_digit_def)+
  have "peek (at_rest ?n rest) \<noteq> 95"
    using stop(1) ascii_id_startD [OF assms(1), of 95] by auto
  then have "decimal_digits_loop False (at_rest ?n rest) = (False, at_rest ?n rest)"
    using decimal_digits_at_rest [of ?n rest "[]" False] stop(2) by simp
  then have "number u 48 (at_rest ?n (d # rest)) = (Int_kind Octal True, at_rest ?n rest)"
    using assms(2) d by (simp add: number_def Let_def eat_decimal_digits_def)
  then have "token_kind_of u 48 (at_rest ?n (d # rest)) = (Literal (Int_kind Octal True) 2, at_rest ?n rest)"
    using stop(1) d ascii_id_startD [OF assms(1), of 48]
    by (simp add: token_kind_of_def try_comment_magic_def is_whitespace_def try_string_magic_def
        is_raw_prefix_def is_quote_def try_ident_magic_def ascii_letter_def is_ascii_digit_def
        eat_lit_suffix_def len_consumed_def len_utf8_def)
  then show ?thesis
    using d by (simp add: first_token_def Lexer.token_def new_cursor_at_rest len_consumed_def len_utf8_def)
qed

theorem octal_one_digit_empty_witness:
  "first_token ascii_classes (map of_char ''07 '') = \<lparr>kind = Literal (Int_kind Octal True) 2, len = 2\<rparr>"
  using octal_one_digit_empty [of ascii_classes 55 "[32]"]
  by (simp add: is_ascii_digit_def number_ends_def ascii_letter_def)

text \<open>A line indented strictly between two open levels closes the levels above it but
  keeps the innermost of them open, and the last \<open>Dedent\<close> token carries the number
  of excess spaces; the parser takes a \<open>Dedent\<close> of length zero for valid, so excess
  tabs go unreported.\<close>

theorem lex_indent_misaligned:
  assumes "indents (indent_cxt lx) = open_above @ m # l # below" "indents_ok (open_above @ m # l # below)"
    "i = \<lparr>level_tabs = tabs (indent_cxt lx), level_spaces = spaces (indent_cxt lx)\<rparr>"
    "level_cmp i m = Inr Less" "level_cmp i l = Inr Greater"
  shows "lex_indent lx =
    (Some (Dedents (replicate (length open_above) (token_new (Dedent VALID_SPACES_LENGTH) (here lx))
        @ [token_new (Dedent (level_spaces i - level_spaces l)) (here lx)])),
     lx\<lparr>indent_cxt := (indent_cxt lx)\<lparr>tabs := 0, spaces := 0, indents := m # l # below\<rparr>\<rparr>)"
proof -
  let ?lx = "map_cxt (\<lambda>c. c\<lparr>tabs := 0, spaces := 0\<rparr>) lx"
  let ?as = "open_above @ [m]"
  have ind: "indents (indent_cxt ?lx) = ?as @ l # below" using assms(1) by simp
  have mi: "deeper m i" using assms(4) by (simp add: level_cmp_iff)
  have deep: "\<forall>a \<in> set ?as. deeper a i"
    using assms(2) mi deeper_trans by (auto simp: indents_ok_def sorted_wrt_append)
  define a where "a = hd (?as @ [l])"
  have a: "a \<in> set ?as" by (cases open_above) (simp_all add: a_def)
  have less: "level_cmp i a = Inr Less"
    using deep a unfolding level_cmp_iff by blast
  have "dedent_loop i a (level_cmp i a) [] [] ?lx =
      (replicate (length open_above) (dedent_tok lx)
        @ [token_new (Dedent (level_spaces i - level_spaces l)) (here lx)],
       map_cxt (indents_update (\<lambda>_. m # l # below)) ?lx)"
    using dedent_loop_pops [OF ind deep, of "[]" "[]"] assms(5)
    by (simp add: a_def dedent_loop_end comp_def flip: replicate_append_same)
  moreover have "last_indent ?lx = (a, ?lx)"
    using ind by (cases open_above) (simp_all add: a_def)
  ultimately show ?thesis
    using less by (simp add: lex_indent_def Let_def comp_def flip: assms(3))
qed

theorem lex_indent_misaligned_witness:
  "let level = (\<lambda>n. \<lparr>level_tabs = n, level_spaces = 0\<rparr>);
       lx = (new_lexer [] 7)\<lparr>indent_cxt := \<lparr>new_line_beginning = False, delims = [], tabs = 1,
         spaces = 0, indents = map level [2, 0]\<rparr>\<rparr>
   in fst (lex_indent lx) = Some (Dedents [token_new (Dedent 0) (here lx)])
     \<and> indents (indent_cxt (snd (lex_indent lx))) = map level [2, 0]"
  using lex_indent_misaligned [of
      "(new_lexer [] 7)\<lparr>indent_cxt := \<lparr>new_line_beginning = False, delims = [], tabs = 1, spaces = 0,
         indents = map (\<lambda>n. \<lparr>level_tabs = n, level_spaces = 0\<rparr>) [2, 0]\<rparr>\<rparr>"
      "[]" "\<lparr>level_tabs = 2, level_spaces = 0\<rparr>" "\<lparr>level_tabs = 0, level_spaces = 0\<rparr>" "[]"
      "\<lparr>level_tabs = 1, level_spaces = 0\<rparr>"]
  by (simp add: indents_ok_def deeper_def default_level_def level_cmp_iff)

text \<open>A minus sign and a greater sign form an arrow wherever the minus sign stands, also
  when blanks or a line continuation separate them; the arrow then starts one byte
  before the greater sign.\<close>

lemma arrow_ignores_gap:
  assumes "tok_kind t = BinOp Minus_t" "tok_start_pos lx \<ge> 1" "kind g = Gt"
  shows "lex_token names g start (buf @ [t]) lx
    = Inr (Some RArrow, buf, lx\<lparr>tok_start_pos := tok_start_pos lx - 1\<rparr>)"
  using assms
  by (simp add: lex_token_def look_behind_def pop_if_tok_kind_def peek_tok_kind_def)

end
