(* ===== verification/Int_Literal.thy ===== *)
theory Int_Literal
  imports Parse_Lexer_Laws
begin

text \<open>
  The value of an integer literal, \<open>src/crates/parser/src/parser/int.rs\<close>:
  \<open>bytes_to_int\<close> splits off the sign and the radix prefix, drops leading zeros,
  checks the underscores and converts the digits.  The functions of the crates
  \<open>bstr\<close> (\<open>trim\<close>) and \<open>num_bigint\<close> (parsing of the digits, the
  64-bit digits of a number) are the parameter \<open>bigint_ops\<close>; what is relied on of
  them is the predicate \<open>bigint_laws\<close>.
\<close>

section \<open>Definitions\<close>

record bigint_ops =
  trim :: "nat list \<Rightarrow> nat list"
  parse_bytes :: "nat list \<Rightarrow> nat \<Rightarrow> nat option"
  to_u64_digits :: "nat \<Rightarrow> nat list"

definition detect_base :: "nat \<Rightarrow> nat \<times> nat" where
  "detect_base c =
     (if c = ch CHR ''x'' \<or> c = ch CHR ''X'' then (16, 2)
      else if c = ch CHR ''b'' \<or> c = ch CHR ''B'' then (2, 2)
      else if c = ch CHR ''o'' \<or> c = ch CHR ''O'' then (8, 2)
      else (8, 1))"

datatype int_sign = PlusSign | MinusSign

definition split_sign :: "nat list \<Rightarrow> int_sign option \<times> nat list" where
  "split_sign lit =
     (if hd lit = ch CHR ''+'' then (Some PlusSign, tl lit)
      else if hd lit = ch CHR ''-'' then (Some MinusSign, tl lit)
      else (None, lit))"

text \<open>The result of splitting the radix: \<open>Inl\<close> is an early return, \<open>Inr\<close> the
  base, whether there is a radix prefix and its length.\<close>

definition split_radix :: "nat list \<Rightarrow> nat \<Rightarrow> i64 option + (nat \<times> bool \<times> nat)" where
  "split_radix lit base1 =
     (let second = (\<lambda>a b. case lit of _ # c # _ \<Rightarrow> Inr (base1, c = ch a \<or> c = ch b, 2)
                              | _ \<Rightarrow> Inr (base1, False, 0))
      in if hd lit = ch CHR ''0'' then
           (if base1 = 0 then
              (case lit of
                 _ # c # _ \<Rightarrow> (let (b, n) = detect_base c in Inr (b, True, n))
               | _ \<Rightarrow> Inl (Some 0))
            else if base1 = 16 then second CHR ''x'' CHR ''X''
            else if base1 = 2 then second CHR ''b'' CHR ''B''
            else if base1 = 8 then second CHR ''o'' CHR ''O''
            else Inr (base1, False, 0))
         else Inr (if base1 = 0 then 10 else base1, False, 0))"

text \<open>The loop over the leading zeros: the count of the characters dropped and the last
  of them, or \<open>None\<close> for two underscores in a row.\<close>

fun zeroes_loop :: "nat \<Rightarrow> nat \<Rightarrow> nat list \<Rightarrow> (nat \<times> nat) option" where
  "zeroes_loop count last1 [] = Some (count, last1)"
| "zeroes_loop count last1 (c # cs) =
     (if c = ch CHR ''_'' then
        (if last1 = ch CHR ''_'' then None else zeroes_loop (count + 1) c cs)
      else if c \<noteq> ch CHR ''0'' then Some (count, last1)
      else zeroes_loop (count + 1) c cs)"

definition remove_zeroes :: "nat list \<Rightarrow> (nat \<times> nat list) option" where
  "remove_zeroes lit =
     (if hd lit = ch CHR ''0'' then
        (case zeroes_loop 0 (hd lit) (tl lit) of
           None \<Rightarrow> None
         | Some (count, last1) \<Rightarrow>
             (let prefix_last = lit ! count; lit = drop (count + 1) lit
              in if lit = [] \<and> prefix_last = ch CHR ''_'' then None else Some (last1, lit)))
      else Some (hd lit, lit))"

definition is_alphanumeric :: "nat \<Rightarrow> bool" where
  "is_alphanumeric c \<longleftrightarrow> is_ascii_digit c \<or> ascii_letter c"

fun validate_loop :: "nat \<Rightarrow> nat list \<Rightarrow> nat option" where
  "validate_loop last1 [] = Some last1"
| "validate_loop last1 (c # cs) =
     (if \<not> (is_alphanumeric c \<or> c = ch CHR ''_'') then None
      else if c = ch CHR ''_'' \<and> last1 = ch CHR ''_'' then None
      else validate_loop c cs)"

definition signed_digit :: "int_sign option \<Rightarrow> nat \<Rightarrow> i64" where
  "signed_digit sign d = (if sign = Some MinusSign then - of_nat d else of_nat d)"

definition convert_digits :: "bigint_ops \<Rightarrow> int_sign option \<Rightarrow> nat \<Rightarrow> nat list \<Rightarrow> i64 option" where
  "convert_digits ops sign base1 lit =
     (if lit = [] then Some 0
      else case parse_bytes ops lit base1 of
        None \<Rightarrow> None
      | Some n \<Rightarrow>
          (case to_u64_digits ops n of [d] \<Rightarrow> Some (signed_digit sign d) | _ \<Rightarrow> None))"

definition bytes_to_int :: "bigint_ops \<Rightarrow> nat list \<Rightarrow> nat \<Rightarrow> i64 option" where
  "bytes_to_int ops lit base1 =
     (let lit = trim ops lit
      in if lit = [] then None else
      let (sign, lit) = split_sign lit
      in if lit = [] then None else
      case split_radix lit base1 of
        Inl r \<Rightarrow> r
      | Inr (base1, has_radix, radix_len) \<Rightarrow>
          (let lit = (if has_radix then drop radix_len lit else lit)
           in if has_radix \<and> lit = [] then None else
           let lit = (if has_radix \<and> hd lit = ch CHR ''_'' then tl lit else lit)
           in if lit = [] then None else
           case remove_zeroes lit of
             None \<Rightarrow> None
           | Some (last1, lit) \<Rightarrow>
               (case validate_loop last1 lit of
                  None \<Rightarrow> None
                | Some last1 \<Rightarrow>
                    if last1 = ch CHR ''_'' then None else convert_digits ops sign base1 lit)))"

text \<open>What is relied on: \<open>trim\<close> leaves a text without white space alone,
  \<open>parse_bytes\<close> computes the value of decimal digits, \<open>to_u64_digits\<close> has one
  digit exactly for the numbers from 1 up to the largest unsigned 64-bit number.\<close>

definition decimal_value :: "nat list \<Rightarrow> nat" where
  "decimal_value ds = foldl (\<lambda>v d. 10 * v + (d - 48)) 0 ds"

definition bigint_laws :: "bigint_ops \<Rightarrow> bool" where
  "bigint_laws ops \<longleftrightarrow>
     (\<forall>ds. list_all is_ascii_digit ds \<longrightarrow> trim ops ds = ds)
     \<and> (\<forall>ds. ds \<noteq> [] \<and> list_all is_ascii_digit ds \<longrightarrow> parse_bytes ops ds 10 = Some (decimal_value ds))
     \<and> to_u64_digits ops 0 = []
     \<and> (\<forall>n. 0 < n \<and> n < 2 ^ 64 \<longrightarrow> to_u64_digits ops n = [n])
     \<and> (\<forall>n \<ge> 2 ^ 64. 2 \<le> length (to_u64_digits ops n))"

section \<open>Decimal literals\<close>

text \<open>The decimal digits of a number, as the bytes of the source.\<close>

definition decimal :: "nat \<Rightarrow> nat list" where
  "decimal n = map of_char (show_nat n)"

lemma decimal_unfold:
  "decimal n = (if n < 10 then [48 + n] else decimal (n div 10) @ [48 + n mod 10])"
proof -
  have "(of_char (char_of (48 + k)) :: nat) = 48 + k" if "k < 10" for k :: nat
    using that by (simp add: of_char_of)
  then show ?thesis
    by (simp add: decimal_def show_nat.simps [of n])
qed

lemma decimal_digits: "decimal n \<noteq> [] \<and> list_all is_ascii_digit (decimal n)"
proof (induction n rule: less_induct)
  case (less n)
  have digit: "is_ascii_digit (48 + k)" if "k < 10" for k
    using that by (simp add: is_ascii_digit_def)
  show ?case
    using less.IH [of "n div 10"]
    by (subst (1 2) decimal_unfold) (simp add: digit)
qed

lemma decimal_value_decimal [simp]: "decimal_value (decimal n) = n"
  by (induction n rule: less_induct) (subst decimal_unfold, simp add: decimal_value_def)

lemma decimal_hd: "0 < n \<Longrightarrow> hd (decimal n) \<noteq> 48"
proof (induction n rule: less_induct)
  case (less n)
  show ?case
  proof (cases "n < 10")
    case True
    with less.prems show ?thesis by (simp add: decimal_unfold [of n])
  next
    case False
    with less.IH [of "n div 10"] decimal_digits [of "n div 10"] show ?thesis
      by (subst decimal_unfold) simp
  qed
qed

lemma validate_digits: "list_all is_ascii_digit ds \<Longrightarrow> is_ascii_digit l \<Longrightarrow> \<exists>d. validate_loop l ds = Some d \<and> is_ascii_digit d"
  by (induction ds arbitrary: l) (auto simp: is_alphanumeric_def is_ascii_digit_def)

lemma bytes_to_int_decimal:
  assumes "bigint_laws ops" "0 < n"
  shows "bytes_to_int ops (decimal n) 0 = (if n < 2 ^ 64 then Some (of_nat n) else None)"
proof -
  obtain d ds where ds: "decimal n = d # ds" "is_ascii_digit d" "list_all is_ascii_digit ds" "d \<noteq> 48"
    using decimal_digits [of n] decimal_hd [OF assms(2)] by (cases "decimal n") auto
  have d: "d \<noteq> 43" "d \<noteq> 45" "d \<noteq> 95"
    using ds(2) by (auto simp: is_ascii_digit_def)
  obtain l where l: "validate_loop d (d # ds) = Some l" "is_ascii_digit l"
    using validate_digits [of "d # ds" d] ds by auto
  have "l \<noteq> 95" using l(2) by (auto simp: is_ascii_digit_def)
  moreover have "trim ops (d # ds) = d # ds" "parse_bytes ops (d # ds) 10 = Some n"
    using assms(1) ds decimal_digits [of n] decimal_value_decimal [of n]
    by (auto simp: bigint_laws_def)
  moreover have "(case to_u64_digits ops n of [d] \<Rightarrow> Some (signed_digit None d) | _ \<Rightarrow> None)
      = (if n < 2 ^ 64 then Some (of_nat n) else None)"
  proof (cases "n < 2 ^ 64")
    case True
    with assms show ?thesis by (simp add: bigint_laws_def signed_digit_def)
  next
    case False
    with assms(1) have "2 \<le> length (to_u64_digits ops n)"
      by (simp add: bigint_laws_def)
    with False show ?thesis by (auto split: list.split)
  qed
  ultimately show ?thesis
    unfolding bytes_to_int_def ds(1)
    using d ds(4) l(1)
    by (simp add: split_sign_def split_radix_def remove_zeroes_def convert_digits_def Let_def)
qed

lemma as_bytes_digits: "list_all is_ascii_digit ds \<Longrightarrow> as_bytes ds = ds"
  by (induction ds) (auto simp: as_bytes_def utf8_encode_def is_ascii_digit_def)

lemma sint_of_nat_iff: "sint (of_nat n :: i64) = int n \<longleftrightarrow> n < 2 ^ 63"
proof
  assume "sint (of_nat n :: i64) = int n"
  then show "n < 2 ^ 63"
    using i64_range_sint [of "of_nat n :: i64"] by (simp add: i64_range_def)
next
  assume "n < 2 ^ 63"
  then show "sint (of_nat n :: i64) = int n"
    using sint_of_int_i64 [of "int n"] by (simp add: i64_range_def)
qed

lemma first_token_decimal_number:
  assumes "ascii_id_start u" "0 < n"
  shows "first_token u (decimal n)
    = \<lparr>kind = Literal (Int_kind Decimal False) (length (decimal n)), len = length (decimal n)\<rparr>"
proof (cases "decimal n")
  case (Cons d ds)
  then show ?thesis
    using first_token_decimal [OF assms(1), of d ds "[]"] decimal_digits [of n] decimal_hd [OF assms(2)]
    by (simp add: number_ends_def)
qed (use decimal_digits in auto)

text \<open>C14. A decimal integer literal is read back, through the lexer and the conversion of the
  digits: the source that is the decimal text of a positive number lexes, without
  errors, to one integer literal, and its value is the number when it is below
  \<open>2 ^ 64\<close> and an error from there on.  The value is a signed 64-bit integer, so it
  is the number itself exactly below \<open>2 ^ 63\<close>: the literals from there up to the
  limit are accepted and become negative.\<close>

theorem int_literal_roundtrip:
  assumes "ascii_id_start u" "bigint_laws ops" "0 < n" "unat start + length (decimal n) < 2 ^ 32"
  shows "(\<exists>lx. parse_token_streams u names (decimal n) start =
      Some (Inr ([token_new (Literal_t \<lparr>lit_kind = Integer, symbol = decimal n, suffix_sym = None, raw = None\<rparr>)
          (span_new start (start + of_nat (length (decimal n)))),
        token_new Newline_t (here lx), token_new Eof (here lx)], lx)) \<and> errors lx = [])
    \<and> bytes_to_int ops (as_bytes (decimal n)) 0 = (if n < 2 ^ 64 then Some (of_nat n) else None)
    \<and> (sint (of_nat n :: i64) = int n \<longleftrightarrow> n < 2 ^ 63)"
proof (intro conjI)
  let ?s = "decimal n"
  have bl: "bytes_len ?s = length ?s"
    using decimal_digits [of n] by (simp add: bytes_len_digits)
  have tok: "first_token u ?s = \<lparr>kind = Literal (Int_kind Decimal False) (length ?s), len = length ?s\<rparr>"
    by (rule first_token_decimal_number [OF assms(1,3)])
  show "\<exists>lx. parse_token_streams u names ?s start =
      Some (Inr ([token_new (Literal_t \<lparr>lit_kind = Integer, symbol = ?s, suffix_sym = None, raw = None\<rparr>)
          (span_new start (start + of_nat (length ?s))),
        token_new Newline_t (here lx), token_new Eof (here lx)], lx)) \<and> errors lx = []"
    unfolding bl [symmetric]
  proof (rule parse_single_token)
    fix lx
    assume lx: "src lx = ?s" "start_pos lx = start" "positions_fit lx" "pos lx = start + of_nat (bytes_len ?s)"
    show "lex_token names (first_token u ?s) start [] lx = Inr (Some (Literal_t
        \<lparr>lit_kind = Integer, symbol = ?s, suffix_sym = None, raw = None\<rparr>), [], lx)"
      using lex_int_decimal [of lx "[]" ?s "[]"] lx
      by (simp add: tok lex_token_def lex_literal_def pos_at_def bl)
  qed (use assms(4) decimal_digits [of n] in \<open>simp_all add: tok bl\<close>)
  show "bytes_to_int ops (as_bytes ?s) 0 = (if n < 2 ^ 64 then Some (of_nat n) else None)"
    using bytes_to_int_decimal [OF assms(2,3)] decimal_digits [of n] by (simp add: as_bytes_digits)
  show "sint (of_nat n :: i64) = int n \<longleftrightarrow> n < 2 ^ 63"
    by (rule sint_of_nat_iff)
qed

text \<open>The laws hold of the obvious functions.\<close>

definition sample_ops :: bigint_ops where
  "sample_ops = \<lparr>trim = (\<lambda>ds. ds), parse_bytes = (\<lambda>ds base1. Some (decimal_value ds)),
     to_u64_digits = (\<lambda>n. if n = 0 then [] else if n < 2 ^ 64 then [n] else [n mod 2 ^ 64, n div 2 ^ 64])\<rparr>"

lemma sample_ops_laws: "bigint_laws sample_ops"
  by (simp add: bigint_laws_def sample_ops_def)

lemma decimal_length: "n < 10 ^ Suc k \<Longrightarrow> length (decimal n) \<le> Suc k"
proof (induction k arbitrary: n)
  case 0
  then show ?case by (subst decimal_unfold) simp
next
  case (Suc k)
  have "n div 10 < 10 ^ Suc k"
    using Suc.prems by (intro less_mult_imp_div_less) simp
  from Suc.IH [OF this] show ?case by (subst decimal_unfold) simp
qed

theorem int_literal_roundtrip_witness:
  "bytes_to_int sample_ops (as_bytes (decimal (2 ^ 64 - 1))) 0 = Some (- 1)
   \<and> bigint_laws sample_ops \<and> ascii_id_start ascii_classes \<and> length (decimal (2 ^ 64 - 1)) < 2 ^ 32"
proof -
  define n :: nat where "n = 2 ^ 64 - 1"
  have n: "0 < n" "n < 2 ^ 64" "(of_nat n :: i64) = - 1" "n < 10 ^ Suc 19"
    by (simp_all add: n_def)
  have len: "length (decimal n) \<le> Suc 19"
    by (rule decimal_length [OF n(4)])
  then have fit: "unat (0 :: byte_pos) + length (decimal n) < 2 ^ 32"
    by simp
  show ?thesis
    using int_literal_roundtrip [of ascii_classes sample_ops n 0 "\<lambda>_. None", OF ascii_id_start_ascii
        sample_ops_laws n(1) fit] n(2,3) len sample_ops_laws
    unfolding n_def [symmetric] by simp
qed

end
