(* ===== verification/Sema_Type.thy ===== *)
theory Sema_Type
  imports Float64 Index_Map
begin

text \<open>
  The types of the checker, \<open>src/crates/sema/src/ty\<close>: the representation of
  \<open>mod.rs\<close>, the flags and constructors of \<open>constants.rs\<close> and \<open>constructor.rs\<close>, the
  texts of types, the derived equality and the downcasts of \<open>into.rs\<close>. A
  \<open>TypeRef = Arc<Type>\<close> is a tree node with the address of the allocation, because the
  set of types in \<open>unify.rs\<close> is keyed by addresses. The component types are
  parametrised by the type of references, so that the recursion goes through one type.
  The private field \<open>flags\<close> is only ever written by the constructors and determined
  there by the kind; it is the function \<open>flags_of\<close> here.
\<close>

section \<open>Representation\<close>

record position =
  pos_filename :: string
  pos_line :: "64 word"
  pos_column :: "64 word option"

type_synonym range = "position \<times> position"

datatype module_kind = User | System | Plugin

record module_type =
  mt_pkgpath :: string
  mt_imported :: "string list"
  mt_kind :: module_kind

record number_multiplier_type =
  nm_value :: f64
  nm_raw_value :: i64
  nm_binary_suffix :: string
  nm_is_literal :: bool

datatype decorator_target = DSchema | DAttribute

record decorator =
  dc_target :: decorator_target
  dc_name :: string
  dc_key :: string
  dc_arguments :: "string list"
  dc_keywords :: "(string, string) imap"

record example =
  ex_summary :: string
  ex_description :: string
  ex_value :: string

datatype (plugins only: code size) 'r attr = Attr (attr_ty: 'r) (attr_range: range)

datatype (plugins only: code size) 'r dict_type =
  DictType (dt_key_ty: 'r) (dt_val_ty: 'r) (dt_attrs: "(string, 'r attr) imap")

datatype (plugins only: code size) 'r parameter = Parameter
    (p_name: string) (p_ty: 'r) (p_has_default: bool) (p_default_value: "string option")
    (p_range: range)

datatype (plugins only: code size) 'r function_type = FunctionType
    (ft_doc: string) (ft_params: "'r parameter list") (ft_self_ty: "'r option")
    (ft_return_ty: 'r) (ft_is_variadic: bool) (ft_kw_only_index: "nat option")

datatype (plugins only: code size) 'r schema_index_signature = SchemaIndexSignature
    (si_key_name: "string option") (si_key_ty: 'r) (si_val_ty: 'r) (si_any_other: bool)

datatype (plugins only: code size) 'r schema_attr = SchemaAttr
    (sa_is_optional: bool) (sa_has_default: bool) (sa_default: "string option") (sa_ty: 'r)
    (sa_range: range) (sa_doc: "string option") (sa_decorators: "decorator list")

datatype (plugins only: code size) 'r schema_type = SchemaType
    (st_name: string) (st_pkgpath: string) (st_filename: string) (st_doc: string)
    (st_examples: "(string, example) imap")
    (st_is_instance: bool) (st_is_mixin: bool) (st_is_protocol: bool) (st_is_rule: bool)
    (st_base: "'r schema_type option") (st_protocol: "'r schema_type option")
    (st_mixins: "'r schema_type list") (st_attrs: "(string, 'r schema_attr) imap")
    (st_func: "'r function_type") (st_index_signature: "'r schema_index_signature option")
    (st_decorators: "decorator list")

datatype (plugins only: code size) 'r type_kind =
    NoneK | AnyK | BoolK | BoolLit bool | IntK | IntLit i64 | FloatK | FloatLit f64
  | StrK | StrLit string | ListK 'r | DictK "'r dict_type" | UnionK "'r list"
  | SchemaK "'r schema_type" | NumberMultiplierK number_multiplier_type
  | FunctionK "'r function_type" | VoidK | ModuleK module_type | NamedK string

datatype (plugins only: code size) 'r ty = Type (ty_kind: "'r type_kind") (is_type_alias: bool)

datatype (plugins only: code size) ty_ref = Arc (addr: nat) (deref: "ty_ref ty")

type_synonym kcl_type = "ty_ref ty"

text \<open>The kind of the referenced type, \<open>ty.kind\<close> through the \<open>Arc\<close>.\<close>

definition ref_kind :: "ty_ref \<Rightarrow> ty_ref type_kind" where
  "ref_kind r = ty_kind (deref r)"

lemma ref_kind_simp [simp]: "ref_kind (Arc a (Type k b)) = k"
  by (simp add: ref_kind_def)

section \<open>Flags, constructors and tests\<close>

definition TF_VOID :: "16 word" where "TF_VOID = 1"
definition TF_INT :: "16 word" where "TF_INT = 2"
definition TF_FLOAT :: "16 word" where "TF_FLOAT = 4"
definition TF_STR :: "16 word" where "TF_STR = 8"
definition TF_BOOL :: "16 word" where "TF_BOOL = 16"
definition TF_ANY :: "16 word" where "TF_ANY = 32"
definition TF_NONE :: "16 word" where "TF_NONE = 64"
definition TF_LIST :: "16 word" where "TF_LIST = 128"
definition TF_DICT :: "16 word" where "TF_DICT = 256"
definition TF_SCHEMA :: "16 word" where "TF_SCHEMA = 512"
definition TF_UNION :: "16 word" where "TF_UNION = 1024"
definition TF_LITERAL :: "16 word" where "TF_LITERAL = 2048"
definition TF_NUMBER_MULTIPLIER :: "16 word" where "TF_NUMBER_MULTIPLIER = 4096"
definition TF_FUNCTION :: "16 word" where "TF_FUNCTION = 8192"
definition TF_MODULE :: "16 word" where "TF_MODULE = 16384"
definition TF_NAMED :: "16 word" where "TF_NAMED = 32768"

lemmas flag_defs = TF_VOID_def TF_INT_def TF_FLOAT_def TF_STR_def TF_BOOL_def TF_ANY_def TF_NONE_def TF_LIST_def TF_DICT_def
  TF_SCHEMA_def TF_UNION_def TF_LITERAL_def TF_NUMBER_MULTIPLIER_def TF_FUNCTION_def TF_MODULE_def TF_NAMED_def

fun flags_of :: "'r type_kind \<Rightarrow> 16 word" where
  "flags_of NoneK = TF_NONE"
| "flags_of AnyK = TF_ANY"
| "flags_of BoolK = TF_BOOL"
| "flags_of (BoolLit v) = or TF_BOOL TF_LITERAL"
| "flags_of IntK = TF_INT"
| "flags_of (IntLit v) = or TF_INT TF_LITERAL"
| "flags_of FloatK = TF_FLOAT"
| "flags_of (FloatLit v) = or TF_FLOAT TF_LITERAL"
| "flags_of StrK = TF_STR"
| "flags_of (StrLit v) = or TF_STR TF_LITERAL"
| "flags_of (ListK i) = TF_LIST"
| "flags_of (DictK d) = TF_DICT"
| "flags_of (UnionK ts) = TF_UNION"
| "flags_of (SchemaK s) = TF_SCHEMA"
| "flags_of (NumberMultiplierK n) = TF_NUMBER_MULTIPLIER"
| "flags_of (FunctionK f) = TF_FUNCTION"
| "flags_of VoidK = TF_VOID"
| "flags_of (ModuleK m) = TF_MODULE"
| "flags_of (NamedK s) = TF_NAMED"

definition contains_flags :: "'r ty \<Rightarrow> 16 word \<Rightarrow> bool" where
  "contains_flags t flag \<longleftrightarrow> and (flags_of (ty_kind t)) flag = flag"

definition mk_type :: "'r type_kind \<Rightarrow> 'r ty" where
  "mk_type k = Type k False"

lemma ty_kind_mk_type [simp]: "ty_kind (mk_type k) = k"
  by (simp add: mk_type_def)

definition number_multiplier_non_lit_ty :: "'r ty" where
  "number_multiplier_non_lit_ty = mk_type (NumberMultiplierK
     \<lparr>nm_value = f64_zero, nm_raw_value = 0, nm_binary_suffix = [], nm_is_literal = False\<rparr>)"

definition number_multiplier :: "f64 \<Rightarrow> i64 \<Rightarrow> string \<Rightarrow> 'r ty" where
  "number_multiplier v raw sfx = mk_type (NumberMultiplierK
     \<lparr>nm_value = v, nm_raw_value = raw, nm_binary_suffix = sfx, nm_is_literal = True\<rparr>)"

definition dict_with_attrs :: "'r \<Rightarrow> 'r \<Rightarrow> (string, 'r attr) imap \<Rightarrow> 'r ty" where
  "dict_with_attrs k v attrs = mk_type (DictK (DictType k v attrs))"

definition dict :: "'r \<Rightarrow> 'r \<Rightarrow> 'r ty" where
  "dict k v = dict_with_attrs k v []"

definition function_ty :: "'r option \<Rightarrow> 'r \<Rightarrow> 'r parameter list \<Rightarrow> string \<Rightarrow> bool \<Rightarrow> nat option \<Rightarrow> 'r ty"
where
  "function_ty self_ty return_ty params doc is_variadic kw_only_index =
     mk_type (FunctionK (FunctionType doc params self_ty return_ty is_variadic kw_only_index))"

definition is_any :: "ty_ref \<Rightarrow> bool" where "is_any t = contains_flags (deref t) TF_ANY"
definition is_int :: "ty_ref \<Rightarrow> bool" where "is_int t = contains_flags (deref t) TF_INT"
definition is_float :: "ty_ref \<Rightarrow> bool" where "is_float t = contains_flags (deref t) TF_FLOAT"
definition is_bool :: "ty_ref \<Rightarrow> bool" where "is_bool t = contains_flags (deref t) TF_BOOL"
definition is_str :: "ty_ref \<Rightarrow> bool" where "is_str t = contains_flags (deref t) TF_STR"
definition is_literal :: "ty_ref \<Rightarrow> bool" where "is_literal t = contains_flags (deref t) TF_LITERAL"
definition is_none :: "ty_ref \<Rightarrow> bool" where "is_none t = contains_flags (deref t) TF_NONE"
definition is_void :: "ty_ref \<Rightarrow> bool" where "is_void t = contains_flags (deref t) TF_VOID"
definition is_list :: "ty_ref \<Rightarrow> bool" where "is_list t = contains_flags (deref t) TF_LIST"
definition is_dict :: "ty_ref \<Rightarrow> bool" where "is_dict t = contains_flags (deref t) TF_DICT"
definition is_schema :: "ty_ref \<Rightarrow> bool" where "is_schema t = contains_flags (deref t) TF_SCHEMA"
definition is_union :: "ty_ref \<Rightarrow> bool" where "is_union t = contains_flags (deref t) TF_UNION"
definition is_func :: "ty_ref \<Rightarrow> bool" where "is_func t = contains_flags (deref t) TF_FUNCTION"
definition is_number_multiplier :: "ty_ref \<Rightarrow> bool" where
  "is_number_multiplier t = contains_flags (deref t) TF_NUMBER_MULTIPLIER"
definition is_module :: "ty_ref \<Rightarrow> bool" where "is_module t = contains_flags (deref t) TF_MODULE"

definition is_none_or_any :: "ty_ref \<Rightarrow> bool" where
  "is_none_or_any t \<longleftrightarrow> is_none t \<or> is_any t"

definition is_number :: "ty_ref \<Rightarrow> bool" where
  "is_number t \<longleftrightarrow> contains_flags (deref t) TF_INT \<or> contains_flags (deref t) TF_FLOAT"

definition is_primitive :: "ty_ref \<Rightarrow> bool" where
  "is_primitive t \<longleftrightarrow> (case ref_kind t of
       BoolK \<Rightarrow> True | IntK \<Rightarrow> True | FloatK \<Rightarrow> True | StrK \<Rightarrow> True | _ \<Rightarrow> False)"

definition is_schema_def :: "ty_ref \<Rightarrow> bool" where
  "is_schema_def t \<longleftrightarrow> (case ref_kind t of SchemaK s \<Rightarrow> \<not> st_is_instance s | _ \<Rightarrow> False)"

definition is_dict_or_schema :: "ty_ref \<Rightarrow> bool" where
  "is_dict_or_schema t \<longleftrightarrow> is_dict t \<or> is_schema t"

definition is_iterable :: "ty_ref \<Rightarrow> bool" where
  "is_iterable t \<longleftrightarrow> is_str t \<or> is_list t \<or> is_dict t \<or> is_schema t"

definition is_assignable_type :: "ty_ref \<Rightarrow> bool" where
  "is_assignable_type t \<longleftrightarrow> (case ref_kind t of
       VoidK \<Rightarrow> False | ModuleK _ \<Rightarrow> False | NamedK _ \<Rightarrow> False | _ \<Rightarrow> True)"

lemma flag_tests [simp]:
  "is_any (Arc a (Type k b)) \<longleftrightarrow> k = AnyK"
  "is_none (Arc a (Type k b)) \<longleftrightarrow> k = NoneK"
  "is_int (Arc a (Type k b)) \<longleftrightarrow> (case k of IntK \<Rightarrow> True | IntLit _ \<Rightarrow> True | _ \<Rightarrow> False)"
  "is_float (Arc a (Type k b)) \<longleftrightarrow> (case k of FloatK \<Rightarrow> True | FloatLit _ \<Rightarrow> True | _ \<Rightarrow> False)"
  "is_bool (Arc a (Type k b)) \<longleftrightarrow> (case k of BoolK \<Rightarrow> True | BoolLit _ \<Rightarrow> True | _ \<Rightarrow> False)"
  "is_str (Arc a (Type k b)) \<longleftrightarrow> (case k of StrK \<Rightarrow> True | StrLit _ \<Rightarrow> True | _ \<Rightarrow> False)"
  "is_literal (Arc a (Type k b)) \<longleftrightarrow> (case k of BoolLit _ \<Rightarrow> True | IntLit _ \<Rightarrow> True
     | FloatLit _ \<Rightarrow> True | StrLit _ \<Rightarrow> True | _ \<Rightarrow> False)"
  "is_void (Arc a (Type k b)) \<longleftrightarrow> k = VoidK"
  "is_list (Arc a (Type k b)) \<longleftrightarrow> (case k of ListK _ \<Rightarrow> True | _ \<Rightarrow> False)"
  "is_dict (Arc a (Type k b)) \<longleftrightarrow> (case k of DictK _ \<Rightarrow> True | _ \<Rightarrow> False)"
  "is_schema (Arc a (Type k b)) \<longleftrightarrow> (case k of SchemaK _ \<Rightarrow> True | _ \<Rightarrow> False)"
  "is_union (Arc a (Type k b)) \<longleftrightarrow> (case k of UnionK _ \<Rightarrow> True | _ \<Rightarrow> False)"
  "is_func (Arc a (Type k b)) \<longleftrightarrow> (case k of FunctionK _ \<Rightarrow> True | _ \<Rightarrow> False)"
  "is_number_multiplier (Arc a (Type k b)) \<longleftrightarrow>
     (case k of NumberMultiplierK _ \<Rightarrow> True | _ \<Rightarrow> False)"
  "is_module (Arc a (Type k b)) \<longleftrightarrow> (case k of ModuleK _ \<Rightarrow> True | _ \<Rightarrow> False)"
  by (cases k; simp add: is_any_def is_none_def is_int_def is_float_def is_bool_def is_str_def
      is_literal_def is_void_def is_list_def is_dict_def is_schema_def is_union_def is_func_def
      is_number_multiplier_def is_module_def contains_flags_def flag_defs)+

lemma is_primitive_simp [simp]:
  "is_primitive (Arc a (Type k b)) \<longleftrightarrow> (case k of
       BoolK \<Rightarrow> True | IntK \<Rightarrow> True | FloatK \<Rightarrow> True | StrK \<Rightarrow> True | _ \<Rightarrow> False)"
  by (simp add: is_primitive_def)

section \<open>Sizes\<close>

lemma size_dict_type [termination_simp]:
  "size (dt_key_ty d) < size_dict_type size d" "size (dt_val_ty d) < size_dict_type size d"
  by (cases d; simp)+

lemma size_dict_attr [termination_simp]:
  "(k, a) \<in> set (dt_attrs d) \<Longrightarrow> size (attr_ty a) < size_dict_type size d"
  by (cases d; cases a) (auto dest!: split_list simp: )

lemma size_function_return [termination_simp]:
  "size (ft_return_ty f) < size_function_type size f"
  by (cases f) simp

lemma size_function_param [termination_simp]:
  "p \<in> set (ft_params f) \<Longrightarrow> size (p_ty p) < size_function_type size f"
  by (cases f; cases p) (auto dest!: split_list)

lemma size_union_member [termination_simp]: "t \<in> set ts \<Longrightarrow> size t < Suc (size_list size ts)"
  by (simp add: less_Suc_eq_le size_list_estimation')

fun is_key :: "ty_ref \<Rightarrow> bool" where
  "is_key (Arc a (Type k b)) \<longleftrightarrow> (case k of
       StrK \<Rightarrow> True
     | StrLit _ \<Rightarrow> True
     | UnionK types \<Rightarrow> list_all is_key types
     | _ \<Rightarrow> False)"

section \<open>Display of floats\<close>

text \<open>\<open>f64::to_string\<close>: the shortest decimal that reads back as the number, the nearest
  one where there are several, without an exponent.\<close>

definition f64_of_decimal :: "bool \<Rightarrow> nat \<Rightarrow> int \<Rightarrow> f64" where
  "f64_of_decimal s d x = f64_round s (d * 10 ^ nat x) (10 ^ nat (- x)) 0"

text \<open>The exponent \<open>x\<close> with \<open>10^(x-1) \<le> n/d < 10^x\<close>.\<close>

definition decimal_exponent :: "nat \<Rightarrow> nat \<Rightarrow> int" where
  "decimal_exponent n d =
     (if d \<le> n then int (length (show_nat (n div d)))
      else 1 - int (length (show_nat ((d - 1) div n))))"

definition decimal_candidates :: "nat \<Rightarrow> nat \<Rightarrow> int \<Rightarrow> nat list" where
  "decimal_candidates n d p =
     (let num = n * 10 ^ nat p; den = d * 10 ^ nat (- p); q = num div den
      in if 2 * (num mod den) \<le> den then [q, Suc q] else [Suc q, q])"

definition shortest_with :: "f64 \<Rightarrow> bool \<Rightarrow> nat \<Rightarrow> nat \<Rightarrow> nat \<Rightarrow> (nat \<times> int) option" where
  "shortest_with v s n d digits =
     (let p = int digits - decimal_exponent n d
      in map_option (\<lambda>c. (c, p))
           (find (\<lambda>c. f64_eq (f64_of_decimal s c (- p)) v) (decimal_candidates n d p)))"

fun first_some :: "('a \<Rightarrow> 'b option) \<Rightarrow> 'a list \<Rightarrow> 'b option" where
  "first_some f [] = None"
| "first_some f (x # xs) = (case f x of None \<Rightarrow> first_some f xs | Some y \<Rightarrow> Some y)"

fun strip_zeros :: "nat \<Rightarrow> nat \<Rightarrow> nat \<times> nat" where
  "strip_zeros c 0 = (c, 0)"
| "strip_zeros c (Suc p) = (if c mod 10 = 0 then strip_zeros (c div 10) p else (c, Suc p))"

text \<open>The number \<open>c * 10^(-p)\<close> in positional notation.\<close>

definition positional :: "nat \<Rightarrow> int \<Rightarrow> string" where
  "positional c p =
     (if p \<le> 0 then show_nat c @ replicate (nat (- p)) CHR ''0''
      else let (c, f) = strip_zeros c (nat p); ds = show_nat c
           in if f = 0 then ds
              else if f < length ds then take (length ds - f) ds @ ''.'' @ drop (length ds - f) ds
              else ''0.'' @ replicate (f - length ds) CHR ''0'' @ ds)"

fun f64_to_string :: "f64 \<Rightarrow> string" where
  "f64_to_string NaN = ''NaN''"
| "f64_to_string (Inf s) = (if s then ''-inf'' else ''inf'')"
| "f64_to_string (Fin s m e) =
     (if s then ''-'' else []) @
     (if m = 0 then ''0''
      else let n = m * 2 ^ nat e; d = 2 ^ nat (- e);
               shortest = first_some (shortest_with (Fin s m e) s n d) [1..<18]
           in case shortest of
                Some (c, p) \<Rightarrow> positional c p
              | None \<Rightarrow> positional (hd (decimal_candidates n d (17 - decimal_exponent n d)))
                                  (17 - decimal_exponent n d))"

section \<open>Texts of types\<close>

definition INT_TYPE_STR :: string where "INT_TYPE_STR = ''int''"
definition FLOAT_TYPE_STR :: string where "FLOAT_TYPE_STR = ''float''"
definition STR_TYPE_STR :: string where "STR_TYPE_STR = ''str''"
definition BOOL_TYPE_STR :: string where "BOOL_TYPE_STR = ''bool''"
definition ANY_TYPE_STR :: string where "ANY_TYPE_STR = ''any''"
definition NONE_TYPE_STR :: string where "NONE_TYPE_STR = ''NoneType''"
definition NUMBER_MULTIPLIER_TYPE_STR :: string where
  "NUMBER_MULTIPLIER_TYPE_STR = ''number_multiplier''"
definition NUMBER_MULTIPLIER_PKG_TYPE_STR :: string where
  "NUMBER_MULTIPLIER_PKG_TYPE_STR = ''units.NumberMultiplier''"
definition MODULE_TYPE_STR :: string where "MODULE_TYPE_STR = ''module''"
definition VOID_TYPE_STR :: string where "VOID_TYPE_STR = ''void''"
definition NAME_CONSTANT_TRUE :: string where "NAME_CONSTANT_TRUE = ''True''"
definition NAME_CONSTANT_FALSE :: string where "NAME_CONSTANT_FALSE = ''False''"
definition NAME_CONSTANT_NONE :: string where "NAME_CONSTANT_NONE = ''None''"
definition MAIN_PKG :: string where "MAIN_PKG = ''__main__''"

definition bool_name :: "bool \<Rightarrow> string" where
  "bool_name v = (if v then NAME_CONSTANT_TRUE else NAME_CONSTANT_FALSE)"

definition full_ty_name :: "string \<Rightarrow> string \<Rightarrow> string" where
  "full_ty_name pkgpath name =
     (if pkgpath = [] \<or> pkgpath = MAIN_PKG then name else pkgpath @ ''.'' @ name)"

definition ty_str_with_at_pkgpath_prefix :: "'r schema_type \<Rightarrow> string" where
  "ty_str_with_at_pkgpath_prefix s =
     (if st_pkgpath s = [] \<or> st_pkgpath s = MAIN_PKG then st_name s
      else ''@'' @ st_pkgpath s @ ''.'' @ st_name s)"

definition schema_full_ty_str :: "'r schema_type \<Rightarrow> string" where
  "schema_full_ty_str s = full_ty_name (st_pkgpath s) (st_name s)"

definition number_multiplier_ty_str :: "number_multiplier_type \<Rightarrow> string" where
  "number_multiplier_ty_str n =
     (if nm_is_literal n
      then NUMBER_MULTIPLIER_TYPE_STR @ ''('' @ show_int (sint (nm_raw_value n)) @ nm_binary_suffix n @ '')''
      else NUMBER_MULTIPLIER_TYPE_STR)"

fun ty_str :: "ty_ref \<Rightarrow> string" where
  "ty_str (Arc a (Type k b)) = (case k of
       NoneK \<Rightarrow> NONE_TYPE_STR
     | AnyK \<Rightarrow> ANY_TYPE_STR
     | BoolK \<Rightarrow> BOOL_TYPE_STR
     | BoolLit v \<Rightarrow> BOOL_TYPE_STR @ ''('' @ bool_name v @ '')''
     | IntK \<Rightarrow> INT_TYPE_STR
     | IntLit v \<Rightarrow> INT_TYPE_STR @ ''('' @ show_int (sint v) @ '')''
     | FloatK \<Rightarrow> FLOAT_TYPE_STR
     | FloatLit v \<Rightarrow> FLOAT_TYPE_STR @ ''('' @ f64_to_string v @ '')''
     | StrK \<Rightarrow> STR_TYPE_STR
     | StrLit v \<Rightarrow> STR_TYPE_STR @ ''('' @ v @ '')''
     | ListK item_ty \<Rightarrow> ''['' @ ty_str item_ty @ '']''
     | DictK d \<Rightarrow> ''{'' @ ty_str (dt_key_ty d) @ '':'' @ ty_str (dt_val_ty d) @ ''}''
     | UnionK types \<Rightarrow> join_with '' | '' (map ty_str types)
     | SchemaK s \<Rightarrow> st_name s
     | NumberMultiplierK n \<Rightarrow> number_multiplier_ty_str n
     | FunctionK f \<Rightarrow> ''('' @ join_with '', '' (map (\<lambda>p. ty_str (p_ty p)) (ft_params f)) @
                        '') -> '' @ ty_str (ft_return_ty f)
     | VoidK \<Rightarrow> VOID_TYPE_STR
     | ModuleK m \<Rightarrow> MODULE_TYPE_STR @ '' '' @ [CHR 0x27] @ mt_pkgpath m @ [CHR 0x27]
     | NamedK name \<Rightarrow> name)"

fun full_ty_str :: "ty_ref \<Rightarrow> string" where
  "full_ty_str (Arc a (Type k b)) = (case k of
       ListK item_ty \<Rightarrow> ''['' @ full_ty_str item_ty @ '']''
     | DictK d \<Rightarrow> ''{'' @ full_ty_str (dt_key_ty d) @ '':'' @ full_ty_str (dt_val_ty d) @ ''}''
     | UnionK types \<Rightarrow> join_with '' | '' (map full_ty_str types)
     | SchemaK s \<Rightarrow> schema_full_ty_str s
     | _ \<Rightarrow> ty_str (Arc a (Type k b)))"

fun ty_hint :: "ty_ref \<Rightarrow> string" where
  "ty_hint (Arc a (Type k b)) = (case k of
       StrLit s \<Rightarrow> [CHR 0x22] @ s @ [CHR 0x22]
     | IntLit v \<Rightarrow> show_int (sint v)
     | FloatLit v \<Rightarrow> f64_to_string v
     | ListK item_ty \<Rightarrow> ''['' @ ty_hint item_ty @ '']''
     | DictK d \<Rightarrow> ''{'' @ ty_hint (dt_key_ty d) @ '':'' @ ty_hint (dt_val_ty d) @ ''}''
     | UnionK types \<Rightarrow> join_with '' | '' (map ty_hint types)
     | _ \<Rightarrow> ty_str (Arc a (Type k b)))"

fun into_type_annotation_str :: "ty_ref \<Rightarrow> string" where
  "into_type_annotation_str (Arc a (Type k b)) = (case k of
       NoneK \<Rightarrow> NAME_CONSTANT_NONE
     | BoolLit v \<Rightarrow> bool_name v
     | IntLit v \<Rightarrow> show_int (sint v)
     | FloatLit v \<Rightarrow>
         (let float_str = f64_to_string v
          in if CHR ''.'' \<in> set float_str then float_str else float_str @ ''.0'')
     | StrLit v \<Rightarrow> [CHR 0x22] @
         concat (map (\<lambda>c. if c = CHR 0x22 then [CHR 0x5C, CHR 0x22] else [c]) v) @ [CHR 0x22]
     | ListK item_ty \<Rightarrow> ''['' @ into_type_annotation_str item_ty @ '']''
     | DictK d \<Rightarrow> ''{'' @ into_type_annotation_str (dt_key_ty d) @ '':'' @
                   into_type_annotation_str (dt_val_ty d) @ ''}''
     | UnionK types \<Rightarrow> join_with '' | '' (map into_type_annotation_str types)
     | SchemaK s \<Rightarrow> ty_str_with_at_pkgpath_prefix s
     | NumberMultiplierK n \<Rightarrow>
         (if nm_is_literal n
          then NUMBER_MULTIPLIER_TYPE_STR @ ''('' @ show_int (sint (nm_raw_value n)) @
               nm_binary_suffix n @ '')''
          else NUMBER_MULTIPLIER_PKG_TYPE_STR)
     | _ \<Rightarrow> ty_str (Arc a (Type k b)))"

definition func_signature_str :: "ty_ref function_type \<Rightarrow> string \<Rightarrow> string" where
  "func_signature_str f name = ''function '' @ name @ ''('' @
     join_with '', '' (map (\<lambda>p. p_name p @ '': '' @ ty_str (p_ty p)) (ft_params f)) @
     '') -> '' @ ty_str (ft_return_ty f)"

definition index_signature_ty_str :: "ty_ref schema_index_signature \<Rightarrow> string" where
  "index_signature_ty_str s =
     (case si_key_name s of Some name \<Rightarrow> ''['' @ name @ '': '' | None \<Rightarrow> ''['') @
     (if si_any_other s then ''...'' else []) @
     ty_str (si_key_ty s) @ '']: '' @ ty_str (si_val_ty s)"

definition schema_base_str :: "ty_ref schema_type \<Rightarrow> string" where
  "schema_base_str s = (case st_base s of Some base \<Rightarrow> ''('' @ st_name base @ '')'' | None \<Rightarrow> [])"

definition schema_params_str :: "ty_ref schema_type \<Rightarrow> string" where
  "schema_params_str s =
     (if ft_params (st_func s) = [] then []
      else ''['' @ join_with '', ''
             (map (\<lambda>p. p_name p @ '': '' @ ty_str (p_ty p)) (ft_params (st_func s))) @ '']'')"

definition schema_ty_signature_str :: "ty_ref schema_type \<Rightarrow> string \<times> string" where
  "schema_ty_signature_str s =
     (st_pkgpath s, ''schema '' @ st_name s @ schema_params_str s @ schema_base_str s @ '':'')"

definition schema_ty_signature_no_pkg :: "ty_ref schema_type \<Rightarrow> string" where
  "schema_ty_signature_no_pkg s =
     (let base = schema_base_str s; params = schema_params_str s
      in ''schema '' @ st_name s @
         (if params \<noteq> [] \<and> base \<noteq> [] then [CHR 0x5C] @ params @ base
          else if params \<noteq> [] then params
          else if base \<noteq> [] then base
          else []))"

section \<open>Attributes of schemas\<close>

definition SCHEMA_MEMBER_FUNCTIONS :: "string list" where
  "SCHEMA_MEMBER_FUNCTIONS = [''instances'']"

definition is_member_functions :: "'r schema_type \<Rightarrow> string \<Rightarrow> bool" where
  "is_member_functions s name \<longleftrightarrow> \<not> st_is_instance s \<and> name \<in> set SCHEMA_MEMBER_FUNCTIONS"

definition dummy_pos :: position where
  "dummy_pos = \<lparr>pos_filename = [], pos_line = 1, pos_column = None\<rparr>"

definition set_type_of_attr :: "'r schema_type \<Rightarrow> string \<Rightarrow> 'r \<Rightarrow> 'r schema_type" where
  "set_type_of_attr s name t =
     (case s of SchemaType nm pkg file doc exs inst mixin prot rule base protocol mixins attrs func sig decs \<Rightarrow>
        let new = (case im_get attrs name of
              Some (SchemaAttr opt dflt dv old rg d ds) \<Rightarrow> SchemaAttr opt dflt dv t rg d ds
            | None \<Rightarrow> SchemaAttr True False None t (dummy_pos, dummy_pos) None [])
        in SchemaType nm pkg file doc exs inst mixin prot rule base protocol mixins
             (im_insert attrs name new) func sig decs)"

lemma size_schema_base [termination_simp]: "st_base s = Some b \<Longrightarrow> size b < size s"
  by (cases s) auto

lemma size_schema_protocol [termination_simp]: "st_protocol s = Some b \<Longrightarrow> size b < size s"
  by (cases s) auto

text \<open>An attribute is looked up in the schema and then in its base; the protocol is asked
  only by a schema without a base.\<close>

fun get_obj_of_attr :: "'r schema_type \<Rightarrow> string \<Rightarrow> 'r schema_attr option" where
  "get_obj_of_attr s name = (case im_get (st_attrs s) name of
       Some a \<Rightarrow> Some a
     | None \<Rightarrow> (case st_base s of
           Some base \<Rightarrow> get_obj_of_attr base name
         | None \<Rightarrow> (case st_protocol s of
               Some protocol \<Rightarrow> get_obj_of_attr protocol name
             | None \<Rightarrow> None)))"

declare get_obj_of_attr.simps [simp del]

definition get_type_of_attr :: "'r schema_type \<Rightarrow> string \<Rightarrow> 'r option" where
  "get_type_of_attr s name = map_option sa_ty (get_obj_of_attr s name)"

text \<open>The fresh address is an argument where the source allocates with \<open>Arc::new\<close>.\<close>

definition schema_key_ty :: "nat \<Rightarrow> ty_ref schema_type \<Rightarrow> ty_ref" where
  "schema_key_ty fresh s = Arc fresh (mk_type StrK)"

definition schema_val_ty :: "nat \<Rightarrow> ty_ref schema_type \<Rightarrow> ty_ref" where
  "schema_val_ty fresh s =
     (case st_index_signature s of
        Some sig \<Rightarrow> si_val_ty sig
      | None \<Rightarrow> Arc fresh (mk_type AnyK))"

text \<open>An attribute that was set is found with its new type, whatever the bases define,
  and the other attributes of the schema keep theirs.\<close>

lemma get_set_type_of_attr:
  "get_type_of_attr (set_type_of_attr s name t) n =
     (if n = name then Some t else get_type_of_attr s n)"
  by (cases s) (auto simp: set_type_of_attr_def get_type_of_attr_def get_obj_of_attr.simps
      im_get_insert Let_def split: option.splits schema_attr.splits)

end
