(* ===== verification/Sema_Unify.thy ===== *)
theory Sema_Unify
  imports Sema_Type
begin

text \<open>
  Equality of types (the derived \<open>PartialEq\<close> of \<open>sema/src/ty/mod.rs\<close>), assignability,
  upper bounds and suprema of types (\<open>sema/src/ty/unify.rs\<close>), the inference of variable
  types and the kind tests of \<open>context.rs\<close>, and the walker of \<open>walker.rs\<close>.
\<close>

section \<open>Equality\<close>

text \<open>Equality of \<open>IndexMap\<close> and \<open>HashMap\<close> ignores the order of the entries.\<close>

definition im_eq :: "('v \<Rightarrow> 'v \<Rightarrow> bool) \<Rightarrow> ('k, 'v) imap \<Rightarrow> ('k, 'v) imap \<Rightarrow> bool" where
  "im_eq eq m1 m2 \<longleftrightarrow> length m1 = length m2 \<and>
     list_all (\<lambda>(k, v). case im_get m2 k of None \<Rightarrow> False | Some w \<Rightarrow> eq v w) m1"

lemma im_eq_cong [fundef_cong]:
  assumes "m1 = m1'" "m2 = m2'"
    and "\<And>k v w. (k, v) \<in> set m1' \<Longrightarrow> (k, w) \<in> set m2' \<Longrightarrow> eq v w = eq' v w"
  shows "im_eq eq m1 m2 = im_eq eq' m1' m2'"
  unfolding im_eq_def assms(1,2)
  by (intro conj_cong refl list.pred_cong)
    (auto simp: assms(3) [OF _ im_get_Some_mem] split: option.split)

lemmas [fundef_cong] = option.rel_cong

definition decorator_eq :: "decorator \<Rightarrow> decorator \<Rightarrow> bool" where
  "decorator_eq c d \<longleftrightarrow> dc_target c = dc_target d \<and> dc_name c = dc_name d \<and> dc_key c = dc_key d \<and>
     dc_arguments c = dc_arguments d \<and> im_eq (=) (dc_keywords c) (dc_keywords d)"

definition attr_eq :: "('r \<Rightarrow> 'r \<Rightarrow> bool) \<Rightarrow> 'r attr \<Rightarrow> 'r attr \<Rightarrow> bool" where
  "attr_eq eq a b \<longleftrightarrow> eq (attr_ty a) (attr_ty b) \<and> attr_range a = attr_range b"

definition dict_type_eq :: "('r \<Rightarrow> 'r \<Rightarrow> bool) \<Rightarrow> 'r dict_type \<Rightarrow> 'r dict_type \<Rightarrow> bool" where
  "dict_type_eq eq d e \<longleftrightarrow> eq (dt_key_ty d) (dt_key_ty e) \<and> eq (dt_val_ty d) (dt_val_ty e) \<and>
     im_eq (attr_eq eq) (dt_attrs d) (dt_attrs e)"

definition parameter_eq :: "('r \<Rightarrow> 'r \<Rightarrow> bool) \<Rightarrow> 'r parameter \<Rightarrow> 'r parameter \<Rightarrow> bool" where
  "parameter_eq eq p q \<longleftrightarrow> p_name p = p_name q \<and> eq (p_ty p) (p_ty q) \<and>
     p_has_default p = p_has_default q \<and> p_default_value p = p_default_value q \<and>
     p_range p = p_range q"

definition function_type_eq :: "('r \<Rightarrow> 'r \<Rightarrow> bool) \<Rightarrow> 'r function_type \<Rightarrow> 'r function_type \<Rightarrow> bool"
where
  "function_type_eq eq f g \<longleftrightarrow> ft_doc f = ft_doc g \<and>
     list_all2 (parameter_eq eq) (ft_params f) (ft_params g) \<and>
     rel_option eq (ft_self_ty f) (ft_self_ty g) \<and> eq (ft_return_ty f) (ft_return_ty g) \<and>
     ft_is_variadic f = ft_is_variadic g \<and> ft_kw_only_index f = ft_kw_only_index g"

definition index_signature_eq ::
  "('r \<Rightarrow> 'r \<Rightarrow> bool) \<Rightarrow> 'r schema_index_signature \<Rightarrow> 'r schema_index_signature \<Rightarrow> bool" where
  "index_signature_eq eq s t \<longleftrightarrow> si_key_name s = si_key_name t \<and> eq (si_key_ty s) (si_key_ty t) \<and>
     eq (si_val_ty s) (si_val_ty t) \<and> si_any_other s = si_any_other t"

definition schema_attr_eq :: "('r \<Rightarrow> 'r \<Rightarrow> bool) \<Rightarrow> 'r schema_attr \<Rightarrow> 'r schema_attr \<Rightarrow> bool" where
  "schema_attr_eq eq a b \<longleftrightarrow> sa_is_optional a = sa_is_optional b \<and>
     sa_has_default a = sa_has_default b \<and> sa_default a = sa_default b \<and> eq (sa_ty a) (sa_ty b) \<and>
     sa_range a = sa_range b \<and> sa_doc a = sa_doc b \<and>
     list_all2 decorator_eq (sa_decorators a) (sa_decorators b)"

lemma size_schema_option:
  "b \<in> set_option (st_base s) \<Longrightarrow> size b < size s"
  "b \<in> set_option (st_protocol s) \<Longrightarrow> size b < size s"
  by (cases s; auto)+

lemma size_schema_mixin: "m \<in> set (st_mixins s) \<Longrightarrow> size m < size s"
  by (cases s) (auto dest!: split_list)

function schema_type_eq :: "('r \<Rightarrow> 'r \<Rightarrow> bool) \<Rightarrow> 'r schema_type \<Rightarrow> 'r schema_type \<Rightarrow> bool" where
  "schema_type_eq eq s t \<longleftrightarrow>
     st_name s = st_name t \<and> st_pkgpath s = st_pkgpath t \<and> st_filename s = st_filename t \<and>
     st_doc s = st_doc t \<and> im_eq (=) (st_examples s) (st_examples t) \<and>
     st_is_instance s = st_is_instance t \<and> st_is_mixin s = st_is_mixin t \<and>
     st_is_protocol s = st_is_protocol t \<and> st_is_rule s = st_is_rule t \<and>
     rel_option (schema_type_eq eq) (st_base s) (st_base t) \<and>
     rel_option (schema_type_eq eq) (st_protocol s) (st_protocol t) \<and>
     list_all2 (schema_type_eq eq) (st_mixins s) (st_mixins t) \<and>
     im_eq (schema_attr_eq eq) (st_attrs s) (st_attrs t) \<and>
     function_type_eq eq (st_func s) (st_func t) \<and>
     rel_option (index_signature_eq eq) (st_index_signature s) (st_index_signature t) \<and>
     list_all2 decorator_eq (st_decorators s) (st_decorators t)"
  by pat_completeness auto
termination
  by (relation "measure (\<lambda>(eq, s, t). size s)") (auto simp: size_schema_option size_schema_mixin)

declare schema_type_eq.simps [simp del]

definition number_multiplier_eq :: "number_multiplier_type \<Rightarrow> number_multiplier_type \<Rightarrow> bool" where
  "number_multiplier_eq n m \<longleftrightarrow> f64_eq (nm_value n) (nm_value m) \<and> nm_raw_value n = nm_raw_value m \<and>
     nm_binary_suffix n = nm_binary_suffix m \<and> nm_is_literal n = nm_is_literal m"

definition type_kind_eq :: "('r \<Rightarrow> 'r \<Rightarrow> bool) \<Rightarrow> 'r type_kind \<Rightarrow> 'r type_kind \<Rightarrow> bool" where
  "type_kind_eq eq k l \<longleftrightarrow> (case k of
       NoneK \<Rightarrow> (case l of NoneK \<Rightarrow> True | _ \<Rightarrow> False)
     | AnyK \<Rightarrow> (case l of AnyK \<Rightarrow> True | _ \<Rightarrow> False)
     | BoolK \<Rightarrow> (case l of BoolK \<Rightarrow> True | _ \<Rightarrow> False)
     | BoolLit v \<Rightarrow> (case l of BoolLit w \<Rightarrow> v = w | _ \<Rightarrow> False)
     | IntK \<Rightarrow> (case l of IntK \<Rightarrow> True | _ \<Rightarrow> False)
     | IntLit v \<Rightarrow> (case l of IntLit w \<Rightarrow> v = w | _ \<Rightarrow> False)
     | FloatK \<Rightarrow> (case l of FloatK \<Rightarrow> True | _ \<Rightarrow> False)
     | FloatLit v \<Rightarrow> (case l of FloatLit w \<Rightarrow> f64_eq v w | _ \<Rightarrow> False)
     | StrK \<Rightarrow> (case l of StrK \<Rightarrow> True | _ \<Rightarrow> False)
     | StrLit v \<Rightarrow> (case l of StrLit w \<Rightarrow> v = w | _ \<Rightarrow> False)
     | ListK i \<Rightarrow> (case l of ListK j \<Rightarrow> eq i j | _ \<Rightarrow> False)
     | DictK d \<Rightarrow> (case l of DictK e \<Rightarrow> dict_type_eq eq d e | _ \<Rightarrow> False)
     | UnionK ts \<Rightarrow> (case l of UnionK us \<Rightarrow> list_all2 eq ts us | _ \<Rightarrow> False)
     | SchemaK s \<Rightarrow> (case l of SchemaK t \<Rightarrow> schema_type_eq eq s t | _ \<Rightarrow> False)
     | NumberMultiplierK n \<Rightarrow>
         (case l of NumberMultiplierK m \<Rightarrow> number_multiplier_eq n m | _ \<Rightarrow> False)
     | FunctionK f \<Rightarrow> (case l of FunctionK g \<Rightarrow> function_type_eq eq f g | _ \<Rightarrow> False)
     | VoidK \<Rightarrow> (case l of VoidK \<Rightarrow> True | _ \<Rightarrow> False)
     | ModuleK m \<Rightarrow> (case l of ModuleK m' \<Rightarrow> m = m' | _ \<Rightarrow> False)
     | NamedK s \<Rightarrow> (case l of NamedK s' \<Rightarrow> s = s' | _ \<Rightarrow> False))"

definition ty_eq :: "('r \<Rightarrow> 'r \<Rightarrow> bool) \<Rightarrow> 'r ty \<Rightarrow> 'r ty \<Rightarrow> bool" where
  "ty_eq eq t u \<longleftrightarrow> type_kind_eq eq (ty_kind t) (ty_kind u) \<and> is_type_alias t = is_type_alias u"

subsection \<open>Congruence\<close>

text \<open>Each equality only asks \<open>eq\<close> about the references inside its left argument.\<close>

lemma attr_eq_cong [fundef_cong]:
  "\<lbrakk>a = a'; b = b'; \<And>y. eq (attr_ty a') y = eq' (attr_ty a') y\<rbrakk> \<Longrightarrow> attr_eq eq a b = attr_eq eq' a' b'"
  by (simp add: attr_eq_def)

lemma set_dict_type_member:
  "dt_key_ty d \<in> set_dict_type d" "dt_val_ty d \<in> set_dict_type d"
  by (cases d; simp)+

lemma set_dict_attr_member:
  "(k, a) \<in> set (dt_attrs d) \<Longrightarrow> attr_ty a \<in> set_dict_type d"
  by (cases d) (auto intro!: bexI [where x="(k, a)"] simp: attr.set_sel prod_set_simps)

lemma set_function_type_member:
  "ft_return_ty f \<in> set_function_type f"
  "x \<in> set_option (ft_self_ty f) \<Longrightarrow> x \<in> set_function_type f"
  by (cases f; simp)+

lemma set_function_param_member:
  "p \<in> set (ft_params f) \<Longrightarrow> p_ty p \<in> set_function_type f"
  by (cases f) (auto intro!: bexI [where x=p] simp: parameter.set_sel)

lemma set_schema_type_parent:
  "b \<in> set_option (st_base s) \<Longrightarrow> x \<in> set_schema_type b \<Longrightarrow> x \<in> set_schema_type s"
  "b \<in> set_option (st_protocol s) \<Longrightarrow> x \<in> set_schema_type b \<Longrightarrow> x \<in> set_schema_type s"
  "b \<in> set (st_mixins s) \<Longrightarrow> x \<in> set_schema_type b \<Longrightarrow> x \<in> set_schema_type s"
  by (cases s; auto)+

lemma set_schema_type_member:
  "(k, a) \<in> set (st_attrs s) \<Longrightarrow> sa_ty a \<in> set_schema_type s"
  "x \<in> set_function_type (st_func s) \<Longrightarrow> x \<in> set_schema_type s"
  "i \<in> set_option (st_index_signature s) \<Longrightarrow> si_key_ty i \<in> set_schema_type s"
  "i \<in> set_option (st_index_signature s) \<Longrightarrow> si_val_ty i \<in> set_schema_type s"
  subgoal by (cases s) (auto intro!: bexI [where x="(k, a)"] simp: schema_attr.set_sel prod_set_simps)
  subgoal by (cases s) simp
  subgoal by (cases s) (auto simp: schema_index_signature.set_sel)
  subgoal by (cases s) (auto simp: schema_index_signature.set_sel)
  done

lemma dict_type_eq_cong [fundef_cong]:
  assumes "d = d'" "e = e'" and *: "\<And>x y. x \<in> set_dict_type d' \<Longrightarrow> eq x y = eq' x y"
  shows "dict_type_eq eq d e = dict_type_eq eq' d' e'"
proof -
  have "im_eq (attr_eq eq) (dt_attrs d') (dt_attrs e') = im_eq (attr_eq eq') (dt_attrs d') (dt_attrs e')"
  proof (rule im_eq_cong; simp?)
    fix k v w assume "(k, v) \<in> set (dt_attrs d')"
    then show "attr_eq eq v w = attr_eq eq' v w"
      by (simp add: attr_eq_def * set_dict_attr_member)
  qed
  then show ?thesis by (simp add: dict_type_eq_def assms set_dict_type_member)
qed

lemma function_type_eq_cong [fundef_cong]:
  assumes "f = f'" "g = g'" and *: "\<And>x y. x \<in> set_function_type f' \<Longrightarrow> eq x y = eq' x y"
  shows "function_type_eq eq f g = function_type_eq eq' f' g'"
proof -
  have "list_all2 (parameter_eq eq) (ft_params f') (ft_params g') =
        list_all2 (parameter_eq eq') (ft_params f') (ft_params g')"
  proof (rule list.rel_cong; simp?)
    fix p q assume "p \<in> set (ft_params f')"
    then show "parameter_eq eq p q = parameter_eq eq' p q"
      by (simp add: parameter_eq_def * set_function_param_member)
  qed
  moreover have "rel_option eq (ft_self_ty f') (ft_self_ty g') = rel_option eq' (ft_self_ty f') (ft_self_ty g')"
    by (rule option.rel_cong) (simp_all add: * set_function_type_member)
  ultimately show ?thesis by (simp add: function_type_eq_def assms set_function_type_member)
qed

lemma schema_type_eq_cong [fundef_cong]:
  assumes "s = s'" "t = t'" and "\<And>x y. x \<in> set_schema_type s' \<Longrightarrow> eq x y = eq' x y"
  shows "schema_type_eq eq s t = schema_type_eq eq' s' t'"
  unfolding assms(1,2) using assms(3)
proof (induction eq s' t' rule: schema_type_eq.induct)
  case (1 eq s t)
  have "rel_option (schema_type_eq eq) (st_base s) (st_base t) =
        rel_option (schema_type_eq eq') (st_base s) (st_base t)"
    by (rule option.rel_cong [OF refl refl]) (rule "1.IH"(1); simp add: "1.prems" set_schema_type_parent(1))
  moreover have "rel_option (schema_type_eq eq) (st_protocol s) (st_protocol t) =
        rel_option (schema_type_eq eq') (st_protocol s) (st_protocol t)"
    by (rule option.rel_cong [OF refl refl]) (rule "1.IH"(2); simp add: "1.prems" set_schema_type_parent(2))
  moreover have "list_all2 (schema_type_eq eq) (st_mixins s) (st_mixins t) =
        list_all2 (schema_type_eq eq') (st_mixins s) (st_mixins t)"
    by (rule list.rel_cong [OF refl refl]) (rule "1.IH"(3); simp add: "1.prems" set_schema_type_parent(3))
  moreover have "im_eq (schema_attr_eq eq) (st_attrs s) (st_attrs t) =
      im_eq (schema_attr_eq eq') (st_attrs s) (st_attrs t)"
  proof (rule im_eq_cong; simp?)
    fix k v w assume "(k, v) \<in> set (st_attrs s)"
    then show "schema_attr_eq eq v w = schema_attr_eq eq' v w"
      by (simp add: schema_attr_eq_def "1.prems" set_schema_type_member)
  qed
  moreover have "function_type_eq eq (st_func s) (st_func t) = function_type_eq eq' (st_func s) (st_func t)"
    by (rule function_type_eq_cong) (simp_all add: "1.prems" set_schema_type_member)
  moreover have "rel_option (index_signature_eq eq) (st_index_signature s) (st_index_signature t) =
      rel_option (index_signature_eq eq') (st_index_signature s) (st_index_signature t)"
  proof (rule option.rel_cong [OF refl refl])
    fix i j assume "i \<in> set_option (st_index_signature s)"
    then show "index_signature_eq eq i j = index_signature_eq eq' i j"
      by (simp add: index_signature_eq_def "1.prems" set_schema_type_member)
  qed
  ultimately show ?case by (simp only: schema_type_eq.simps [of _ s t])
qed

lemma type_kind_eq_cong [fundef_cong]:
  assumes "k = k'" "l = l'" and "\<And>x y. x \<in> set_type_kind k' \<Longrightarrow> eq x y = eq' x y"
  shows "type_kind_eq eq k l = type_kind_eq eq' k' l'"
proof -
  have "type_kind_eq eq k' l' = type_kind_eq eq' k' l'"
  proof (cases k')
    case (DictK d)
    then have "dict_type_eq eq d e = dict_type_eq eq' d e" for e
      by (intro dict_type_eq_cong) (simp_all add: assms(3))
    with DictK show ?thesis by (simp add: type_kind_eq_def split: type_kind.split)
  next
    case (UnionK ts)
    then have "list_all2 eq ts us = list_all2 eq' ts us" for us
      by (intro list.rel_cong) (simp_all add: assms(3))
    with UnionK show ?thesis by (simp add: type_kind_eq_def split: type_kind.split)
  next
    case (SchemaK s)
    then have "schema_type_eq eq s t = schema_type_eq eq' s t" for t
      by (intro schema_type_eq_cong) (simp_all add: assms(3))
    with SchemaK show ?thesis by (simp add: type_kind_eq_def split: type_kind.split)
  next
    case (FunctionK f)
    then have "function_type_eq eq f g = function_type_eq eq' f g" for g
      by (intro function_type_eq_cong) (simp_all add: assms(3))
    with FunctionK show ?thesis by (simp add: type_kind_eq_def split: type_kind.split)
  qed (simp_all add: type_kind_eq_def assms(3) split: type_kind.split)
  with assms(1,2) show ?thesis by simp
qed

lemma ty_eq_cong [fundef_cong]:
  assumes "t = t'" "u = u'" and "\<And>x y. x \<in> set_ty t' \<Longrightarrow> eq x y = eq' x y"
  shows "ty_eq eq t u = ty_eq eq' t' u'"
  using assms type_kind_eq_cong [of "ty_kind t'" "ty_kind t'" "ty_kind u'" "ty_kind u'" eq eq']
  by (cases t') (simp add: ty_eq_def)

text \<open>The reference of a component is a subterm of the reference.\<close>

definition child :: "(ty_ref \<times> ty_ref) set" where
  "child = {(x, r). x \<in> set_ty (deref r)}"

lemma wf_child: "wf child"
proof (rule wfUNIVI)
  fix P r assume *: "\<forall>x. (\<forall>y. (y, x) \<in> child \<longrightarrow> P y) \<longrightarrow> P x"
  show "P r"
    by (induction r) (use * in \<open>auto simp: child_def\<close>)
qed

function ref_eq :: "ty_ref \<Rightarrow> ty_ref \<Rightarrow> bool" where
  "ref_eq r s \<longleftrightarrow> ty_eq ref_eq (deref r) (deref s)"
  by pat_completeness auto
termination
  by (relation "inv_image child fst") (simp_all add: wf_child wf_inv_image, simp add: child_def)

declare ref_eq.simps [simp del]

definition equal_ty :: "ty_ref \<Rightarrow> ty_ref \<Rightarrow> bool" where
  "equal_ty ty_lhs ty_rhs \<longleftrightarrow> type_kind_eq ref_eq (ref_kind ty_lhs) (ref_kind ty_rhs)"

section \<open>Assignability\<close>

function is_sub_schema_of :: "'r schema_type \<Rightarrow> 'r schema_type \<Rightarrow> bool" where
  "is_sub_schema_of s t \<longleftrightarrow>
     (if schema_full_ty_str s = schema_full_ty_str t then True
      else case st_base s of Some base \<Rightarrow> is_sub_schema_of base t | None \<Rightarrow> False)"
  by pat_completeness auto
termination
  by (relation "measure (\<lambda>(s, t). size s)") (auto simp: size_schema_base)

declare is_sub_schema_of.simps [simp del]

definition number_multiplier_subsume ::
  "number_multiplier_type \<Rightarrow> number_multiplier_type \<Rightarrow> bool" where
  "number_multiplier_subsume l r \<longleftrightarrow>
     (if nm_is_literal l \<and> nm_is_literal r
      then nm_raw_value l = nm_raw_value r \<and> nm_binary_suffix l = nm_binary_suffix r
      else if nm_is_literal l \<and> \<not> nm_is_literal r then True
      else nm_is_literal l \<or> \<not> nm_is_literal r)"

text \<open>A literal against a literal, a primitive type or anything else.\<close>

definition literal_subsume :: "ty_ref \<Rightarrow> ty_ref \<Rightarrow> bool" where
  "literal_subsume ty_lhs ty_rhs \<longleftrightarrow>
     (if is_literal ty_rhs then equal_ty ty_lhs ty_rhs
      else if is_primitive ty_rhs then
        (if is_float ty_rhs \<and> \<not> is_str ty_lhs then True
         else is_substring (ty_str ty_rhs) (ty_str ty_lhs))
      else False)"

text \<open>The downcasts of \<open>into.rs\<close> panic on another kind of type; every call is guarded by
  the test of the flags, so that the branch \<open>None\<close> is the one the code excludes.\<close>

definition list_item_ty :: "ty_ref \<Rightarrow> ty_ref option" where
  "list_item_ty t = (case ref_kind t of ListK i \<Rightarrow> Some i | _ \<Rightarrow> None)"

definition dict_entry_ty :: "ty_ref \<Rightarrow> (ty_ref \<times> ty_ref) option" where
  "dict_entry_ty t = (case ref_kind t of DictK d \<Rightarrow> Some (dt_key_ty d, dt_val_ty d) | _ \<Rightarrow> None)"

definition union_types :: "ty_ref \<Rightarrow> ty_ref list option" where
  "union_types t = (case ref_kind t of UnionK ts \<Rightarrow> Some ts | _ \<Rightarrow> None)"

definition into_schema_type :: "ty_ref \<Rightarrow> ty_ref schema_type option" where
  "into_schema_type t = (case ref_kind t of SchemaK s \<Rightarrow> Some s | _ \<Rightarrow> None)"

definition into_func_type :: "ty_ref \<Rightarrow> ty_ref function_type option" where
  "into_func_type t = (case ref_kind t of FunctionK f \<Rightarrow> Some f | _ \<Rightarrow> None)"

definition into_number_multiplier :: "ty_ref \<Rightarrow> number_multiplier_type option" where
  "into_number_multiplier t = (case ref_kind t of NumberMultiplierK n \<Rightarrow> Some n | _ \<Rightarrow> None)"

lemmas downcast_defs = list_item_ty_def dict_entry_ty_def union_types_def into_schema_type_def
  into_func_type_def into_number_multiplier_def

lemma downcast_guarded:
  "list_item_ty t \<noteq> None \<longleftrightarrow> is_list t" "dict_entry_ty t \<noteq> None \<longleftrightarrow> is_dict t"
  "union_types t \<noteq> None \<longleftrightarrow> is_union t" "into_schema_type t \<noteq> None \<longleftrightarrow> is_schema t"
  "into_func_type t \<noteq> None \<longleftrightarrow> is_func t"
  "into_number_multiplier t \<noteq> None \<longleftrightarrow> is_number_multiplier t"
  by (cases t; cases "deref t"; simp add: downcast_defs split: type_kind.split)+

lemma downcast_Some_iff:
  "list_item_ty t = Some i \<longleftrightarrow> ref_kind t = ListK i"
  "union_types t = Some ts \<longleftrightarrow> ref_kind t = UnionK ts"
  "into_schema_type t = Some s \<longleftrightarrow> ref_kind t = SchemaK s"
  "into_func_type t = Some f \<longleftrightarrow> ref_kind t = FunctionK f"
  "into_number_multiplier t = Some n \<longleftrightarrow> ref_kind t = NumberMultiplierK n"
  "dict_entry_ty t = Some (k, v) \<longleftrightarrow> (\<exists>d. ref_kind t = DictK d \<and> k = dt_key_ty d \<and> v = dt_val_ty d)"
  by (auto simp: downcast_defs split: type_kind.splits)

lemma size_ref_kind:
  "ref_kind t = ListK i \<Longrightarrow> size i < size t"
  "ref_kind t = DictK d \<Longrightarrow> size (dt_key_ty d) < size t"
  "ref_kind t = DictK d \<Longrightarrow> size (dt_val_ty d) < size t"
  "ref_kind t = UnionK ts \<Longrightarrow> u \<in> set ts \<Longrightarrow> size u < size t"
  "ref_kind t = FunctionK f \<Longrightarrow> size (ft_return_ty f) < size t"
  "ref_kind t = FunctionK f \<Longrightarrow> p \<in> set (ft_params f) \<Longrightarrow> size (p_ty p) < size t"
  by (cases t; cases "deref t"; simp add: size_dict_type size_function_return size_function_param
      size_union_member less_SucI)+

lemma size_downcast:
  "Some i = list_item_ty t \<Longrightarrow> size i < size t"
  "Some (k, v) = dict_entry_ty t \<Longrightarrow> size k < size t"
  "Some (k, v) = dict_entry_ty t \<Longrightarrow> size v < size t"
  "union_types t = Some ts \<Longrightarrow> u \<in> set ts \<Longrightarrow> size u < size t"
  "Some f = into_func_type t \<Longrightarrow> size (ft_return_ty f) < size t"
  "Some f = into_func_type t \<Longrightarrow> p \<in> set (ft_params f) \<Longrightarrow> size (p_ty p) < size t"
  by (auto simp: downcast_Some_iff size_ref_kind dest!: sym [of "Some _"])

lemma size_union_types: "union_types t = Some ts \<Longrightarrow> size_list size ts < size t"
  by (cases t; cases "deref t") (auto simp: downcast_Some_iff)

function subsume :: "ty_ref \<Rightarrow> ty_ref \<Rightarrow> bool \<Rightarrow> bool" where
  "subsume ty_lhs ty_rhs check_left_any \<longleftrightarrow>
     (if (check_left_any \<and> is_any ty_lhs) \<or> (is_any ty_rhs \<or> is_none ty_lhs) then True
      else if is_union ty_lhs then
        (case union_types ty_lhs of
           Some types \<Rightarrow> list_all (\<lambda>t. subsume t ty_rhs False) types
         | None \<Rightarrow> False)
      else if is_union ty_rhs then
        (case union_types ty_rhs of
           Some types \<Rightarrow> list_ex (\<lambda>t. subsume ty_lhs t False) types
         | None \<Rightarrow> False)
      else if is_schema ty_lhs then
        (case (into_schema_type ty_lhs, into_schema_type ty_rhs) of
           (Some s, Some t) \<Rightarrow> is_sub_schema_of s t
         | _ \<Rightarrow> False)
      else if is_int ty_lhs \<and> is_float ty_rhs then True
      else if is_number_multiplier ty_lhs \<and> is_number_multiplier ty_rhs then
        (case (into_number_multiplier ty_lhs, into_number_multiplier ty_rhs) of
           (Some l, Some r) \<Rightarrow> number_multiplier_subsume l r
         | _ \<Rightarrow> False)
      else if is_primitive ty_lhs \<and> is_primitive ty_rhs then equal_ty ty_lhs ty_rhs
      else if is_literal ty_lhs then literal_subsume ty_lhs ty_rhs
      else if is_list ty_lhs \<and> is_list ty_rhs then
        (case (list_item_ty ty_lhs, list_item_ty ty_rhs) of
           (Some i, Some j) \<Rightarrow> subsume i j check_left_any
         | _ \<Rightarrow> False)
      else if is_dict ty_lhs \<and> is_dict ty_rhs then
        (case (dict_entry_ty ty_lhs, dict_entry_ty ty_rhs) of
           (Some (ty_lhs_key, ty_lhs_val), Some (ty_rhs_key, ty_rhs_val)) \<Rightarrow>
             subsume ty_lhs_key ty_rhs_key check_left_any \<and>
             subsume ty_lhs_val ty_rhs_val check_left_any
         | _ \<Rightarrow> False)
      else if is_str ty_lhs \<and> is_literal ty_rhs \<and> is_str ty_rhs then True
      else if is_func ty_lhs \<and> is_func ty_rhs then
        (case (into_func_type ty_lhs, into_func_type ty_rhs) of
           (Some f, Some g) \<Rightarrow>
             length (ft_params f) = length (ft_params g) \<and>
             list_all (\<lambda>(p, q). subsume (p_ty q) (p_ty p) check_left_any)
               (zip (ft_params f) (ft_params g)) \<and>
             subsume (ft_return_ty f) (ft_return_ty g) check_left_any
         | _ \<Rightarrow> False)
      else equal_ty ty_lhs ty_rhs)"
  by pat_completeness auto
termination
proof (relation "measure (\<lambda>(l, r, c). size l + size r)", goal_cases)
  case (4 l r) from 4(10-) show ?case by (simp add: size_downcast add_less_mono)
next
  case (5 l r) from 5(10-) show ?case by (auto intro!: add_less_mono intro: size_downcast)
next
  case (6 l r) from 6(10-) show ?case by (auto intro!: add_less_mono intro: size_downcast)
next
  case (7 l r) from 7(11-) show ?case
    by (auto simp: add.commute [of "size l"] dest: set_zip_leftD set_zip_rightD
        intro!: add_less_mono size_downcast(6))
next
  case (8 l r) from 8(11-) show ?case by (simp add: size_downcast add_less_mono)
qed (simp_all add: size_downcast)

declare subsume.simps [simp del]

definition assignable_to :: "ty_ref \<Rightarrow> ty_ref \<Rightarrow> bool" where
  "assignable_to t expected_ty \<longleftrightarrow> (if \<not> is_assignable_type t then False else subsume t expected_ty True)"

definition is_upper_bound :: "ty_ref \<Rightarrow> ty_ref \<Rightarrow> bool" where
  "is_upper_bound lhs_ty rhs_ty \<longleftrightarrow> subsume rhs_ty lhs_ty False"

definition has_any_type :: "ty_ref list \<Rightarrow> bool" where
  "has_any_type types \<longleftrightarrow> list_ex is_any types"

section \<open>Suprema\<close>

text \<open>The set of types is keyed by addresses: two references to one allocation are one
  member, two equal allocations are two.\<close>

type_synonym type_set = "(nat, ty_ref) imap"

function (sequential) add_types_to_type_set :: "type_set \<Rightarrow> ty_ref list \<Rightarrow> type_set"
  and add_type_to_type_set :: "type_set \<Rightarrow> ty_ref \<Rightarrow> type_set" where
  "add_types_to_type_set type_set [] = type_set"
| "add_types_to_type_set type_set (t # types) =
     add_types_to_type_set (add_type_to_type_set type_set t) types"
| "add_type_to_type_set type_set t =
     (case union_types t of
        Some types \<Rightarrow> add_types_to_type_set type_set types
      | None \<Rightarrow>
          if \<not> is_void t \<and> \<not> im_contains type_set (addr t)
          then im_insert type_set (addr t) t else type_set)"
  by pat_completeness auto
termination
  by (relation "measure (\<lambda>x. case x of Inl (s, ts) \<Rightarrow> size_list size ts | Inr (s, t) \<Rightarrow> size t)")
    (auto simp: size_union_types)

text \<open>The inner loop over the later members: the addresses marked for removal.\<close>

fun mark_targets :: "nat \<Rightarrow> ty_ref \<Rightarrow> type_set \<Rightarrow> nat list \<Rightarrow> nat list" where
  "mark_targets source_addr source [] removed = removed"
| "mark_targets source_addr source ((target_addr, target) # targets) removed =
     (if target_addr \<in> set removed then mark_targets source_addr source targets removed
      else if source_addr = target_addr then mark_targets source_addr source targets removed
      else if equal_ty source target then
        mark_targets source_addr source targets (List.insert target_addr removed)
      else if subsume source target False then List.insert source_addr removed
      else if subsume target source False then
        mark_targets source_addr source targets (List.insert target_addr removed)
      else mark_targets source_addr source targets removed)"

fun mark_sources :: "type_set \<Rightarrow> nat list \<Rightarrow> nat list" where
  "mark_sources [] removed = removed"
| "mark_sources ((source_addr, source) # rest) removed =
     (if source_addr \<in> set removed then mark_sources rest removed
      else mark_sources rest (mark_targets source_addr source rest removed))"

text \<open>The addresses to remove are iterated in the order of a \<open>HashSet\<close>, which depends on
  a random seed: \<open>iter\<close> is that order. The last argument is the address of the type the
  function may allocate.\<close>

definition type_of ::
  "(nat list \<Rightarrow> nat list) \<Rightarrow> ty_ref list \<Rightarrow> bool \<Rightarrow> nat \<Rightarrow> ty_ref" where
  "type_of iter types should_remove_sub_types fresh =
     (let type_set = add_types_to_type_set [] types;
          type_set = (if should_remove_sub_types
                      then foldl im_swap_remove type_set (iter (mark_sources type_set []))
                      else type_set)
      in if type_set = [] then Arc fresh (mk_type AnyK)
         else if length type_set = 1 then snd (hd type_set)
         else Arc fresh (mk_type (UnionK (im_values type_set))))"

definition sup_ty :: "(nat list \<Rightarrow> nat list) \<Rightarrow> ty_ref list \<Rightarrow> nat \<Rightarrow> ty_ref" where
  "sup_ty iter types fresh = type_of iter types True fresh"

section \<open>The type context\<close>

record builtin_types =
  bt_any :: ty_ref
  bt_bool :: ty_ref
  bt_int :: ty_ref
  bt_float :: ty_ref
  bt_str :: ty_ref
  bt_void :: ty_ref
  bt_none :: ty_ref

definition new_builtin_types :: "nat \<Rightarrow> builtin_types" where
  "new_builtin_types fresh =
     \<lparr>bt_any = Arc fresh (mk_type AnyK), bt_bool = Arc (fresh + 1) (mk_type BoolK),
      bt_int = Arc (fresh + 2) (mk_type IntK), bt_float = Arc (fresh + 3) (mk_type FloatK),
      bt_str = Arc (fresh + 4) (mk_type StrK), bt_void = Arc (fresh + 5) (mk_type VoidK),
      bt_none = Arc (fresh + 6) (mk_type NoneK)\<rparr>"

text \<open>Allocation: the next address is handed through.\<close>

definition alloc :: "ty_ref ty \<Rightarrow> nat \<Rightarrow> ty_ref \<times> nat" where
  "alloc t fresh = (Arc fresh t, Suc fresh)"

function infer_to_variable_type ::
  "builtin_types \<Rightarrow> (nat list \<Rightarrow> nat list) \<Rightarrow> ty_ref \<Rightarrow> nat \<Rightarrow> ty_ref \<times> nat"
  and infer_to_variable_types ::
  "builtin_types \<Rightarrow> (nat list \<Rightarrow> nat list) \<Rightarrow> ty_ref list \<Rightarrow> nat \<Rightarrow> ty_ref list \<times> nat" where
  "infer_to_variable_type bt iter t fresh =
     (case ref_kind t of
        NoneK \<Rightarrow> (bt_any bt, fresh)
      | BoolLit _ \<Rightarrow> (bt_bool bt, fresh)
      | IntLit _ \<Rightarrow> (bt_int bt, fresh)
      | FloatLit _ \<Rightarrow> (bt_float bt, fresh)
      | StrLit _ \<Rightarrow> (bt_str bt, fresh)
      | ListK item_ty \<Rightarrow>
          (let (i, fresh) = infer_to_variable_type bt iter item_ty fresh
           in alloc (mk_type (ListK i)) fresh)
      | DictK d \<Rightarrow>
          (let (k, fresh) = infer_to_variable_type bt iter (dt_key_ty d) fresh;
               (v, fresh) = infer_to_variable_type bt iter (dt_val_ty d) fresh
           in alloc (dict_with_attrs k v (dt_attrs d)) fresh)
      | UnionK types \<Rightarrow>
          (let (ts, fresh) = infer_to_variable_types bt iter types fresh
           in (sup_ty iter ts fresh, Suc fresh))
      | _ \<Rightarrow> (t, fresh))"
| "infer_to_variable_types bt iter [] fresh = ([], fresh)"
| "infer_to_variable_types bt iter (t # ts) fresh =
     (let (u, fresh) = infer_to_variable_type bt iter t fresh;
          (us, fresh) = infer_to_variable_types bt iter ts fresh
      in (u # us, fresh))"
  by pat_completeness auto
termination
  by (relation "measure (\<lambda>x. case x of Inl (bt, iter, t, n) \<Rightarrow> size t
       | Inr (bt, iter, ts, n) \<Rightarrow> size_list size ts)")
    (auto simp: size_ref_kind intro: size_union_types [unfolded downcast_Some_iff])

declare infer_to_variable_type.simps [simp del]

definition literal_union_type_to_variable_type ::
  "builtin_types \<Rightarrow> (nat list \<Rightarrow> nat list) \<Rightarrow> ty_ref \<Rightarrow> nat \<Rightarrow> ty_ref \<times> nat" where
  "literal_union_type_to_variable_type bt iter t fresh =
     (if is_union t then infer_to_variable_type bt iter t fresh else (t, fresh))"

definition is_kind_type_or_kind_union_type :: "ty_ref \<Rightarrow> 16 word list \<Rightarrow> bool" where
  "is_kind_type_or_kind_union_type t flags \<longleftrightarrow>
     (case union_types t of
        Some types \<Rightarrow> list_all (\<lambda>u. list_ex (contains_flags (deref u)) flags) types
      | None \<Rightarrow> list_ex (contains_flags (deref t)) flags)"

definition is_number_type_or_number_union_type :: "ty_ref \<Rightarrow> bool" where
  "is_number_type_or_number_union_type t = is_kind_type_or_kind_union_type t [TF_INT, TF_FLOAT]"

definition is_number_bool_type_or_number_bool_union_type :: "ty_ref \<Rightarrow> bool" where
  "is_number_bool_type_or_number_bool_union_type t =
     is_kind_type_or_kind_union_type t [TF_INT, TF_FLOAT, TF_BOOL]"

definition is_config_type_or_config_union_type :: "ty_ref \<Rightarrow> bool" where
  "is_config_type_or_config_union_type t = is_kind_type_or_kind_union_type t [TF_DICT, TF_SCHEMA]"

definition is_str_type_or_str_union_type :: "ty_ref \<Rightarrow> bool" where
  "is_str_type_or_str_union_type t = is_kind_type_or_kind_union_type t [TF_STR]"

definition is_primitive_type_or_primitive_union_type :: "ty_ref \<Rightarrow> bool" where
  "is_primitive_type_or_primitive_union_type t =
     is_kind_type_or_kind_union_type t [TF_INT, TF_FLOAT, TF_BOOL, TF_STR]"

definition is_mul_val_type_or_mul_val_union_type :: "ty_ref \<Rightarrow> bool" where
  "is_mul_val_type_or_mul_val_union_type t =
     is_kind_type_or_kind_union_type t [TF_INT, TF_FLOAT, TF_STR, TF_LIST]"

end
