(* ===== verification/Sema_Unify_Laws.thy ===== *)
theory Sema_Unify_Laws
  imports Sema_Unify
begin

text \<open>
  Laws of the type relation of the checker: \<open>subsume\<close> decides a declarative subtype
  relation, is implied by equality, and is transitive on types without string literals.
\<close>

section \<open>Texts of literals\<close>

lemma is_substring_set: "is_substring p s \<Longrightarrow> set p \<subseteq> set s"
  by (auto simp: is_substring_iff)

definition numeric_char :: "char \<Rightarrow> bool" where
  "numeric_char c \<longleftrightarrow> is_digit c \<or> c = CHR ''-'' \<or> c = CHR ''.''"

lemma show_nat_numeric: "list_all numeric_char (show_nat n)"
proof (induction n rule: show_nat.induct)
  case (1 n)
  have "numeric_char (char_of (48 + d))" if "d < 10" for d :: nat
    using that by (simp add: numeric_char_def is_digit_def)
  with 1 show ?case by (subst show_nat.simps) simp
qed

lemma show_int_numeric: "list_all numeric_char (show_int x)"
  using show_nat_numeric by (simp add: show_int_def numeric_char_def)

lemma numeric_char_zero: "numeric_char CHR ''0''"
  by (simp add: numeric_char_def is_digit_def)

lemma positional_numeric: "list_all numeric_char (positional c p)"
proof -
  have *: "list_all numeric_char (take i (show_nat n))" "list_all numeric_char (drop i (show_nat n))"
    for i n using show_nat_numeric [of n]
    by (auto simp: list_all_iff dest: in_set_takeD in_set_dropD)
  have "numeric_char CHR ''.''" by (simp add: numeric_char_def)
  then show ?thesis
    by (simp add: positional_def Let_def case_prod_unfold show_nat_numeric * list_all_iff [of _ "replicate _ _"]
        numeric_char_zero)
qed

lemma f64_to_string_numeric: "list_all numeric_char (f64_to_string (Fin s m e))"
  by (simp add: Let_def positional_numeric numeric_char_def [of "CHR ''-''"] numeric_char_zero
      split: option.split prod.split)

declare f64_to_string.simps(3) [simp del]

lemma no_substring_numeric:
  assumes "list_all numeric_char s" "c \<in> set p" "\<not> numeric_char c" "c \<notin> set u" "c \<notin> set v"
  shows "\<not> is_substring p (u @ s @ v)"
  using assms by (auto simp: list_all_iff dest!: is_substring_set)

lemma not_numeric_letters:
  "\<not> numeric_char CHR ''i''" "\<not> numeric_char CHR ''s''" "\<not> numeric_char CHR ''b''"
  by (simp_all add: numeric_char_def is_digit_def)

lemmas type_strs = INT_TYPE_STR_def FLOAT_TYPE_STR_def STR_TYPE_STR_def BOOL_TYPE_STR_def

text \<open>Which primitive names occur in the text of a literal type.\<close>

lemma int_lit_text:
  "is_substring ''int'' (''int('' @ show_int x @ '')'')"
  "\<not> is_substring ''str'' (''int('' @ show_int x @ '')'')"
  "\<not> is_substring ''bool'' (''int('' @ show_int x @ '')'')"
  subgoal by simp
  subgoal by (rule no_substring_numeric [where c = "CHR ''s''"])
    (simp_all add: show_int_numeric not_numeric_letters)
  subgoal by (rule no_substring_numeric [where c = "CHR ''b''"])
    (simp_all add: show_int_numeric not_numeric_letters)
  done

lemma float_lit_text:
  "is_substring ''float'' (''float('' @ f64_to_string v @ '')'')"
  "\<not> is_substring ''int'' (''float('' @ f64_to_string v @ '')'')"
  "\<not> is_substring ''str'' (''float('' @ f64_to_string v @ '')'')"
  "\<not> is_substring ''bool'' (''float('' @ f64_to_string v @ '')'')"
proof -
  have *: "\<not> is_substring p (''float('' @ f64_to_string (Fin s m e) @ '')'')"
    if "c \<in> set p" "\<not> numeric_char c" "c \<notin> set ''float()''" for p c s m e
    by (rule no_substring_numeric [where c = c]) (use that f64_to_string_numeric in auto)
  show "is_substring ''float'' (''float('' @ f64_to_string v @ '')'')" by simp
  show "\<not> is_substring ''int'' (''float('' @ f64_to_string v @ '')'')"
    by (cases v) (use * [of "CHR ''i''" "''int''"] not_numeric_letters in simp_all)
  show "\<not> is_substring ''str'' (''float('' @ f64_to_string v @ '')'')"
    by (cases v) (use * [of "CHR ''s''" "''str''"] not_numeric_letters in simp_all)
  show "\<not> is_substring ''bool'' (''float('' @ f64_to_string v @ '')'')"
    by (cases v) (use * [of "CHR ''b''" "''bool''"] not_numeric_letters in simp_all)
qed

lemma bool_lit_text:
  "is_substring ''bool'' (''bool('' @ bool_name b @ '')'')"
  "\<not> is_substring ''int'' (''bool('' @ bool_name b @ '')'')"
  "\<not> is_substring ''str'' (''bool('' @ bool_name b @ '')'')"
  by (simp_all add: bool_name_def NAME_CONSTANT_TRUE_def NAME_CONSTANT_FALSE_def)

lemma str_lit_text: "is_substring ''str'' (''str('' @ v @ '')'')"
  by simp

lemmas lit_texts = int_lit_text(2,3) [simplified] float_lit_text(2-4) [simplified]
  bool_lit_text(2,3) [simplified]

section \<open>The relation by kinds\<close>

text \<open>\<open>subsume\<close> on types that are neither unions nor decided by \<open>any\<close> and \<open>None\<close>, by the
  kind of the left side.\<close>

definition flat :: "ty_ref \<Rightarrow> ty_ref \<Rightarrow> bool" where
  "flat l r \<longleftrightarrow> ref_kind l \<noteq> AnyK \<and> ref_kind l \<noteq> NoneK \<and> ref_kind r \<noteq> AnyK \<and>
     (\<forall>ts. ref_kind l \<noteq> UnionK ts) \<and> (\<forall>ts. ref_kind r \<noteq> UnionK ts)"

fun kind_subsume :: "ty_ref type_kind \<Rightarrow> ty_ref type_kind \<Rightarrow> bool \<Rightarrow> bool" where
  "kind_subsume IntK r c \<longleftrightarrow> (case r of IntK \<Rightarrow> True | FloatK \<Rightarrow> True | FloatLit _ \<Rightarrow> True | _ \<Rightarrow> False)"
| "kind_subsume (IntLit n) r c \<longleftrightarrow> (case r of IntLit m \<Rightarrow> n = m | IntK \<Rightarrow> True | FloatK \<Rightarrow> True
     | FloatLit _ \<Rightarrow> True | _ \<Rightarrow> False)"
| "kind_subsume FloatK r c \<longleftrightarrow> (case r of FloatK \<Rightarrow> True | _ \<Rightarrow> False)"
| "kind_subsume (FloatLit v) r c \<longleftrightarrow> (case r of FloatLit w \<Rightarrow> f64_eq v w | FloatK \<Rightarrow> True | _ \<Rightarrow> False)"
| "kind_subsume BoolK r c \<longleftrightarrow> (case r of BoolK \<Rightarrow> True | _ \<Rightarrow> False)"
| "kind_subsume (BoolLit b) r c \<longleftrightarrow> (case r of BoolLit d \<Rightarrow> b = d | BoolK \<Rightarrow> True | FloatK \<Rightarrow> True
     | _ \<Rightarrow> False)"
| "kind_subsume StrK r c \<longleftrightarrow> (case r of StrK \<Rightarrow> True | StrLit _ \<Rightarrow> True | _ \<Rightarrow> False)"
| "kind_subsume (StrLit s) r c \<longleftrightarrow> (case r of StrLit t \<Rightarrow> s = t | StrK \<Rightarrow> True
     | IntK \<Rightarrow> is_substring ''int'' (''str('' @ s @ '')'')
     | FloatK \<Rightarrow> is_substring ''float'' (''str('' @ s @ '')'')
     | BoolK \<Rightarrow> is_substring ''bool'' (''str('' @ s @ '')'') | _ \<Rightarrow> False)"
| "kind_subsume (ListK i) r c \<longleftrightarrow> (case r of ListK j \<Rightarrow> subsume i j c | _ \<Rightarrow> False)"
| "kind_subsume (DictK d) r c \<longleftrightarrow> (case r of DictK e \<Rightarrow>
       subsume (dt_key_ty d) (dt_key_ty e) c \<and> subsume (dt_val_ty d) (dt_val_ty e) c | _ \<Rightarrow> False)"
| "kind_subsume (SchemaK s) r c \<longleftrightarrow> (case r of SchemaK t \<Rightarrow> is_sub_schema_of s t | _ \<Rightarrow> False)"
| "kind_subsume (NumberMultiplierK n) r c \<longleftrightarrow>
     (case r of NumberMultiplierK m \<Rightarrow> number_multiplier_subsume n m | _ \<Rightarrow> False)"
| "kind_subsume (FunctionK f) r c \<longleftrightarrow> (case r of FunctionK g \<Rightarrow>
       list_all2 (\<lambda>p q. subsume (p_ty q) (p_ty p) c) (ft_params f) (ft_params g) \<and>
       subsume (ft_return_ty f) (ft_return_ty g) c | _ \<Rightarrow> False)"
| "kind_subsume VoidK r c \<longleftrightarrow> (case r of VoidK \<Rightarrow> True | _ \<Rightarrow> False)"
| "kind_subsume (ModuleK m) r c \<longleftrightarrow> (case r of ModuleK n \<Rightarrow> m = n | _ \<Rightarrow> False)"
| "kind_subsume (NamedK s) r c \<longleftrightarrow> (case r of NamedK t \<Rightarrow> s = t | _ \<Rightarrow> False)"
| "kind_subsume _ r c \<longleftrightarrow> False"

lemma kind_subsume_eq:
  assumes "flat l r"
  shows "subsume l r c \<longleftrightarrow> kind_subsume (ref_kind l) (ref_kind r) c"
proof -
  obtain a k b a' k' b' where lr: "l = Arc a (Type k b)" "r = Arc a' (Type k' b')"
    by (metis ty.exhaust ty_ref.exhaust)
  have "k \<noteq> AnyK \<and> k \<noteq> NoneK \<and> k' \<noteq> AnyK \<and> (\<forall>ts. k \<noteq> UnionK ts) \<and> (\<forall>ts. k' \<noteq> UnionK ts)"
    using assms by (simp add: flat_def lr)
  then show ?thesis
    unfolding lr subsume.simps [of "Arc a (Type k b)" "Arc a' (Type k' b')"]
    by (cases k; simp add: equal_ty_def type_kind_eq_def literal_subsume_def downcast_defs type_strs
        lit_texts list_all2_iff list_all_iff split: type_kind.split; auto)
qed

lemma ref_kind_flags:
  "is_any t \<longleftrightarrow> ref_kind t = AnyK" "is_none t \<longleftrightarrow> ref_kind t = NoneK"
  "is_union t \<longleftrightarrow> (\<exists>ts. ref_kind t = UnionK ts)" "is_void t \<longleftrightarrow> ref_kind t = VoidK"
  by (cases t; cases "deref t"; simp split: type_kind.split)+

lemma subsume_any_right [simp]: "ref_kind r = AnyK \<Longrightarrow> subsume l r c"
  by (simp add: subsume.simps ref_kind_flags)

lemma subsume_none_left [simp]: "ref_kind l = NoneK \<Longrightarrow> subsume l r c"
  by (simp add: subsume.simps ref_kind_flags)

lemma subsume_any_left [simp]: "ref_kind l = AnyK \<Longrightarrow> subsume l r True"
  by (simp add: subsume.simps ref_kind_flags)

lemma subsume_union_left:
  "ref_kind l = UnionK ts \<Longrightarrow> subsume l r c \<longleftrightarrow> (\<forall>t \<in> set ts. subsume t r False)"
  by (auto simp: subsume.simps [of l] ref_kind_flags union_types_def list_all_iff)

lemma subsume_union_right:
  assumes "ref_kind r = UnionK us" "\<nexists>ts. ref_kind l = UnionK ts" "ref_kind l \<noteq> NoneK"
    and "\<not> (c \<and> ref_kind l = AnyK)"
  shows "subsume l r c \<longleftrightarrow> (\<exists>u \<in> set us. subsume l u False)"
  using assms by (auto simp: subsume.simps [of l r] ref_kind_flags union_types_def list_ex_iff)

lemma subsume_any_other:
  assumes "ref_kind l = AnyK" "ref_kind r \<noteq> AnyK" "\<nexists>us. ref_kind r = UnionK us"
  shows "\<not> subsume l r False"
proof -
  obtain a k b a' k' b' where lr: "l = Arc a (Type k b)" "r = Arc a' (Type k' b')"
    by (metis ty.exhaust ty_ref.exhaust)
  with assms show ?thesis
    by (cases k') (simp_all add: subsume.simps [of "Arc a (Type AnyK b)" "Arc _ _"] equal_ty_def
        type_kind_eq_def)
qed

text \<open>A member of a union is below the union.\<close>

lemma subsume_unionI:
  assumes "ref_kind r = UnionK us" "u \<in> set us" "subsume l u False"
  shows "subsume l r c"
  using assms(3)
proof (induction "size l" arbitrary: l c rule: less_induct)
  case (less l c)
  consider (union) ts where "ref_kind l = UnionK ts" | (none) "ref_kind l = NoneK"
    | (any) "c" "ref_kind l = AnyK"
    | (other) "\<nexists>ts. ref_kind l = UnionK ts" "ref_kind l \<noteq> NoneK" "\<not> (c \<and> ref_kind l = AnyK)"
    by blast
  then show ?case
  proof cases
    case union
    with less show ?thesis by (simp add: subsume_union_left size_ref_kind(4))
  next
    case other
    then show ?thesis using subsume_union_right [OF assms(1) other] assms(2) less.prems by blast
  qed simp_all
qed

text \<open>What is above \<open>any\<close> is above everything.\<close>

lemma subsume_above_any:
  assumes "ref_kind a = AnyK" "subsume a r False"
  shows "subsume x r c"
  using assms(2)
proof (induction "size r" arbitrary: r c rule: less_induct)
  case less
  consider "ref_kind r = AnyK" | us where "ref_kind r = UnionK us"
    using subsume_any_other [OF assms(1)] less.prems by blast
  then show ?case
  proof cases
    case 2
    then obtain u where "u \<in> set us" "subsume a u False"
      using subsume_union_right [OF 2, of a False] less.prems assms(1) by auto
    with 2 less.hyps show ?thesis by (meson size_ref_kind(4) subsume_unionI)
  qed simp
qed

section \<open>Monotonicity and equality\<close>

lemma flat_cases:
  obtains (any) "ref_kind r = AnyK" | (none) "ref_kind l = NoneK"
  | (union_left) ts where "ref_kind l = UnionK ts"
  | (any_left) "ref_kind l = AnyK" "ref_kind r \<noteq> AnyK"
  | (union_right) us where "ref_kind r = UnionK us" "\<nexists>ts. ref_kind l = UnionK ts"
      "ref_kind l \<noteq> NoneK" "ref_kind l \<noteq> AnyK"
  | (flat) "flat l r"
  unfolding flat_def by blast

text \<open>Allowing \<open>any\<close> on the left only accepts more.\<close>

lemma subsume_mono: "subsume l r False \<Longrightarrow> subsume l r c"
proof (induction "size l + size r" arbitrary: l r rule: less_induct)
  case less
  show ?case
  proof (cases rule: flat_cases [where l = l and r = r])
    case union_left
    with less.prems show ?thesis by (simp add: subsume_union_left)
  next
    case any_left
    then show ?thesis using less.prems by (rule_tac subsume_above_any)
  next
    case (union_right us)
    with less.prems subsume_unionI show ?thesis by (metis subsume_union_right)
  next
    case flat
    have *: "subsume l' r' c" if "size l' + size r' < size l + size r" "subsume l' r' False" for l' r'
      using less.hyps that by blast
    show ?thesis
    proof (cases "ref_kind l")
      case (ListK i)
      with less.prems flat * show ?thesis
        by (auto simp: kind_subsume_eq size_ref_kind add_less_mono split: type_kind.splits)
    next
      case (DictK d)
      with less.prems flat * show ?thesis
        by (auto simp: kind_subsume_eq size_ref_kind add_less_mono split: type_kind.splits)
    next
      case (FunctionK f)
      have "subsume l' r' c" if "size r' + size l' < size l + size r" "subsume l' r' False" for l' r'
        using that by (intro *) (simp_all add: add.commute)
      with less.prems flat FunctionK show ?thesis
        by (auto simp: kind_subsume_eq size_ref_kind add_less_mono
            split: type_kind.splits intro: * elim!: list.rel_mono_strong)
    qed (use less.prems flat in \<open>auto simp: kind_subsume_eq split: type_kind.splits\<close>)
  qed simp_all
qed

text \<open>Equal types are below each other, whatever their addresses are. The parameters of
  functions turn the relation around, so the statement is about both directions.\<close>

definition eqv :: "ty_ref \<Rightarrow> ty_ref \<Rightarrow> bool" where
  "eqv l r \<longleftrightarrow> ref_eq l r \<or> ref_eq r l"

definition kind_eqv :: "ty_ref type_kind \<Rightarrow> ty_ref type_kind \<Rightarrow> bool" where
  "kind_eqv k l \<longleftrightarrow> type_kind_eq ref_eq k l \<or> type_kind_eq ref_eq l k"

lemma eqv_kind: "eqv l r \<Longrightarrow> kind_eqv (ref_kind l) (ref_kind r)"
  by (auto simp: eqv_def kind_eqv_def ref_eq.simps ty_eq_def ref_kind_def)

lemma kind_eqv_union:
  "kind_eqv (UnionK ts) r \<Longrightarrow> \<exists>us. r = UnionK us \<and> list_all2 eqv ts us"
  by (auto simp: kind_eqv_def type_kind_eq_def eqv_def list_all2_conv_all_nth split: type_kind.splits)

lemma kind_eqv_function:
  "kind_eqv (FunctionK f) r \<Longrightarrow> \<exists>g. r = FunctionK g \<and>
     list_all2 (\<lambda>p q. eqv (p_ty q) (p_ty p)) (ft_params f) (ft_params g) \<and>
     eqv (ft_return_ty f) (ft_return_ty g)"
  by (auto simp: kind_eqv_def type_kind_eq_def function_type_eq_def eqv_def parameter_eq_def
      list_all2_conv_all_nth split: type_kind.splits)

lemma kind_eqv_dict:
  "kind_eqv (DictK d) r \<Longrightarrow> \<exists>e. r = DictK e \<and> eqv (dt_key_ty d) (dt_key_ty e) \<and>
     eqv (dt_val_ty d) (dt_val_ty e)"
  by (auto simp: kind_eqv_def type_kind_eq_def dict_type_eq_def eqv_def split: type_kind.splits)

lemma kind_eqv_list: "kind_eqv (ListK i) r \<Longrightarrow> \<exists>j. r = ListK j \<and> eqv i j"
  by (auto simp: kind_eqv_def type_kind_eq_def eqv_def split: type_kind.splits)

lemma is_sub_schema_of_same: "schema_full_ty_str s = schema_full_ty_str t \<Longrightarrow> is_sub_schema_of s t"
  by (subst is_sub_schema_of.simps) simp

lemma schema_type_eq_name:
  "schema_type_eq eq s t \<Longrightarrow> schema_full_ty_str s = schema_full_ty_str t"
  by (subst (asm) schema_type_eq.simps) (simp add: schema_full_ty_str_def)

lemma kind_eqv_schema: "kind_eqv (SchemaK s) r \<Longrightarrow> \<exists>t. r = SchemaK t \<and> is_sub_schema_of s t"
  by (auto simp: kind_eqv_def type_kind_eq_def dest: schema_type_eq_name
      intro!: is_sub_schema_of_same split: type_kind.splits)

lemma eqv_subsume: "kind_eqv (ref_kind l) (ref_kind r) \<Longrightarrow> subsume l r c"
proof (induction "size l + size r" arbitrary: l r c rule: less_induct)
  case (less l r c)
  note eq = less.prems
  have IH: "subsume l' r' c" if "size l' + size r' < size l + size r" "eqv l' r'" for l' r' c
    using less.hyps [OF that(1)] eqv_kind [OF that(2)] by blast
  show ?case
  proof (cases rule: flat_cases [where l = l and r = r])
    case (union_left ts)
    with eq obtain us where us: "ref_kind r = UnionK us" "list_all2 eqv ts us"
      using kind_eqv_union by metis
    have "subsume t r False" if t: "t \<in> set ts" for t
    proof -
      obtain i where i: "i < length ts" "t = ts ! i"
        using t by (auto simp: in_set_conv_nth)
      have "eqv t (us ! i)" "us ! i \<in> set us"
        using us(2) i by (auto simp: list_all2_conv_all_nth)
      then show ?thesis
        by (intro subsume_unionI [OF us(1)] IH add_less_mono size_ref_kind(4) [OF union_left t]
            size_ref_kind(4) [OF us(1)])
    qed
    with union_left show ?thesis by (simp add: subsume_union_left)
  next
    case any_left
    with eq show ?thesis by (simp add: kind_eqv_def type_kind_eq_def split: type_kind.splits)
  next
    case union_right
    with eq show ?thesis by (auto simp: kind_eqv_def type_kind_eq_def split: type_kind.splits)
  next
    case flat
    show ?thesis
    proof (cases "ref_kind l")
      case (FunctionK f)
      obtain g where g: "ref_kind r = FunctionK g" "eqv (ft_return_ty f) (ft_return_ty g)"
        "list_all2 (\<lambda>p q. eqv (p_ty q) (p_ty p)) (ft_params f) (ft_params g)"
        using kind_eqv_function eq FunctionK by metis
      have "subsume (p_ty q) (p_ty p) c"
        if "p \<in> set (ft_params f)" "q \<in> set (ft_params g)" "eqv (p_ty q) (p_ty p)" for p q
        using size_ref_kind(6) [OF FunctionK that(1)] size_ref_kind(6) [OF g(1) that(2)] that(3)
        by (intro IH) simp_all
      with g(3) have "list_all2 (\<lambda>p q. subsume (p_ty q) (p_ty p) c) (ft_params f) (ft_params g)"
        by (rule list.rel_mono_strong) blast+
      moreover have "subsume (ft_return_ty f) (ft_return_ty g) c"
        by (intro IH add_less_mono size_ref_kind(5) [OF FunctionK] size_ref_kind(5) [OF g(1)] g(2))
      ultimately show ?thesis using FunctionK g(1) flat by (simp add: kind_subsume_eq)
    next
      case (DictK d)
      with kind_eqv_dict eq obtain e where e: "ref_kind r = DictK e"
        "eqv (dt_key_ty d) (dt_key_ty e)" "eqv (dt_val_ty d) (dt_val_ty e)" by metis
      with DictK flat show ?thesis
        by (simp add: kind_subsume_eq IH size_ref_kind add_less_mono)
    next
      case (ListK i)
      with kind_eqv_list eq obtain j where "ref_kind r = ListK j" "eqv i j" by metis
      with ListK flat show ?thesis by (simp add: kind_subsume_eq IH size_ref_kind add_less_mono)
    next
      case (SchemaK s)
      with kind_eqv_schema eq obtain t where "ref_kind r = SchemaK t" "is_sub_schema_of s t" by metis
      with SchemaK flat show ?thesis by (simp add: kind_subsume_eq)
    qed (use eq flat in \<open>auto simp: kind_subsume_eq kind_eqv_def type_kind_eq_def f64_eq_sym
        number_multiplier_eq_def number_multiplier_subsume_def flat_def split: type_kind.splits\<close>)
  qed simp_all
qed

lemma equal_subsume: "equal_ty l r \<Longrightarrow> subsume l r c" "equal_ty l r \<Longrightarrow> subsume r l c"
  by (simp_all add: equal_ty_def eqv_subsume kind_eqv_def)

section \<open>The declarative subtype relation\<close>

text \<open>The rules of assignability, in no particular order; \<open>c\<close> tells whether \<open>any\<close> is
  accepted on the left.\<close>

inductive subtype :: "bool \<Rightarrow> ty_ref \<Rightarrow> ty_ref \<Rightarrow> bool" where
  any_right: "ref_kind r = AnyK \<Longrightarrow> subtype c l r"
| any_left: "ref_kind l = AnyK \<Longrightarrow> subtype True l r"
| none_left: "ref_kind l = NoneK \<Longrightarrow> subtype c l r"
| union_left: "ref_kind l = UnionK ts \<Longrightarrow> \<forall>t \<in> set ts. subtype False t r \<Longrightarrow> subtype c l r"
| union_right: "ref_kind r = UnionK us \<Longrightarrow> u \<in> set us \<Longrightarrow> subtype False l u \<Longrightarrow> subtype c l r"
| same: "ref_kind l = ref_kind r \<Longrightarrow> ref_kind l \<in> {BoolK, IntK, FloatK, StrK, VoidK} \<Longrightarrow> subtype c l r"
| same_module: "ref_kind l = ModuleK m \<Longrightarrow> ref_kind r = ModuleK m \<Longrightarrow> subtype c l r"
| same_name: "ref_kind l = NamedK n \<Longrightarrow> ref_kind r = NamedK n \<Longrightarrow> subtype c l r"
| same_literal: "ref_kind l = ref_kind r \<Longrightarrow>
    ref_kind l \<in> range BoolLit \<union> range IntLit \<union> range StrLit \<Longrightarrow> subtype c l r"
| same_float: "ref_kind l = FloatLit v \<Longrightarrow> ref_kind r = FloatLit w \<Longrightarrow> f64_eq v w \<Longrightarrow> subtype c l r"
| int_float: "ref_kind l \<in> {IntK} \<union> range IntLit \<Longrightarrow> ref_kind r \<in> {FloatK} \<union> range FloatLit \<Longrightarrow>
    subtype c l r"
| int_literal: "ref_kind l = IntLit n \<Longrightarrow> ref_kind r = IntK \<Longrightarrow> subtype c l r"
| float_literal: "ref_kind l = FloatLit v \<Longrightarrow> ref_kind r = FloatK \<Longrightarrow> subtype c l r"
| bool_literal: "ref_kind l = BoolLit b \<Longrightarrow> ref_kind r \<in> {BoolK, FloatK} \<Longrightarrow> subtype c l r"
| str_literal: "ref_kind l = StrLit s \<Longrightarrow> ref_kind r = StrK \<Longrightarrow> subtype c l r"
| str_literal_text: "ref_kind l = StrLit s \<Longrightarrow>
    (ref_kind r, name) \<in> {(IntK, ''int''), (FloatK, ''float''), (BoolK, ''bool'')} \<Longrightarrow>
    is_substring name (''str('' @ s @ '')'') \<Longrightarrow> subtype c l r"
| str_to_literal: "ref_kind l = StrK \<Longrightarrow> ref_kind r = StrLit s \<Longrightarrow> subtype c l r"
| list_item: "ref_kind l = ListK i \<Longrightarrow> ref_kind r = ListK j \<Longrightarrow> subtype c i j \<Longrightarrow> subtype c l r"
| dict_entry: "ref_kind l = DictK d \<Longrightarrow> ref_kind r = DictK e \<Longrightarrow>
    subtype c (dt_key_ty d) (dt_key_ty e) \<Longrightarrow> subtype c (dt_val_ty d) (dt_val_ty e) \<Longrightarrow> subtype c l r"
| schema: "ref_kind l = SchemaK s \<Longrightarrow> ref_kind r = SchemaK t \<Longrightarrow> is_sub_schema_of s t \<Longrightarrow> subtype c l r"
| multiplier: "ref_kind l = NumberMultiplierK n \<Longrightarrow> ref_kind r = NumberMultiplierK m \<Longrightarrow>
    number_multiplier_subsume n m \<Longrightarrow> subtype c l r"
| func: "ref_kind l = FunctionK f \<Longrightarrow> ref_kind r = FunctionK g \<Longrightarrow>
    list_all2 (\<lambda>p q. subtype c (p_ty q) (p_ty p)) (ft_params f) (ft_params g) \<Longrightarrow>
    subtype c (ft_return_ty f) (ft_return_ty g) \<Longrightarrow> subtype c l r"
monos list_all2_mono

lemma subtype_subsume: "subtype c l r \<Longrightarrow> subsume l r c"
proof (induction rule: subtype.induct)
  case (union_left l ts r c)
  then show ?case by (simp add: subsume_union_left)
next
  case (union_right r us u l c)
  then show ?case by (simp add: subsume_unionI)
next
  case (func l f r g c)
  then have "flat l r" by (simp add: flat_def)
  moreover have "list_all2 (\<lambda>p q. subsume (p_ty q) (p_ty p) c) (ft_params f) (ft_params g)"
    using func.IH(1) by (rule list_all2_mono) simp
  ultimately show ?case using func by (simp add: kind_subsume_eq)
qed (auto simp: flat_def kind_subsume_eq)

definition structural :: "ty_ref type_kind \<Rightarrow> bool" where
  "structural k \<longleftrightarrow> (case k of ListK _ \<Rightarrow> True | DictK _ \<Rightarrow> True | FunctionK _ \<Rightarrow> True | _ \<Rightarrow> False)"

lemma kind_subsume_leaf:
  assumes prem: "kind_subsume (ref_kind l) (ref_kind r) c" and "\<not> structural (ref_kind l)"
  shows "subtype c l r"
proof (cases "ref_kind l")
  case (StrLit v)
  with prem show ?thesis
    by (cases "ref_kind r") (simp_all add: subtype.same_literal subtype.str_literal [OF StrLit]
        subtype.str_literal_text [OF StrLit, of _ "''int''"] subtype.str_literal_text [OF StrLit, of _ "''bool''"]
        subtype.str_literal_text [OF StrLit, of _ "''float''"])
next
  case (SchemaK v)
  with prem show ?thesis by (cases "ref_kind r") (simp_all add: subtype.schema [OF SchemaK])
next
  case (NumberMultiplierK v)
  with prem show ?thesis by (cases "ref_kind r") (simp_all add: subtype.multiplier [OF NumberMultiplierK])
next
  case (ModuleK v)
  with prem show ?thesis by (cases "ref_kind r") (simp_all add: subtype.same_module [OF ModuleK])
next
  case (NamedK v)
  with prem show ?thesis by (cases "ref_kind r") (simp_all add: subtype.same_name [OF NamedK])
next
  case (FloatLit v)
  with prem show ?thesis
    by (cases "ref_kind r") (simp_all add: subtype.same_float [OF FloatLit] subtype.float_literal [OF FloatLit])
next
  case (IntLit v)
  with prem show ?thesis
    by (cases "ref_kind r") (simp_all add: subtype.same_literal subtype.int_literal [OF IntLit] subtype.int_float)
next
  case (BoolLit v)
  with prem show ?thesis
    by (cases "ref_kind r") (simp_all add: subtype.same_literal subtype.bool_literal [OF BoolLit])
next
  case StrK
  with prem show ?thesis
    by (cases "ref_kind r") (simp_all add: subtype.same subtype.str_to_literal [OF StrK])
qed (use assms in \<open>cases "ref_kind r"; simp add: structural_def subtype.same subtype.int_float\<close>)+

lemma subsume_subtype: "subsume l r c \<Longrightarrow> subtype c l r"
proof (induction "size l + size r" arbitrary: l r c rule: less_induct)
  case (less l r c)
  have IH: "subtype c l' r'" if "size l' + size r' < size l + size r" "subsume l' r' c" for l' r' c
    using less.hyps that by blast
  show ?case
  proof (cases rule: flat_cases [where l = l and r = r])
    case any then show ?thesis by (rule subtype.any_right)
  next
    case none then show ?thesis by (rule subtype.none_left)
  next
    case (union_left ts)
    with less.prems have "\<forall>t \<in> set ts. subtype False t r"
      by (auto simp: subsume_union_left size_ref_kind(4) intro!: IH)
    with union_left show ?thesis by (rule subtype.union_left)
  next
    case any_left
    show ?thesis
    proof (cases c)
      case True with any_left show ?thesis by (simp add: subtype.any_left)
    next
      case False
      with any_left less.prems obtain us where us: "ref_kind r = UnionK us"
        using subsume_any_other [of l r] by auto
      then obtain u where u: "u \<in> set us" "subsume l u False"
        using subsume_union_right [THEN iffD1, OF us _ _ _ less.prems] any_left False by auto
      show ?thesis
        using u by (intro subtype.union_right [OF us u(1)] IH) (simp add: size_ref_kind(4) [OF us])
    qed
  next
    case (union_right us)
    then obtain u where u: "u \<in> set us" "subsume l u False"
      using less.prems by (auto simp: subsume_union_right)
    show ?thesis
      using u by (intro subtype.union_right [OF union_right(1) u(1)] IH)
        (simp add: size_ref_kind(4) [OF union_right(1)])
  next
    case flat
    then have prem: "kind_subsume (ref_kind l) (ref_kind r) c" using less.prems by (simp add: kind_subsume_eq)
    show ?thesis
    proof (cases "ref_kind l")
      case (FunctionK f)
      then obtain g where g: "ref_kind r = FunctionK g" "subsume (ft_return_ty f) (ft_return_ty g) c"
        "list_all2 (\<lambda>p q. subsume (p_ty q) (p_ty p) c) (ft_params f) (ft_params g)"
        using prem by (auto split: type_kind.splits)
      have sub: "subtype c (p_ty q) (p_ty p)"
        if "p \<in> set (ft_params f)" "q \<in> set (ft_params g)" "subsume (p_ty q) (p_ty p) c" for p q
        using size_ref_kind(6) [OF FunctionK that(1)] size_ref_kind(6) [OF g(1) that(2)] that(3)
        by (intro IH) simp_all
      have "list_all2 (\<lambda>p q. subtype c (p_ty q) (p_ty p)) (ft_params f) (ft_params g)"
        by (rule list.rel_mono_strong [OF g(3)]) (rule sub)
      moreover have "subtype c (ft_return_ty f) (ft_return_ty g)"
        by (intro IH add_less_mono size_ref_kind(5) [OF FunctionK] size_ref_kind(5) [OF g(1)] g(2))
      ultimately show ?thesis by (rule subtype.func [OF FunctionK g(1)])
    next
      case (DictK d)
      with prem obtain e where e: "ref_kind r = DictK e" "subsume (dt_key_ty d) (dt_key_ty e) c"
        "subsume (dt_val_ty d) (dt_val_ty e) c" by (auto split: type_kind.splits)
      with DictK show ?thesis
        by (intro subtype.dict_entry [OF DictK e(1)]; simp add: IH size_ref_kind add_less_mono)
    next
      case (ListK i)
      with prem obtain j where j: "ref_kind r = ListK j" "subsume i j c"
        by (auto split: type_kind.splits)
      with ListK show ?thesis
        by (intro subtype.list_item [OF ListK j(1)]) (simp add: IH size_ref_kind add_less_mono)
    qed (use prem in \<open>simp_all add: kind_subsume_leaf structural_def\<close>)
  qed
qed

text \<open>C16. The assignability test decides the declarative subtype relation: for every pair
  of types and both settings of the flag, the cascade of tests in subsume answers true
  exactly when the rules derive the pair, so that the order of the tests does not
  matter.\<close>
theorem subsume_decides_subtype: "subsume l r c \<longleftrightarrow> subtype c l r"
  using subsume_subtype subtype_subsume by blast

section \<open>Transitivity\<close>

text \<open>A base relation on schema names: every schema of a program has the base its name
  says.\<close>

function schema_fits :: "(string \<Rightarrow> string option) \<Rightarrow> 'r schema_type \<Rightarrow> bool" where
  "schema_fits bases s \<longleftrightarrow> bases (schema_full_ty_str s) = map_option schema_full_ty_str (st_base s) \<and>
     (case st_base s of Some b \<Rightarrow> schema_fits bases b | None \<Rightarrow> True)"
  by pat_completeness auto
termination
  by (relation "measure (\<lambda>(bases, s). size s)") (auto simp: size_schema_base)

declare schema_fits.simps [simp del]

abbreviation base_of :: "(string \<Rightarrow> string option) \<Rightarrow> string \<Rightarrow> string \<Rightarrow> bool" where
  "base_of bases n m \<equiv> bases n = Some m"

lemma is_sub_schema_of_iff:
  "schema_fits bases s \<Longrightarrow>
   is_sub_schema_of s t \<longleftrightarrow> (base_of bases)\<^sup>*\<^sup>* (schema_full_ty_str s) (schema_full_ty_str t)"
proof (induction s t rule: is_sub_schema_of.induct)
  case (1 s t)
  show ?case
  proof (cases "st_base s")
    case None
    with "1.prems" have "bases (schema_full_ty_str s) = None" by (simp add: schema_fits.simps [of _ s])
    with None show ?thesis
      by (subst is_sub_schema_of.simps) (auto elim: converse_rtranclpE)
  next
    case (Some b)
    with "1.prems" have b: "bases (schema_full_ty_str s) = Some (schema_full_ty_str b)" "schema_fits bases b"
      by (simp_all add: schema_fits.simps [of _ s])
    have "(base_of bases)\<^sup>*\<^sup>* (schema_full_ty_str s) (schema_full_ty_str t) \<longleftrightarrow>
        schema_full_ty_str s = schema_full_ty_str t \<or>
        (base_of bases)\<^sup>*\<^sup>* (schema_full_ty_str b) (schema_full_ty_str t)"
      using b(1) by (auto elim: converse_rtranclpE intro: converse_rtranclp_into_rtranclp)
    with Some b "1.IH" show ?thesis by (subst is_sub_schema_of.simps) auto
  qed
qed

text \<open>Types without string literals and NaN literals whose schemas fit one base relation.\<close>

fun regular :: "(string \<Rightarrow> string option) \<Rightarrow> ty_ref \<Rightarrow> bool" where
  "regular bases (Arc a (Type k b)) \<longleftrightarrow> (case k of
       StrLit _ \<Rightarrow> False
     | FloatLit v \<Rightarrow> f64_eq v v
     | ListK i \<Rightarrow> regular bases i
     | DictK d \<Rightarrow> regular bases (dt_key_ty d) \<and> regular bases (dt_val_ty d)
     | UnionK ts \<Rightarrow> list_all (regular bases) ts
     | SchemaK s \<Rightarrow> schema_fits bases s
     | FunctionK f \<Rightarrow> list_all (\<lambda>p. regular bases (p_ty p)) (ft_params f) \<and>
         regular bases (ft_return_ty f)
     | _ \<Rightarrow> True)"

lemma regular_kind:
  "regular bases t \<Longrightarrow> ref_kind t \<noteq> StrLit v"
  "regular bases t \<Longrightarrow> ref_kind t = ListK i \<Longrightarrow> regular bases i"
  "regular bases t \<Longrightarrow> ref_kind t = DictK d \<Longrightarrow> regular bases (dt_key_ty d)"
  "regular bases t \<Longrightarrow> ref_kind t = DictK d \<Longrightarrow> regular bases (dt_val_ty d)"
  "regular bases t \<Longrightarrow> ref_kind t = UnionK ts \<Longrightarrow> u \<in> set ts \<Longrightarrow> regular bases u"
  "regular bases t \<Longrightarrow> ref_kind t = SchemaK s \<Longrightarrow> schema_fits bases s"
  "regular bases t \<Longrightarrow> ref_kind t = FunctionK f \<Longrightarrow> p \<in> set (ft_params f) \<Longrightarrow> regular bases (p_ty p)"
  "regular bases t \<Longrightarrow> ref_kind t = FunctionK f \<Longrightarrow> regular bases (ft_return_ty f)"
  "regular bases t \<Longrightarrow> ref_kind t = FloatLit w \<Longrightarrow> f64_eq w w"
  by (cases t; cases "deref t"; auto simp: list_all_iff)+

lemma subsume_refl_regular: "regular bases t \<Longrightarrow> subsume t t c"
proof (induction "size t" arbitrary: t c rule: less_induct)
  case (less t c)
  show ?case
  proof (cases "ref_kind t")
    case (UnionK ts)
    with less show ?thesis
      by (auto simp: subsume_union_left intro!: subsume_unionI [OF UnionK] dest: size_ref_kind(4) regular_kind(5))
  next
    case (FunctionK f)
    then have "flat t t" by (simp add: flat_def)
    with FunctionK less show ?thesis
      by (auto simp: kind_subsume_eq list_all2_same size_ref_kind dest: regular_kind(7,8))
  qed (use less in \<open>auto simp: kind_subsume_eq flat_def size_ref_kind is_sub_schema_of_same
      number_multiplier_subsume_def dest: regular_kind\<close>)
qed

lemma number_multiplier_subsume_trans:
  "number_multiplier_subsume l m \<Longrightarrow> number_multiplier_subsume m r \<Longrightarrow> number_multiplier_subsume l r"
  by (auto simp: number_multiplier_subsume_def split: if_splits)

lemma kind_subsume_none: "\<not> kind_subsume k NoneK c"
  by (cases k) simp_all

lemma flat_trans:
  assumes flat: "flat l m" "flat m r" "flat l r"
    and reg: "regular bases l" "regular bases m" "regular bases r"
    and sub: "subsume l m False" "subsume m r False"
    and IH: "\<And>l' m' r'. \<lbrakk>size l' + size m' + size r' < size l + size m + size r;
        regular bases l'; regular bases m'; regular bases r';
        subsume l' m' False; subsume m' r' False\<rbrakk> \<Longrightarrow> subsume l' r' False"
  shows "subsume l r False"
proof -
  note kinds = sub [unfolded kind_subsume_eq [OF flat(1)] kind_subsume_eq [OF flat(2)]]
  have "kind_subsume (ref_kind l) (ref_kind r) False"
  proof (cases "ref_kind l")
    case (ListK i)
    with kinds obtain j k where jk: "ref_kind m = ListK j" "ref_kind r = ListK k"
      "subsume i j False" "subsume j k False"
      by (auto split: type_kind.splits)
    then have "subsume i k False"
      using size_ref_kind(1) [OF ListK] size_ref_kind(1) [OF jk(1)] size_ref_kind(1) [OF jk(2)] reg
      by (intro IH [of i j k]) (auto simp: regular_kind(2) [OF _ ListK] regular_kind(2) [OF _ jk(1)]
          regular_kind(2) [OF _ jk(2)])
    with ListK jk show ?thesis by simp
  next
    case (DictK d)
    with kinds obtain e g where eg: "ref_kind m = DictK e" "ref_kind r = DictK g"
      "subsume (dt_key_ty d) (dt_key_ty e) False" "subsume (dt_key_ty e) (dt_key_ty g) False"
      "subsume (dt_val_ty d) (dt_val_ty e) False" "subsume (dt_val_ty e) (dt_val_ty g) False"
      by (auto split: type_kind.splits)
    have "subsume (dt_key_ty d) (dt_key_ty g) False"
      using size_ref_kind(2) [OF DictK] size_ref_kind(2) [OF eg(1)] size_ref_kind(2) [OF eg(2)] reg eg(3,4)
      by (intro IH [of "dt_key_ty d" "dt_key_ty e" "dt_key_ty g"])
        (auto simp: regular_kind(3) [OF _ DictK] regular_kind(3) [OF _ eg(1)] regular_kind(3) [OF _ eg(2)])
    moreover have "subsume (dt_val_ty d) (dt_val_ty g) False"
      using size_ref_kind(3) [OF DictK] size_ref_kind(3) [OF eg(1)] size_ref_kind(3) [OF eg(2)] reg eg(5,6)
      by (intro IH [of "dt_val_ty d" "dt_val_ty e" "dt_val_ty g"])
        (auto simp: regular_kind(4) [OF _ DictK] regular_kind(4) [OF _ eg(1)] regular_kind(4) [OF _ eg(2)])
    ultimately show ?thesis using DictK eg by simp
  next
    case (SchemaK s)
    with kinds obtain t u where tu: "ref_kind m = SchemaK t" "ref_kind r = SchemaK u"
      "is_sub_schema_of s t" "is_sub_schema_of t u"
      by (auto split: type_kind.splits)
    then have "is_sub_schema_of s u"
      using regular_kind(6) [OF reg(1) SchemaK] regular_kind(6) [OF reg(2) tu(1)]
      by (auto simp: is_sub_schema_of_iff)
    with SchemaK tu show ?thesis by simp
  next
    case (FunctionK f)
    with kinds obtain g h where gh: "ref_kind m = FunctionK g" "ref_kind r = FunctionK h"
      "subsume (ft_return_ty f) (ft_return_ty g) False" "subsume (ft_return_ty g) (ft_return_ty h) False"
      "list_all2 (\<lambda>p q. subsume (p_ty q) (p_ty p) False) (ft_params f) (ft_params g)"
      "list_all2 (\<lambda>p q. subsume (p_ty q) (p_ty p) False) (ft_params g) (ft_params h)"
      by (auto split: type_kind.splits)
    have "subsume (ft_return_ty f) (ft_return_ty h) False"
      using size_ref_kind(5) [OF FunctionK] size_ref_kind(5) [OF gh(1)] size_ref_kind(5) [OF gh(2)] reg gh(3,4)
      by (intro IH [of "ft_return_ty f" "ft_return_ty g" "ft_return_ty h"])
        (auto simp: regular_kind(8) [OF _ FunctionK] regular_kind(8) [OF _ gh(1)] regular_kind(8) [OF _ gh(2)])
    moreover have "subsume (p_ty (ft_params h ! i)) (p_ty (ft_params f ! i)) False"
      if "i < length (ft_params f)" for i
    proof -
      let ?p = "ft_params f ! i" and ?q = "ft_params g ! i" and ?o = "ft_params h ! i"
      have mem: "?p \<in> set (ft_params f)" "?q \<in> set (ft_params g)" "?o \<in> set (ft_params h)"
        and subs: "subsume (p_ty ?o) (p_ty ?q) False" "subsume (p_ty ?q) (p_ty ?p) False"
        using gh(5,6) that by (auto simp: list_all2_conv_all_nth)
      show ?thesis
        using size_ref_kind(6) [OF FunctionK mem(1)] size_ref_kind(6) [OF gh(1) mem(2)]
          size_ref_kind(6) [OF gh(2) mem(3)] reg subs
          regular_kind(7) [OF _ FunctionK mem(1)] regular_kind(7) [OF _ gh(1) mem(2)]
          regular_kind(7) [OF _ gh(2) mem(3)]
        by (intro IH [of "p_ty ?o" "p_ty ?q" "p_ty ?p"]) auto
    qed
    ultimately show ?thesis using FunctionK gh(1,2,5,6) by (simp add: list_all2_conv_all_nth)
  qed (use kinds regular_kind(1) [OF reg(1)] regular_kind(1) [OF reg(2)] in
      \<open>auto split: type_kind.splits intro: f64_eq_trans number_multiplier_subsume_trans\<close>)
  then show ?thesis by (simp add: kind_subsume_eq [OF flat(3)])
qed

lemma subsume_trans_regular:
  "\<lbrakk>regular bases l; regular bases m; regular bases r; subsume l m False; subsume m r False\<rbrakk> \<Longrightarrow>
   subsume l r False"
proof (induction "size l + size m + size r" arbitrary: l m r rule: less_induct)
  case less
  consider (left) ts where "ref_kind l = UnionK ts" | (none) "ref_kind l = NoneK"
    | (any_right) "ref_kind r = AnyK" | (any) "ref_kind m = AnyK"
    | (middle) us where "ref_kind m = UnionK us" "\<nexists>ts. ref_kind l = UnionK ts" "ref_kind l \<noteq> NoneK"
    | (right) us where "ref_kind r = UnionK us" "\<nexists>ts. ref_kind m = UnionK ts" "ref_kind m \<noteq> NoneK"
    | (flat) "\<nexists>ts. ref_kind l = UnionK ts" "\<nexists>ts. ref_kind m = UnionK ts" "\<nexists>ts. ref_kind r = UnionK ts"
        "ref_kind l \<noteq> NoneK" "ref_kind m \<noteq> AnyK" "ref_kind r \<noteq> AnyK"
    | (none_middle) "ref_kind m = NoneK" "\<nexists>ts. ref_kind l = UnionK ts" "ref_kind l \<noteq> NoneK"
    by blast
  then show ?case
  proof cases
    case (left ts)
    have "subsume t r False" if "t \<in> set ts" for t
      using less.prems that size_ref_kind(4) [OF left that] regular_kind(5) [OF _ left that]
      by (intro less.hyps [of t m r]) (auto simp: subsume_union_left [OF left])
    then show ?thesis by (simp add: subsume_union_left [OF left])
  next
    case any
    then show ?thesis using less.prems(5) by (rule subsume_above_any)
  next
    case (middle us)
    then obtain u where u: "u \<in> set us" "subsume l u False"
      using subsume_union_right [THEN iffD1, OF middle(1-3) _ less.prems(4)] by auto
    show ?thesis
      using less.prems u size_ref_kind(4) [OF middle(1) u(1)] regular_kind(5) [OF _ middle(1) u(1)]
      by (intro less.hyps [of l u r]) (auto simp: subsume_union_left [OF middle(1)])
  next
    case (right us)
    then obtain u where u: "u \<in> set us" "subsume m u False"
      using subsume_union_right [THEN iffD1, OF right _ less.prems(5)] by auto
    have "subsume l u False"
      using less.prems u size_ref_kind(4) [OF right(1) u(1)] regular_kind(5) [OF _ right(1) u(1)]
      by (intro less.hyps [of l m u]) auto
    then show ?thesis by (rule subsume_unionI [OF right(1) u(1)])
  next
    case flat
    have l: "ref_kind l \<noteq> AnyK"
      using subsume_any_other [of l m] flat less.prems(4) by auto
    then have lm: "flat l m" "flat l r" using flat by (auto simp: flat_def)
    have "ref_kind m \<noteq> NoneK"
      using less.prems(4) kind_subsume_none by (auto simp: kind_subsume_eq [OF lm(1)])
    then have "flat m r" using flat by (auto simp: flat_def)
    with lm less.prems show ?thesis
      by (intro flat_trans [of l m r bases]) (auto intro: less.hyps)
  next
    case none_middle
    have "ref_kind l \<noteq> AnyK" using subsume_any_other [of l m] none_middle less.prems(4) by auto
    then have "flat l m" using none_middle by (auto simp: flat_def)
    then show ?thesis
      using less.prems(4) none_middle(1) kind_subsume_none by (auto simp: kind_subsume_eq)
  qed simp_all
qed

end
