(* ===== verification/Sema_Sup.thy ===== *)
theory Sema_Sup
  imports Sema_Unify_Laws "HOL-Library.Multiset"
begin

text \<open>
  The supremum of types, \<open>typeof\<close> and \<open>sup\<close> of \<open>sema/src/ty/unify.rs\<close>: the members of
  the result are an antichain of members of the arguments, and every argument is below
  the result, for every order in which the hash set of removed members is iterated.
\<close>

section \<open>Members\<close>

text \<open>The members of nested unions.\<close>

function leaves :: "ty_ref \<Rightarrow> ty_ref list" where
  "leaves t = (case union_types t of Some ts \<Rightarrow> concat (map leaves ts) | None \<Rightarrow> [t])"
  by pat_completeness auto
termination
  by (relation "measure size") (auto simp: size_downcast)

declare leaves.simps [simp del]

lemma leaves_union: "ref_kind t = UnionK ts \<Longrightarrow> leaves t = concat (map leaves ts)"
  by (simp add: leaves.simps [of t] union_types_def)

lemma leaves_other: "\<nexists>ts. ref_kind t = UnionK ts \<Longrightarrow> leaves t = [t]"
  by (auto simp: leaves.simps [of t] union_types_def split: type_kind.splits)

lemma leaves_not_union: "u \<in> set (leaves t) \<Longrightarrow> \<nexists>ts. ref_kind u = UnionK ts"
proof (induction t rule: leaves.induct)
  case (1 t)
  then show ?case
    by (cases "union_types t") (auto simp: leaves.simps [of t] downcast_Some_iff union_types_def)
qed

lemma subsume_leaves: "(\<And>u. u \<in> set (leaves t) \<Longrightarrow> subsume u r False) \<Longrightarrow> subsume t r False"
proof (induction t rule: leaves.induct)
  case (1 t)
  show ?case
  proof (cases "union_types t")
    case None
    with 1 show ?thesis by (simp add: leaves.simps [of t])
  next
    case (Some ts)
    with 1 show ?thesis
      by (auto simp: leaves.simps [of t] subsume_union_left downcast_Some_iff)
  qed
qed

lemma regular_leaves: "regular bases t \<Longrightarrow> u \<in> set (leaves t) \<Longrightarrow> regular bases u"
proof (induction t rule: leaves.induct)
  case (1 t)
  then show ?case
    by (cases "union_types t") (auto simp: leaves.simps [of t] downcast_Some_iff dest: regular_kind(5))
qed

definition add_leaf :: "type_set \<Rightarrow> ty_ref \<Rightarrow> type_set" where
  "add_leaf S t = (if \<not> is_void t \<and> \<not> im_contains S (addr t) then im_insert S (addr t) t else S)"

lemma add_types_leaves:
  "add_types_to_type_set S types = foldl add_leaf S (concat (map leaves types))"
  "add_type_to_type_set S t = foldl add_leaf S (leaves t)"
proof (induction S types and S t rule: add_types_to_type_set_add_type_to_type_set.induct)
  case (3 S t)
  then show ?case by (auto simp: leaves.simps [of t] add_leaf_def split: option.splits)
qed simp_all

text \<open>A well-formed set of types: every key is the address of its type, and no member is
  void or a union.\<close>

definition type_set_wf :: "type_set \<Rightarrow> bool" where
  "type_set_wf S \<longleftrightarrow> im_wf S \<and> (\<forall>(a, t) \<in> set S. a = addr t \<and> \<not> is_void t)"

lemma set_im_insert_new: "\<not> im_contains S k \<Longrightarrow> set (im_insert S k v) = insert (k, v) (set S)"
  by (auto simp: im_contains_iff im_insert_new)

lemma add_leaf_wf: "type_set_wf S \<Longrightarrow> type_set_wf (add_leaf S t)"
  by (auto simp: type_set_wf_def add_leaf_def set_im_insert_new)

lemma add_leaves_wf: "type_set_wf S \<Longrightarrow> type_set_wf (foldl add_leaf S ts)"
  by (induction ts arbitrary: S) (simp_all add: add_leaf_wf)

lemma add_leaves_mem:
  "set (foldl add_leaf S ts) \<subseteq> set S \<union> {(addr t, t) | t. t \<in> set ts}"
  by (induction ts arbitrary: S) (force simp: add_leaf_def set_im_insert_new split: if_splits)+

lemma add_leaves_keys:
  "set (im_keys (foldl add_leaf S ts)) = set (im_keys S) \<union> addr ` {t \<in> set ts. \<not> is_void t}"
  by (induction ts arbitrary: S) (auto simp: add_leaf_def im_keys_insert im_contains_iff)

subsection \<open>Marking\<close>

lemma mark_targets_mono: "set removed \<subseteq> set (mark_targets a s S removed)"
proof (induction a s S removed rule: mark_targets.induct)
  case (2 a s c u S removed)
  show ?case
  proof (cases "c \<in> set removed \<or> a = c \<or> \<not> equal_ty s u \<and> \<not> subsume s u False \<and> \<not> subsume u s False")
    case True
    then show ?thesis using 2 by auto
  next
    case False
    have "set removed \<subseteq> set (List.insert c removed)" "set removed \<subseteq> set (List.insert a removed)"
      by auto
    with False 2 show ?thesis by (simp del: set_insert)
  qed
qed simp

lemma mark_targets_bound:
  "set (mark_targets a s S removed) \<subseteq> insert a (set removed \<union> set (im_keys S))"
proof (induction a s S removed rule: mark_targets.induct)
  case (2 a s c u S removed)
  have *: "R \<subseteq> insert a (insert c (set removed \<union> set (im_keys S)))"
    if "R \<subseteq> insert a (set (List.insert c removed) \<union> set (im_keys S))" for R
    using that by auto
  have "R \<subseteq> insert a (insert c (set removed \<union> set (im_keys S)))"
    if "R \<subseteq> insert a (set removed \<union> set (im_keys S))" for R
    using that by blast
  with * show ?case using 2 by (auto simp del: mark_targets.simps simp: mark_targets.simps(2))
qed auto

lemmas mark_targets_set = mark_targets_mono mark_targets_bound

lemma mark_sources_set:
  "set removed \<subseteq> set (mark_sources S removed)"
  "set (mark_sources S removed) \<subseteq> set removed \<union> set (im_keys S)"
proof (induction S removed rule: mark_sources.induct)
  case (2 a s S removed)
  {
    case 1
    show ?case using "2.IH"(1,3) mark_targets_set(1) [of removed a s S] by auto
  next
    case 2
    show ?case using "2.IH"(2,4) mark_targets_bound [of a s S removed] by auto
  }
qed simp_all

definition unrelated :: "ty_ref \<Rightarrow> ty_ref \<Rightarrow> bool" where
  "unrelated s t \<longleftrightarrow> \<not> equal_ty s t \<and> \<not> subsume s t False \<and> \<not> subsume t s False"

lemma mark_targets_unrelated:
  "a \<notin> set (mark_targets a s S removed) \<Longrightarrow> a \<notin> set (im_keys S) \<Longrightarrow> (b, t) \<in> set S \<Longrightarrow>
   b \<notin> set (mark_targets a s S removed) \<Longrightarrow> unrelated s t"
proof (induction a s S removed rule: mark_targets.induct)
  case (2 a s c u S removed)
  have "c \<in> set (mark_targets a s S (List.insert c removed))"
    using mark_targets_set(1) [of "List.insert c removed" a s S] by auto
  moreover have "c \<in> set removed \<Longrightarrow> c \<in> set (mark_targets a s S removed)"
    using mark_targets_set(1) by blast
  ultimately show ?case
    using 2 by (auto simp: unrelated_def split: if_splits)
qed simp

lemma mark_sources_unrelated:
  "im_wf S \<Longrightarrow> R = set (mark_sources S removed) \<Longrightarrow>
   sorted_wrt (\<lambda>(a, s) (b, t). a \<notin> R \<longrightarrow> b \<notin> R \<longrightarrow> unrelated s t) S"
proof (induction S removed rule: mark_sources.induct)
  case (2 a s S removed)
  have wf: "im_wf S" "a \<notin> set (im_keys S)"
    using "2.prems"(1) by (auto simp: im_wf_def)
  show ?case
  proof (cases "a \<in> set removed")
    case True
    with mark_sources_set(1) have "a \<in> R" using "2.prems"(2) by auto
    with True 2 wf show ?thesis by (auto intro: sorted_wrt_mono_rel)
  next
    case False
    let ?m = "mark_targets a s S removed"
    have sub: "set ?m \<subseteq> R" using False "2.prems"(2) mark_sources_set(1) [of ?m S] by simp
    have "unrelated s t" if "a \<notin> R" "(b, t) \<in> set S" "b \<notin> R" for b t
      using mark_targets_unrelated [of a s S removed b t] that wf(2) sub by blast
    with False 2 wf show ?thesis by auto
  qed
qed simp

subsection \<open>Coverage\<close>

text \<open>Every marked member leads, by steps of the relation, to a member that is not marked.\<close>

definition below :: "type_set \<Rightarrow> ty_ref \<Rightarrow> ty_ref \<Rightarrow> bool" where
  "below M s t \<longleftrightarrow> subsume s t False \<and> t \<in> snd ` set M"

definition covered :: "type_set \<Rightarrow> nat set \<Rightarrow> bool" where
  "covered M R \<longleftrightarrow> (\<forall>(a, s) \<in> set M. a \<in> R \<longrightarrow> (\<exists>(b, t) \<in> set M. b \<notin> R \<and> (below M)\<^sup>*\<^sup>* s t))"

lemma covered_insert:
  assumes "im_wf M" "covered M R" "(a, s) \<in> set M" "(b, t) \<in> set M" "b \<notin> R" "a \<noteq> b" "below M s t"
  shows "covered M (insert a R)"
  unfolding covered_def
proof (intro ballI, clarify)
  fix c u assume c: "(c, u) \<in> set M" "c \<in> insert a R"
  consider "c = a" | d v where "c \<noteq> a" "(d, v) \<in> set M" "d \<notin> R" "(below M)\<^sup>*\<^sup>* u v"
    using assms(2) c unfolding covered_def by fastforce
  then show "\<exists>(b, t) \<in> set M. b \<notin> insert a R \<and> (below M)\<^sup>*\<^sup>* u t"
  proof cases
    case 1
    then have "u = s" using assms(1,3) c(1) by (auto simp: im_get_eq_iff [symmetric])
    then show ?thesis using assms(4-7) by (intro bexI [of _ "(b, t)"]) auto
  next
    case 2
    show ?thesis
    proof (cases "d = a")
      case True
      then have "v = s" using assms(1,3) 2(2) by (auto simp: im_get_eq_iff [symmetric])
      then have "(below M)\<^sup>*\<^sup>* u t" using 2(4) assms(7) by simp
      then show ?thesis using assms(4-6) by (intro bexI [of _ "(b, t)"]) auto
    next
      case False
      with 2 show ?thesis by (intro bexI [of _ "(d, v)"]) auto
    qed
  qed
qed

lemma mark_targets_covered:
  "\<lbrakk>im_wf M; covered M (set removed); (a, s) \<in> set M; a \<notin> set removed; set S \<subseteq> set M\<rbrakk> \<Longrightarrow>
   covered M (set (mark_targets a s S removed))"
proof (induction a s S removed rule: mark_targets.induct)
  case (2 a s c u S removed)
  have c: "(c, u) \<in> set M" using "2.prems"(5) by simp
  have ins: "covered M (insert c (set removed))" if "a \<noteq> c" "below M u s"
    using "2.prems" that c by (intro covered_insert [of M _ c u a s]) auto
  have src: "covered M (insert a (set removed))" if "c \<notin> set removed" "a \<noteq> c" "below M s u"
    using "2.prems" that c by (intro covered_insert [of M _ a s c u]) auto
  consider (skip) "c \<in> set removed \<or> a = c"
    | (target) "c \<notin> set removed" "a \<noteq> c" "equal_ty s u \<or> \<not> subsume s u False \<and> subsume u s False"
    | (source) "c \<notin> set removed" "a \<noteq> c" "\<not> equal_ty s u" "subsume s u False"
    | (none) "c \<notin> set removed" "a \<noteq> c" "\<not> equal_ty s u" "\<not> subsume s u False" "\<not> subsume u s False"
    by blast
  then show ?case
  proof cases
    case skip
    then show ?thesis using 2 by auto
  next
    case target
    then have "below M u s" using "2.prems"(3) by (force simp: below_def equal_subsume(2))
    with target 2 ins show ?thesis by (auto simp: insert_absorb)
  next
    case source
    then show ?thesis using src c by (force simp: below_def)
  next
    case none
    then show ?thesis using 2 by auto
  qed
qed simp

lemma mark_sources_covered:
  "im_wf M \<Longrightarrow> covered M (set removed) \<Longrightarrow> set S \<subseteq> set M \<Longrightarrow> covered M (set (mark_sources S removed))"
  by (induction S removed rule: mark_sources.induct) (auto simp: mark_targets_covered)

subsection \<open>Removal\<close>

lemma swap_remove_all:
  "im_wf M \<Longrightarrow> im_wf (foldl im_swap_remove M rs) \<and>
     set (foldl im_swap_remove M rs) = {e \<in> set M. fst e \<notin> set rs}"
  by (induction rs arbitrary: M) (auto simp: set_im_swap_remove)

text \<open>The order in which a \<open>HashSet\<close> is iterated visits exactly its elements.\<close>

definition set_order :: "(nat list \<Rightarrow> nat list) \<Rightarrow> bool" where
  "set_order iter \<longleftrightarrow> (\<forall>xs. mset (iter xs) = mset xs)"

lemma set_order_set: "set_order iter \<Longrightarrow> set (iter xs) = set xs"
  by (metis set_order_def mset_eq_setD)

definition sup_members :: "(nat list \<Rightarrow> nat list) \<Rightarrow> ty_ref list \<Rightarrow> type_set" where
  "sup_members iter types =
     (let M = add_types_to_type_set [] types in foldl im_swap_remove M (iter (mark_sources M [])))"

lemma sup_ty_members:
  "sup_ty iter types fresh =
     (let M = sup_members iter types
      in if M = [] then Arc fresh (mk_type AnyK)
         else if length M = 1 then snd (hd M) else Arc fresh (mk_type (UnionK (im_values M))))"
  by (simp add: sup_ty_def type_of_def sup_members_def Let_def)

lemma type_set_wf_all: "type_set_wf (add_types_to_type_set [] types)"
proof -
  have "type_set_wf []" by (simp add: type_set_wf_def im_wf_def)
  then show ?thesis by (simp add: add_types_leaves add_leaves_wf)
qed

lemma sup_members_set:
  assumes "set_order iter"
  shows "im_wf (sup_members iter types)"
    and "set (sup_members iter types) = {e \<in> set (add_types_to_type_set [] types).
       fst e \<notin> set (mark_sources (add_types_to_type_set [] types) [])}"
  using swap_remove_all [of "add_types_to_type_set [] types"] type_set_wf_all [of types] assms
  by (auto simp: sup_members_def Let_def set_order_set type_set_wf_def)

lemma sup_members_leaf:
  assumes "set_order iter" "(a, t) \<in> set (sup_members iter types)"
  shows "t \<in> set (concat (map leaves types))" "\<not> is_void t" "a = addr t"
  using assms add_leaves_mem [of "[]" "concat (map leaves types)"] type_set_wf_all [of types]
  by (auto simp: sup_members_set add_types_leaves type_set_wf_def)

lemma sup_members_unrelated:
  assumes "set_order iter" "(a, s) \<in> set (sup_members iter types)"
    "(b, t) \<in> set (sup_members iter types)" "a \<noteq> b"
  shows "\<not> subsume s t False"
proof -
  let ?M = "add_types_to_type_set [] types"
  let ?R = "set (mark_sources ?M [])"
  have s: "(a, s) \<in> set ?M" "a \<notin> ?R" and t: "(b, t) \<in> set ?M" "b \<notin> ?R"
    using assms by (auto simp: sup_members_set)
  have "im_wf ?M" using type_set_wf_all by (simp add: type_set_wf_def)
  then have sorted: "sorted_wrt (\<lambda>(a, s) (b, t). a \<notin> ?R \<longrightarrow> b \<notin> ?R \<longrightarrow> unrelated s t) ?M"
    by (rule mark_sources_unrelated) simp
  obtain i j where ij: "i < length ?M" "?M ! i = (a, s)" "j < length ?M" "?M ! j = (b, t)"
    using s t by (auto simp: in_set_conv_nth)
  then have "i \<noteq> j" using assms(4) by auto
  then consider "i < j" | "j < i" by linarith
  then show ?thesis
    using ij s t sorted_wrt_nth_less [OF sorted] by cases (fastforce simp: unrelated_def)+
qed

lemma sup_members_cover:
  assumes "set_order iter" "(a, s) \<in> set (add_types_to_type_set [] types)"
  obtains b t where "(b, t) \<in> set (sup_members iter types)" "(below (add_types_to_type_set [] types))\<^sup>*\<^sup>* s t"
proof -
  let ?M = "add_types_to_type_set [] types"
  have "covered ?M (set (mark_sources ?M []))"
    using type_set_wf_all [of types] by (intro mark_sources_covered) (auto simp: covered_def type_set_wf_def)
  then have "\<exists>(b, t) \<in> set ?M. b \<notin> set (mark_sources ?M []) \<and> (below (add_types_to_type_set [] types))\<^sup>*\<^sup>* s t"
    using assms(2) by (cases "a \<in> set (mark_sources ?M [])") (auto simp: covered_def)
  then show thesis using that assms(1) by (auto simp: sup_members_set)
qed


subsection \<open>The supremum\<close>

lemma below_regular:
  assumes "(below M)\<^sup>*\<^sup>* s t" "regular bases s" "\<And>u. u \<in> snd ` set M \<Longrightarrow> regular bases u"
  shows "subsume s t False \<and> regular bases t"
  using assms(1)
proof (induction rule: rtranclp_induct)
  case base
  then show ?case using assms(2) by (simp add: subsume_refl_regular)
next
  case (step t u)
  then show ?case using assms(2,3) by (auto simp: below_def intro: subsume_trans_regular)
qed

lemma sup_member_below:
  assumes "set_order iter" "(b, t) \<in> set (sup_members iter types)" "subsume u t False"
  shows "subsume u (sup_ty iter types fresh) False"
proof -
  let ?M = "sup_members iter types"
  show ?thesis
  proof (cases "length ?M = 1")
    case True
    then have "?M = [(b, t)]" using assms(2) by (cases ?M) auto
    then show ?thesis using assms(3) by (simp add: sup_ty_members)
  next
    case False
    then have "ref_kind (sup_ty iter types fresh) = UnionK (im_values ?M)"
      using assms(2) by (auto simp: sup_ty_members Let_def mk_type_def)
    moreover have "t \<in> set (im_values ?M)" using assms(2) by (force simp: im_values_def)
    ultimately show ?thesis using assms(3) by (rule subsume_unionI)
  qed
qed

text \<open>C17. The supremum of types is an upper bound of each of them: on types without string
  literals, void members and NaN literals, whose schemas agree on their bases, every
  argument of sup is assignable to the result, for every iteration order of the hash set
  of removed members.\<close>
theorem sup_upper_bound:
  assumes "set_order iter" "inj_on addr (set (concat (map leaves types)))"
    and "list_all (regular bases) types"
    and "t \<in> set types" "list_all (\<lambda>u. \<not> is_void u) (leaves t)"
  shows "is_upper_bound (sup_ty iter types fresh) t"
proof -
  let ?M = "add_types_to_type_set [] types"
  have mem: "u \<in> set (concat (map leaves types))" if "(a, u) \<in> set ?M" for a u
    using that add_leaves_mem [of "[]" "concat (map leaves types)"] by (auto simp: add_types_leaves)
  then have reg: "regular bases u" if "u \<in> snd ` set ?M" for u
    using that assms(3) by (fastforce simp: list_all_iff dest!: mem intro: regular_leaves)
  have "subsume u (sup_ty iter types fresh) False" if "u \<in> set (leaves t)" for u
  proof -
    have u: "u \<in> set (concat (map leaves types))" "\<not> is_void u" using assms(4,5) that by (auto simp: list_all_iff)
    then have "addr u \<in> set (im_keys ?M)" by (auto simp: add_types_leaves add_leaves_keys)
    then obtain w where w: "(addr u, w) \<in> set ?M" by (auto simp: im_keys_def)
    then have "addr w = addr u" using type_set_wf_all [of types] by (auto simp: type_set_wf_def)
    then have "w = u" using assms(2) mem [OF w] u(1) by (auto dest: inj_onD)
    with w obtain b v where v: "(b, v) \<in> set (sup_members iter types)" "(below ?M)\<^sup>*\<^sup>* u v"
      using sup_members_cover [OF assms(1)] by metis
    have "regular bases u" using assms(3,4) that by (auto simp: list_all_iff dest: regular_leaves)
    then show ?thesis
      using below_regular [OF v(2) _ reg] sup_member_below [OF assms(1) v(1)] by blast
  qed
  then show ?thesis by (simp add: is_upper_bound_def subsume_leaves)
qed

lemma flat_mk [simp]: "flat (Arc a (Type k x)) (Arc b (Type l y)) \<longleftrightarrow> k \<noteq> AnyK \<and> k \<noteq> NoneK \<and> l \<noteq> AnyK \<and>
   (\<forall>ts. k \<noteq> UnionK ts) \<and> (\<forall>ts. l \<noteq> UnionK ts)"
  by (simp add: flat_def)

theorem sup_upper_bound_witness:
  "is_upper_bound
     (sup_ty id [Arc 0 (mk_type (ListK (Arc 1 (mk_type IntK)))), Arc 2 (mk_type (UnionK
        [Arc 3 (mk_type (ListK (Arc 4 (mk_type FloatK)))), Arc 5 (mk_type StrK)]))] 6)
     (Arc 0 (mk_type (ListK (Arc 1 (mk_type IntK)))))"
  using sup_upper_bound [of id "[Arc 0 (mk_type (ListK (Arc 1 (mk_type IntK)))), Arc 2 (mk_type (UnionK
        [Arc 3 (mk_type (ListK (Arc 4 (mk_type FloatK)))), Arc 5 (mk_type StrK)]))]" "\<lambda>_. None"
      "Arc 0 (mk_type (ListK (Arc 1 (mk_type IntK))))" 6]
  by (simp add: set_order_def mk_type_def leaves_union leaves_other)

text \<open>C18. The supremum is minimal: when it is a union, its members are members of the
  arguments, none of them void, and no two of them are related, for any types and any
  iteration order.\<close>
theorem sup_antichain:
  assumes "set_order iter" "ref_kind (sup_ty iter types fresh) = UnionK us"
    and "i < length us" "j < length us" "i \<noteq> j"
  shows "us ! i \<in> set (concat (map leaves types)) \<and> \<not> is_void (us ! i) \<and>
     \<not> subsume (us ! i) (us ! j) False"
proof -
  let ?M = "sup_members iter types"
  have us: "us = im_values ?M"
  proof (cases "length ?M = 1")
    case True
    then obtain a t where M: "?M = [(a, t)]" by (cases ?M) auto
    then have "sup_ty iter types fresh = t" by (simp add: sup_ty_members)
    moreover have "t \<in> set (concat (map leaves types))"
      using sup_members_leaf(1) [OF assms(1), of a t types] M by simp
    ultimately show ?thesis using assms(2) leaves_not_union by auto
  next
    case False
    with assms(2) show ?thesis by (auto simp: sup_ty_members Let_def mk_type_def split: if_splits)
  qed
  then obtain a s b t where st: "?M ! i = (a, s)" "us ! i = s" "?M ! j = (b, t)" "us ! j = t"
    "i < length ?M" "j < length ?M"
    using assms(3,4) by (cases "?M ! i"; cases "?M ! j") (auto simp: im_values_def)
  then have mem: "(a, s) \<in> set ?M" "(b, t) \<in> set ?M" by (metis nth_mem)+
  have "distinct (map fst ?M)"
    using sup_members_set(1) [OF assms(1), of types] by (simp add: im_wf_def im_keys_def)
  then have "a \<noteq> b" using st assms(5) by (metis distinct_map fst_conv nth_eq_iff_index_eq distinct_conv_nth length_map nth_map)
  with mem st show ?thesis
    using sup_members_leaf [OF assms(1)] sup_members_unrelated [OF assms(1)] by metis
qed

lemma is_substring_snoc: "p \<noteq> [] \<Longrightarrow> c \<notin> set p \<Longrightarrow> is_substring p (s @ [c]) \<longleftrightarrow> is_substring p s"
proof -
  assume p: "p \<noteq> []" "c \<notin> set p"
  have "\<exists>u v. s = u @ p @ v" if *: "s @ [c] = u @ p @ v" for u v
  proof (cases v rule: rev_cases)
    case Nil
    then have "last (s @ [c]) = last p" using * p(1) by simp
    then show ?thesis using p by (metis last_in_set last_snoc)
  next
    case (snoc w d)
    then have "s = u @ p @ w" using * by simp
    then show ?thesis by blast
  qed
  then show ?thesis by (metis append.assoc is_substring_iff)
qed

text \<open>C19. A string literal is accepted where an integer is expected exactly when the text
  of the string contains the word int: the comparison of a literal with a primitive type
  looks for the name of the type in the text of the literal type, which contains the
  value.\<close>
theorem str_literal_assignable_to_int:
  "assignable_to (Arc a (Type (StrLit s) x)) (Arc b (Type IntK y)) \<longleftrightarrow> is_substring ''int'' s"
  by (simp add: assignable_to_def is_assignable_type_def kind_subsume_eq is_substring_snoc)

lemma set_order_single: "set_order iter \<Longrightarrow> iter [a] = [a]"
  by (metis set_order_def mset_single_iff_right mset.simps)

text \<open>C20. The supremum of str and a string literal type depends on the order of the
  arguments: str first gives the literal type, to which other strings are not assignable,
  and the literal first gives str.\<close>
theorem sup_str_literal_order:
  assumes "set_order iter" "a \<noteq> b" "v \<noteq> w"
  shows "sup_ty iter [Arc a (Type StrK x), Arc b (Type (StrLit v) y)] fresh = Arc b (Type (StrLit v) y) \<and>
     sup_ty iter [Arc b (Type (StrLit v) y), Arc a (Type StrK x)] fresh = Arc a (Type StrK x) \<and>
     assignable_to (Arc d (Type (StrLit w) z)) (Arc a (Type StrK x)) \<and>
     \<not> assignable_to (Arc d (Type (StrLit w) z)) (Arc b (Type (StrLit v) y))"
  using assms
  by (simp add: sup_ty_def type_of_def add_types_leaves leaves_other add_leaf_def im_contains_def
      equal_ty_def type_kind_eq_def kind_subsume_eq set_order_single assignable_to_def
      is_assignable_type_def)

theorem sup_antichain_witness:
  "\<not> subsume (Arc 0 (mk_type IntK)) (Arc 1 (mk_type StrK)) False"
proof -
  let ?types = "[Arc 0 (mk_type IntK), Arc 1 (mk_type StrK), Arc 2 (mk_type (IntLit 7))]"
  have "ref_kind (sup_ty id ?types 3) = UnionK [Arc 0 (mk_type IntK), Arc 1 (mk_type StrK)]"
    by (simp add: sup_ty_def type_of_def add_types_leaves leaves_other add_leaf_def im_contains_def
      equal_ty_def type_kind_eq_def kind_subsume_eq mk_type_def im_values_def)
  then show ?thesis
    using sup_antichain [of id ?types 3 _ 0 1] by (simp add: set_order_def)
qed

theorem sup_str_literal_order_witness:
  "sup_ty id [Arc 0 (Type StrK False), Arc 1 (Type (StrLit ''b'') False)] 2 =
     Arc 1 (Type (StrLit ''b'') False)"
  using sup_str_literal_order [of id 0 1 "''b''" "''c''" False False 2 3 False]
  by (simp add: set_order_def)

end
