(* ===== verification/Sema_Check.thy ===== *)
theory Sema_Check
  imports Sema_Sup
begin

text \<open>
  The type checks of the resolver: assignments to an expected type and the conversion of
  dicts to schemas (\<open>sema/src/resolver/ty.rs\<close>), with the diagnostics of
  \<open>crates/error\<close>. The resolver is represented by the part of its
  state these functions touch: the shared builtin types, the diagnostics of the handler,
  the next address of an allocation and the iteration order of hash sets.
\<close>

section \<open>State and diagnostics\<close>

datatype style = EmptyStyle | LineAndColumn | Line

record message =
  msg_range :: range
  msg_style :: style
  msg_text :: string
  msg_note :: "string option"
  msg_suggested_replacement :: "string list option"

datatype error_kind = TypeError | CompileError

datatype level = LevelError | LevelWarning | LevelNote | LevelSuggestions

record diagnostic =
  diag_level :: level
  diag_messages :: "message list"
  diag_code :: "error_kind option"

record resolver_state =
  builtins :: builtin_types
  diagnostics :: "diagnostic list"
  next_addr :: nat
  hash_order :: "nat list \<Rightarrow> nat list"

text \<open>The handler keeps an \<open>IndexSet\<close>: a diagnostic that is already there is not added.\<close>

definition add_diagnostic :: "diagnostic \<Rightarrow> resolver_state \<Rightarrow> resolver_state" where
  "add_diagnostic d st =
     (if d \<in> set (diagnostics st) then st else st\<lparr>diagnostics := diagnostics st @ [d]\<rparr>)"

definition new_message :: "range \<Rightarrow> string \<Rightarrow> message" where
  "new_message rg text = \<lparr>msg_range = rg, msg_style = LineAndColumn, msg_text = text,
     msg_note = None, msg_suggested_replacement = None\<rparr>"

definition add_error :: "error_kind \<Rightarrow> message list \<Rightarrow> resolver_state \<Rightarrow> resolver_state" where
  "add_error err msgs st = add_diagnostic
     \<lparr>diag_level = LevelError, diag_messages = msgs, diag_code = Some err\<rparr> st"

definition add_type_error :: "string \<Rightarrow> range \<Rightarrow> resolver_state \<Rightarrow> resolver_state" where
  "add_type_error msg rg st = add_error TypeError [new_message rg msg] st"

definition resolver_alloc :: "ty_ref ty \<Rightarrow> resolver_state \<Rightarrow> ty_ref \<times> resolver_state" where
  "resolver_alloc t st = (Arc (next_addr st) t, st\<lparr>next_addr := Suc (next_addr st)\<rparr>)"

definition resolver_sup :: "ty_ref list \<Rightarrow> resolver_state \<Rightarrow> ty_ref \<times> resolver_state" where
  "resolver_sup types st =
     (sup_ty (hash_order st) types (next_addr st), st\<lparr>next_addr := Suc (next_addr st)\<rparr>)"

section \<open>Sizes\<close>

lemma size_list_concat_leaves:
  "(\<And>t. t \<in> set ts \<Longrightarrow> size_list size (leaves t) \<le> Suc (size t)) \<Longrightarrow>
   size_list size (concat (map leaves ts)) \<le> size_list size ts"
proof (induction ts)
  case (Cons t ts)
  then have "size_list size (concat (map leaves ts)) \<le> size_list size ts"
    "size_list size (leaves t) \<le> Suc (size t)" by simp_all
  then show ?case by simp
qed simp

lemma size_leaves: "size_list size (leaves t) \<le> Suc (size t)"
proof (induction t rule: leaves.induct)
  case (1 t)
  show ?case
  proof (cases "union_types t")
    case None
    then show ?thesis by (simp add: leaves.simps [of t])
  next
    case (Some ts)
    with 1 have "size_list size (concat (map leaves ts)) \<le> size_list size ts"
      by (intro size_list_concat_leaves) auto
    with Some size_union_types [OF Some] show ?thesis by (simp add: leaves.simps [of t])
  qed
qed

lemma size_add_leaves:
  "size_list size (im_values (foldl add_leaf S ts)) \<le> size_list size (im_values S) + size_list size ts"
proof (induction ts arbitrary: S)
  case (Cons t ts)
  have "size_list size (im_values (add_leaf S t)) \<le> size_list size (im_values S) + Suc (size t)"
    by (auto simp: add_leaf_def im_contains_iff im_insert_new im_values_def)
  with Cons [of "add_leaf S t"] show ?case by simp
qed simp

lemma size_swap_remove:
  "size_list size (im_values (im_swap_remove M k)) \<le> size_list size (im_values M)"
proof (induction M)
  case (Cons e M)
  have "size_list size (map snd (last M # butlast M)) = size_list size (map snd M)" if "M \<noteq> []"
    using that by (cases M rule: rev_cases) auto
  with Cons show ?case by (cases e) (auto simp: im_values_def o_def)
qed simp

lemma size_swap_removes:
  "size_list size (im_values (foldl im_swap_remove M ks)) \<le> size_list size (im_values M)"
  by (induction ks arbitrary: M) (auto intro: order_trans size_swap_remove)

lemma size_sup_members: "size_list size (im_values (sup_members iter ts)) \<le> size_list size ts"
proof -
  have "size_list size (im_values (add_types_to_type_set [] ts)) \<le> size_list size (concat (map leaves ts))"
    using size_add_leaves [of "[]"] by (simp add: add_types_leaves im_values_def)
  also have "\<dots> \<le> size_list size ts" by (simp add: size_list_concat_leaves size_leaves)
  finally show ?thesis
    using size_swap_removes order_trans by (simp add: sup_members_def Let_def) blast
qed

text \<open>The supremum of some members of a union is not larger than the union.\<close>

lemma size_sup_ty: "size (sup_ty iter ts fresh) \<le> size (Arc a (Type (UnionK ts) b))"
proof -
  let ?M = "sup_members iter ts"
  have "size (snd (hd ?M)) \<le> size_list size (im_values ?M)" if "?M \<noteq> []"
    using that by (cases ?M) (auto simp: im_values_def)
  then show ?thesis
    using size_sup_members [of iter ts]
    by (auto simp: sup_ty_members Let_def mk_type_def)
qed

text \<open>The types a dict and a schema hold are smaller than they are.\<close>

definition size_attrs :: "(string, ty_ref attr) imap \<Rightarrow> nat" where
  "size_attrs attrs = size_list (\<lambda>(k, a). size (attr_ty a)) attrs"

lemma size_attrs_dict: "size_attrs (dt_attrs d) < size_dict_type size d"
proof -
  have "size_attrs attrs \<le> size_list (size_prod (\<lambda>x. 0) (size_attr size)) attrs" for attrs
    by (induction attrs) (auto simp: size_attrs_def attr.size_gen split: attr.split, case_tac b, simp)
  then show ?thesis by (cases d) (simp add: less_Suc_eq_le trans_le_add2)
qed

lemma size_attrs_Cons [simp]: "size_attrs ((k, a) # attrs) = Suc (size (attr_ty a) + size_attrs attrs)"
  by (simp add: size_attrs_def)

lemma size_dict_get: "im_get (dt_attrs d) k = Some a \<Longrightarrow> size (attr_ty a) < size_dict_type size d"
  by (rule size_dict_attr) (rule im_get_Some_mem)

lemma size_schema_attr:
  "im_get (st_attrs s) name = Some a \<Longrightarrow> size (sa_ty a) < size_schema_type size s"
  by (cases s; cases a) (auto dest!: im_get_Some_mem split_list)

lemma size_schema_signature:
  "st_index_signature s = Some g \<Longrightarrow> size (si_val_ty g) < size_schema_type size s"
  by (cases s; cases g) auto

lemma size_kind:
  "ref_kind t = ListK i \<Longrightarrow> size i < size t"
  "ref_kind t = UnionK ts \<Longrightarrow> size_list size ts < size t"
  "ref_kind t = DictK d \<Longrightarrow> size_dict_type size d < size t"
  "ref_kind t = SchemaK s \<Longrightarrow> size_schema_type size s < size t"
  by (cases t; cases "deref t"; simp)+

section \<open>Assignment\<close>

text \<open>The values at the positions of keys that are not attributes of the schema.\<close>

definition index_signature_val_tys ::
  "ty_ref schema_type \<Rightarrow> ty_ref list \<Rightarrow> ty_ref list \<Rightarrow> ty_ref list" where
  "index_signature_val_tys s key_tys val_tys =
     map snd (filter (\<lambda>(k, v). case ref_kind k of
         StrLit n \<Rightarrow> im_get (st_attrs s) n = None
       | _ \<Rightarrow> False) (zip key_tys val_tys))"

definition signature_val_ty :: "ty_ref dict_type \<Rightarrow> ty_ref schema_type \<Rightarrow> resolver_state \<Rightarrow> ty_ref \<times> resolver_state"
where
  "signature_val_ty d s st =
     (case (union_types (dt_key_ty d), union_types (dt_val_ty d)) of
        (Some key_tys, Some val_tys) \<Rightarrow> resolver_sup (index_signature_val_tys s key_tys val_tys) st
      | _ \<Rightarrow> (dt_val_ty d, st))"

lemma size_signature_val_tys: "size_list size (index_signature_val_tys s ks vs) \<le> size_list size vs"
proof (induction ks arbitrary: vs)
  case (Cons k ks)
  then show ?case
    by (cases vs) (auto simp: index_signature_val_tys_def le_SucI trans_le_add2 o_def)
qed (simp add: index_signature_val_tys_def)

lemma size_signature_val_ty: "size (fst (signature_val_ty d s st)) \<le> size (dt_val_ty d)"
proof (cases "union_types (dt_key_ty d)")
  case (Some ks)
  show ?thesis
  proof (cases "union_types (dt_val_ty d)")
    case (Some vs)
    then obtain a b where v: "dt_val_ty d = Arc a (Type (UnionK vs) b)"
      by (metis downcast_Some_iff(2) ref_kind_def ty.collapse ty_ref.collapse)
    show ?thesis
      using size_sup_ty [of "hash_order st" "index_signature_val_tys s ks vs" "next_addr st" a b]
        size_signature_val_tys [of s ks vs] \<open>union_types (dt_key_ty d) = Some ks\<close> Some v
      by (simp add: signature_val_ty_def resolver_sup_def)
  qed (simp add: signature_val_ty_def split: option.split)
qed (simp add: signature_val_ty_def)

text \<open>The messages of a failed assignment.\<close>

definition assign_messages ::
  "ty_ref \<Rightarrow> ty_ref \<Rightarrow> range \<Rightarrow> range option \<Rightarrow> range option \<Rightarrow> message list" where
  "assign_messages t expected_ty rg def_range attr_rg =
     [new_message rg (''expected '' @ ty_str expected_ty @ '', got '' @ ty_str t)] @
     (case def_range of
        Some dr \<Rightarrow>
          if pos_filename (fst dr) \<noteq> [] \<and> pos_filename (snd dr) \<noteq> []
          then [new_message dr (''variable is defined here, its type is '' @ ty_str expected_ty @
                 '', but got '' @ ty_str t)]
          else []
      | None \<Rightarrow> []) @
     (case attr_rg of
        Some ar \<Rightarrow> [new_message ar ''config attribute is defined here'']
      | None \<Rightarrow> [])"

definition dict_type_of :: "ty_ref \<Rightarrow> ty_ref dict_type option" where
  "dict_type_of t = (case ref_kind t of DictK d \<Rightarrow> Some d | _ \<Rightarrow> None)"

lemma dict_type_of_Some: "dict_type_of t = Some d \<longleftrightarrow> ref_kind t = DictK d"
  by (auto simp: dict_type_of_def split: type_kind.splits)

lemma size_check:
  "list_item_ty t = Some i \<Longrightarrow> size i < size t"
  "dict_type_of t = Some d \<Longrightarrow> size_dict_type size d < size t"
  "into_schema_type t = Some s \<Longrightarrow> size_schema_type size s < size t"
  "union_types t = Some ts \<Longrightarrow> size_list size ts < size t"
  "(v, st') = signature_val_ty d s st \<Longrightarrow> size v < size_dict_type size d"
  using size_kind apply (auto simp: downcast_Some_iff dict_type_of_Some)[4]
  using size_signature_val_ty [of d s st] size_dict_type(2) [of d]
  by (metis fst_conv le_less_trans)

lemma size_dict_parts:
  "dict_type_of t = Some d \<Longrightarrow> size_dict_type size d < size t \<and>
     size (dt_key_ty d) < size t \<and> size (dt_val_ty d) < size t"
  by (simp_all add: dict_type_of_Some size_ref_kind size_kind)

lemma size_the:
  "list_item_ty t \<noteq> None \<Longrightarrow> size (the (list_item_ty t)) < size t"
  "dict_type_of t \<noteq> None \<Longrightarrow> size_dict_type size (the (dict_type_of t)) < size t"
  "dict_type_of t \<noteq> None \<Longrightarrow> size (dt_key_ty (the (dict_type_of t))) < size t"
  "dict_type_of t \<noteq> None \<Longrightarrow> size (dt_val_ty (the (dict_type_of t))) < size t"
  "into_schema_type t \<noteq> None \<Longrightarrow> size_schema_type size (the (into_schema_type t)) < size t"
  "union_types t \<noteq> None \<Longrightarrow> size_list size (the (union_types t)) < size t"
  by (auto simp: size_check size_dict_parts)

function check_type :: "ty_ref \<Rightarrow> ty_ref \<Rightarrow> range \<Rightarrow> resolver_state \<Rightarrow> bool \<times> resolver_state"
  and check_all :: "ty_ref list \<Rightarrow> ty_ref \<Rightarrow> range \<Rightarrow> resolver_state \<Rightarrow> bool \<times> resolver_state"
  and check_any :: "ty_ref \<Rightarrow> ty_ref list \<Rightarrow> range \<Rightarrow> resolver_state \<Rightarrow> bool \<times> resolver_state"
  and dict_assignable_to_schema ::
    "ty_ref dict_type \<Rightarrow> ty_ref schema_type \<Rightarrow> range \<Rightarrow> resolver_state \<Rightarrow> bool \<times> resolver_state"
  and check_attrs :: "(string, ty_ref attr) imap \<Rightarrow> ty_ref schema_type \<Rightarrow>
    ty_ref schema_index_signature \<Rightarrow> range \<Rightarrow> resolver_state \<Rightarrow> resolver_state"
  and attr_must_assignable_to ::
    "ty_ref \<Rightarrow> ty_ref \<Rightarrow> range \<Rightarrow> range option \<Rightarrow> range option \<Rightarrow> resolver_state \<Rightarrow> resolver_state"
where
  "check_type t expected_ty rg st =
     (if list_item_ty t \<noteq> None \<and> list_item_ty expected_ty \<noteq> None then
        check_type (the (list_item_ty t)) (the (list_item_ty expected_ty)) rg st
      else if dict_type_of t \<noteq> None \<and> dict_type_of expected_ty \<noteq> None then
        (let d = the (dict_type_of t); e = the (dict_type_of expected_ty);
             (ok, st) = check_type (dt_key_ty d) (dt_key_ty e) rg st
         in if ok then check_type (dt_val_ty d) (dt_val_ty e) rg st else (False, st))
      else if dict_type_of t \<noteq> None \<and> into_schema_type expected_ty \<noteq> None then
        dict_assignable_to_schema (the (dict_type_of t)) (the (into_schema_type expected_ty)) rg st
      else if union_types t \<noteq> None then check_all (the (union_types t)) expected_ty rg st
      else if union_types expected_ty \<noteq> None then check_any t (the (union_types expected_ty)) rg st
      else (assignable_to t expected_ty, st))"
| "check_all [] expected_ty rg st = (True, st)"
| "check_all (t # ts) expected_ty rg st =
     (let (ok, st) = check_type t expected_ty rg st
      in if ok then check_all ts expected_ty rg st else (False, st))"
| "check_any t [] rg st = (False, st)"
| "check_any t (u # us) rg st =
     (let (ok, st) = check_type t u rg st in if ok then (True, st) else check_any t us rg st)"
| "dict_assignable_to_schema d s rg st =
     (case st_index_signature s of
        Some sig \<Rightarrow>
          (let (val_ty, st) = signature_val_ty d s st
           in if dt_attrs d = [] then
                (let (ok, st) = check_type val_ty (si_val_ty sig) rg st
                 in (True, if ok then st else
                       add_type_error (''expected schema index signature value type '' @
                         ty_str (si_val_ty sig) @ '', got '' @ ty_str val_ty) rg st))
              else (True, check_attrs (dt_attrs d) s sig rg st))
      | None \<Rightarrow>
          (case ref_kind (dt_key_ty d) of
             StrLit key_name \<Rightarrow>
               (case im_get (st_attrs s) key_name of
                  Some attr_obj \<Rightarrow>
                    (case im_get (dt_attrs d) key_name of
                       Some a \<Rightarrow> (True, attr_must_assignable_to (attr_ty a) (sa_ty attr_obj) rg
                                          (Some (sa_range attr_obj)) None st)
                     | None \<Rightarrow> (True, st))
                | None \<Rightarrow> (True, st))
           | _ \<Rightarrow> (True, st)))"
| "check_attrs [] s sig rg st = st"
| "check_attrs ((name, a) # attrs) s sig rg st =
     (let st = (if si_any_other sig then
                  (case im_get (st_attrs s) name of
                     Some attr_obj \<Rightarrow> attr_must_assignable_to (attr_ty a) (sa_ty attr_obj) rg
                                       (Some (sa_range attr_obj)) None st
                   | None \<Rightarrow> attr_must_assignable_to (attr_ty a) (si_val_ty sig) (attr_range a) None None st)
                else attr_must_assignable_to (attr_ty a) (si_val_ty sig) (attr_range a) None None st)
      in check_attrs attrs s sig rg st)"
| "attr_must_assignable_to t expected_ty rg def_range attr_rg st =
     (let (ok, st) = check_type t expected_ty rg st
      in if ok then st
         else add_error TypeError (assign_messages t expected_ty rg def_range attr_rg) st)"
  by pat_completeness auto

termination
  apply (relation "measure (\<lambda>x. case x of
    Inl (Inl (t, e, rg, st)) \<Rightarrow> 2 * (size t + size e)
  | Inl (Inr (Inl (ts, e, rg, st))) \<Rightarrow> 2 * (size_list size ts + size e)
  | Inl (Inr (Inr (t, es, rg, st))) \<Rightarrow> 2 * (size t + size_list size es)
  | Inr (Inl (d, s, rg, st)) \<Rightarrow> 2 * (size_dict_type size d + size_schema_type size s)
  | Inr (Inr (Inl (attrs, s, sig, rg, st))) \<Rightarrow>
      2 * (size_attrs attrs + max (size_schema_type size s) (Suc (size (si_val_ty sig))))
  | Inr (Inr (Inr (t, e, rg, dr, ar, st))) \<Rightarrow> Suc (2 * (size t + size e)))")
  apply (simp_all only: in_measure sum.case prod.case wf_measure)
  apply (simp_all add: size_the add_less_mono del: not_None_eq)
  apply (auto dest!: size_check(1,3-) size_dict_parts size_schema_signature size_schema_attr
      size_dict_get simp: size_attrs_dict max_def)
  subgoal for d using size_attrs_dict [of d] by simp
  done

declare check_type.simps [simp del] dict_assignable_to_schema.simps [simp del]
  attr_must_assignable_to.simps [simp del]

definition must_assignable_to ::
  "ty_ref \<Rightarrow> ty_ref \<Rightarrow> range \<Rightarrow> range option \<Rightarrow> resolver_state \<Rightarrow> resolver_state" where
  "must_assignable_to t expected_ty rg def_range st =
     attr_must_assignable_to t expected_ty rg def_range None st"

section \<open>Conversion of dicts to schemas\<close>

function get_schema_attrs :: "'r schema_type \<Rightarrow> string list \<times> bool" where
  "get_schema_attrs s =
     (let attrs = im_keys (st_attrs s); has_index_signature = st_index_signature s \<noteq> None
      in case st_base s of
           Some base \<Rightarrow>
             (let (base_attrs, index_signature) = get_schema_attrs base
              in (attrs @ base_attrs, has_index_signature \<and> index_signature))
         | None \<Rightarrow> (attrs, has_index_signature))"
  by pat_completeness auto
termination
  by (relation "measure size") (auto simp: size_schema_base)

declare get_schema_attrs.simps [simp del]

definition upgrade_dict_to_schema_attr_check :: "ty_ref dict_type \<Rightarrow> ty_ref schema_type \<Rightarrow> bool" where
  "upgrade_dict_to_schema_attr_check d s \<longleftrightarrow>
     (if st_index_signature s \<noteq> None then True
      else case ref_kind (dt_key_ty d) of
        AnyK \<Rightarrow> True
      | StrLit n \<Rightarrow> st_attrs s \<noteq> [] \<and> im_contains (st_attrs s) n
      | UnionK types \<Rightarrow>
          (let (attrs, has_index_signature) = get_schema_attrs s
           in if length types \<le> length attrs
              then list_all (\<lambda>t. case ref_kind t of StrLit n \<Rightarrow> n \<in> set attrs | _ \<Rightarrow> False) types
              else has_index_signature)
      | _ \<Rightarrow> False)"

function upgrade_dict_to_schema :: "ty_ref \<Rightarrow> ty_ref \<Rightarrow> resolver_state \<Rightarrow> ty_ref \<times> resolver_state" where
  "upgrade_dict_to_schema t expected_ty st =
     (case (dict_type_of t, into_schema_type expected_ty) of
        (Some d, Some s) \<Rightarrow>
          (if upgrade_dict_to_schema_attr_check d s then expected_ty else t, st)
      | _ \<Rightarrow>
     (case (list_item_ty t, list_item_ty expected_ty) of
        (Some item_ty, Some expected_item_ty) \<Rightarrow>
          (let (i, st) = upgrade_dict_to_schema item_ty expected_item_ty st
           in resolver_alloc (mk_type (ListK i)) st)
      | _ \<Rightarrow>
     (case (dict_type_of t, dict_type_of expected_ty) of
        (Some d, Some e) \<Rightarrow>
          (let (k, st) = upgrade_dict_to_schema (dt_key_ty d) (dt_key_ty e) st;
               (v, st) = upgrade_dict_to_schema (dt_val_ty d) (dt_val_ty e) st
           in resolver_alloc (dict k v) st)
      | _ \<Rightarrow>
     (case (dict_type_of t, union_types expected_ty) of
        (Some d, Some types) \<Rightarrow>
          resolver_sup (filter (\<lambda>u. case into_schema_type u of
              Some s \<Rightarrow> upgrade_dict_to_schema_attr_check d s | None \<Rightarrow> False) types) st
      | _ \<Rightarrow> (t, st)))))"
  by pat_completeness auto
termination
  by (relation "measure (\<lambda>(t, e, st). size t + size e)")
    (auto dest!: sym [of "Some _"] dest!: size_check(1) size_dict_parts)

declare upgrade_dict_to_schema.simps [simp del]

end
