(* ===== verification/Ast_Op.thy ===== *)
theory Ast_Op
  imports Float64
begin

text \<open>
  Operators, literals and suffixes of the syntax tree (\<open>crates/ast/src/ast.rs\<close>), shared by the
  type checks and the evaluator.
\<close>

section \<open>Operators of the syntax tree\<close>

datatype bin_op = BinAdd | BinSub | BinMul | BinDiv | BinMod | BinPow | BinFloorDiv | BinLShift
  | BinRShift | BinBitXor | BinBitAnd | BinBitOr | BinAnd | BinOr | BinAs

datatype unary_op = UAdd | USub | Invert | UnaryNot

datatype cmp_op = CmpEq | CmpNotEq | CmpLt | CmpLtE | CmpGt | CmpGtE | CmpIs | CmpIn | CmpNotIn
  | CmpNot | CmpIsNot

fun bin_op_symbol :: "bin_op \<Rightarrow> string" where
  "bin_op_symbol BinAdd = ''+''"
| "bin_op_symbol BinSub = ''-''"
| "bin_op_symbol BinMul = ''*''"
| "bin_op_symbol BinDiv = ''/''"
| "bin_op_symbol BinMod = ''%''"
| "bin_op_symbol BinPow = ''**''"
| "bin_op_symbol BinFloorDiv = ''//''"
| "bin_op_symbol BinLShift = ''<<''"
| "bin_op_symbol BinRShift = ''>>''"
| "bin_op_symbol BinBitXor = ''^''"
| "bin_op_symbol BinBitAnd = ''&''"
| "bin_op_symbol BinBitOr = ''|''"
| "bin_op_symbol BinAnd = ''and''"
| "bin_op_symbol BinOr = ''or''"
| "bin_op_symbol BinAs = ''as''"

fun unary_op_symbol :: "unary_op \<Rightarrow> string" where
  "unary_op_symbol UAdd = ''+''"
| "unary_op_symbol USub = ''-''"
| "unary_op_symbol Invert = ''~''"
| "unary_op_symbol UnaryNot = ''not''"

fun cmp_op_symbol :: "cmp_op \<Rightarrow> string" where
  "cmp_op_symbol CmpEq = ''==''"
| "cmp_op_symbol CmpNotEq = ''!=''"
| "cmp_op_symbol CmpLt = ''<''"
| "cmp_op_symbol CmpLtE = ''<=''"
| "cmp_op_symbol CmpGt = ''>''"
| "cmp_op_symbol CmpGtE = ''>=''"
| "cmp_op_symbol CmpIs = ''is''"
| "cmp_op_symbol CmpIn = ''in''"
| "cmp_op_symbol CmpNotIn = ''not in''"
| "cmp_op_symbol CmpNot = ''not''"
| "cmp_op_symbol CmpIsNot = ''is not''"

section \<open>Literals\<close>

datatype number_binary_suffix = Suffix_n | Suffix_u | Suffix_m | Suffix_k | Suffix_K | Suffix_M
  | Suffix_G | Suffix_T | Suffix_P | Suffix_Ki | Suffix_Mi | Suffix_Gi | Suffix_Ti | Suffix_Pi

text \<open>The suffix as written, \<open>format!("{:?}", self)\<close>.\<close>

fun suffix_value :: "number_binary_suffix \<Rightarrow> string" where
  "suffix_value Suffix_n = ''n''"
| "suffix_value Suffix_u = ''u''"
| "suffix_value Suffix_m = ''m''"
| "suffix_value Suffix_k = ''k''"
| "suffix_value Suffix_K = ''K''"
| "suffix_value Suffix_M = ''M''"
| "suffix_value Suffix_G = ''G''"
| "suffix_value Suffix_T = ''T''"
| "suffix_value Suffix_P = ''P''"
| "suffix_value Suffix_Ki = ''Ki''"
| "suffix_value Suffix_Mi = ''Mi''"
| "suffix_value Suffix_Gi = ''Gi''"
| "suffix_value Suffix_Ti = ''Ti''"
| "suffix_value Suffix_Pi = ''Pi''"

definition suffix_try_from :: "string \<Rightarrow> number_binary_suffix option" where
  "suffix_try_from s =
     (if s = ''n'' then Some Suffix_n else if s = ''u'' then Some Suffix_u
      else if s = ''m'' then Some Suffix_m else if s = ''k'' then Some Suffix_k
      else if s = ''K'' then Some Suffix_K else if s = ''M'' then Some Suffix_M
      else if s = ''G'' then Some Suffix_G else if s = ''T'' then Some Suffix_T
      else if s = ''P'' then Some Suffix_P else if s = ''Ki'' then Some Suffix_Ki
      else if s = ''Mi'' then Some Suffix_Mi else if s = ''Gi'' then Some Suffix_Gi
      else if s = ''Ti'' then Some Suffix_Ti else if s = ''Pi'' then Some Suffix_Pi
      else None)"

lemma suffix_roundtrip: "suffix_try_from s = Some u \<longleftrightarrow> s = suffix_value u"
  by (cases u) (auto simp: suffix_try_from_def split: if_splits)

datatype number_lit_value = NumInt i64 | NumFloat f64

datatype name_constant = ConstTrue | ConstFalse | ConstNone | ConstUndefined

datatype quant_operation = QuantAll | QuantAny | QuantFilter | QuantMap

end
