(* ===== verification/Sema_Calc.thy ===== *)
theory Sema_Calc
  imports Sema_Check Ast_Op
begin

text \<open>
  The types of operators: the tables of \<open>sema/src/resolver/calculation.rs\<close> that compute the
  type of an operation or report the operands.
\<close>

section \<open>Helpers of the resolver\<close>

text \<open>The shared builtin types.\<close>

abbreviation any_ty :: "resolver_state \<Rightarrow> ty_ref" where "any_ty st \<equiv> bt_any (builtins st)"
abbreviation int_ty :: "resolver_state \<Rightarrow> ty_ref" where "int_ty st \<equiv> bt_int (builtins st)"
abbreviation str_ty :: "resolver_state \<Rightarrow> ty_ref" where "str_ty st \<equiv> bt_str (builtins st)"
abbreviation bool_ty :: "resolver_state \<Rightarrow> ty_ref" where "bool_ty st \<equiv> bt_bool (builtins st)"

definition resolver_infer :: "ty_ref \<Rightarrow> resolver_state \<Rightarrow> ty_ref \<times> resolver_state" where
  "resolver_infer t st =
     (let (u, n) = infer_to_variable_type (builtins st) (hash_order st) t (next_addr st)
      in (u, st\<lparr>next_addr := n\<rparr>))"

definition resolver_literal_union :: "ty_ref \<Rightarrow> resolver_state \<Rightarrow> ty_ref \<times> resolver_state" where
  "resolver_literal_union t st =
     (let (u, n) = literal_union_type_to_variable_type (builtins st) (hash_order st) t (next_addr st)
      in (u, st\<lparr>next_addr := n\<rparr>))"

definition ZERO_LIT_TYPES :: "kcl_type list" where
  "ZERO_LIT_TYPES = [mk_type (IntLit 0), mk_type (FloatLit f64_zero), mk_type (BoolLit False)]"

definition DIV_OR_MOD_ZERO_MSG :: string where
  "DIV_OR_MOD_ZERO_MSG = ''integer division or modulo by zero''"

definition number_binary :: "ty_ref \<Rightarrow> ty_ref \<Rightarrow> resolver_state \<Rightarrow> ty_ref \<times> resolver_state" where
  "number_binary left right st =
     resolver_alloc (mk_type (if is_float left \<or> is_float right then FloatK else IntK)) st"

text \<open>\<open>Type::list_ref(sup(&[..]))\<close>\<close>

definition list_sup :: "ty_ref \<Rightarrow> ty_ref \<Rightarrow> resolver_state \<Rightarrow> ty_ref \<times> resolver_state" where
  "list_sup i j st = (let (k, st) = resolver_sup [i, j] st in resolver_alloc (mk_type (ListK k)) st)"

definition check_zero_divisor :: "ty_ref \<Rightarrow> range \<Rightarrow> resolver_state \<Rightarrow> resolver_state" where
  "check_zero_divisor t2 rg st =
     (if list_ex (\<lambda>z. ty_eq ref_eq z (deref t2)) ZERO_LIT_TYPES
      then add_type_error DIV_OR_MOD_ZERO_MSG rg st else st)"

definition dict_sup ::
  "ty_ref dict_type \<Rightarrow> ty_ref dict_type \<Rightarrow> resolver_state \<Rightarrow> ty_ref \<times> resolver_state" where
  "dict_sup d1 d2 st =
     (let attrs = foldl (\<lambda>m (k, v). im_insert m k v)
                    (foldl (\<lambda>m (k, v). im_insert m k v) [] (dt_attrs d1)) (dt_attrs d2);
          (k, st) = resolver_sup [dt_key_ty d1, dt_key_ty d2] st;
          (v, st) = resolver_sup [dt_val_ty d1, dt_val_ty d2] st
      in resolver_alloc (dict_with_attrs k v attrs) st)"

definition supported :: "'a \<times> 's \<Rightarrow> 'a option \<times> 's" where
  "supported r = (Some (fst r), snd r)"

section \<open>Binary operators\<close>

text \<open>The type of an operation, or None where the table has no entry.\<close>

definition add_table :: "ty_ref \<Rightarrow> ty_ref \<Rightarrow> resolver_state \<Rightarrow> ty_ref option \<times> resolver_state" where
  "add_table t1 t2 st =
     (if is_number t1 \<and> is_number t2 then supported (number_binary t1 t2 st)
      else if is_str t1 \<and> is_str t2 then (Some (str_ty st), st)
      else case (list_item_ty t1, list_item_ty t2) of
             (Some i, Some j) \<Rightarrow> supported (list_sup i j st)
           | _ \<Rightarrow> (None, st))"

definition mul_table :: "ty_ref \<Rightarrow> ty_ref \<Rightarrow> resolver_state \<Rightarrow> ty_ref option \<times> resolver_state" where
  "mul_table t1 t2 st =
     (if is_number t1 \<and> is_number t2 then supported (number_binary t1 t2 st)
      else if is_int t1 \<and> is_mul_val_type_or_mul_val_union_type t2 then (Some t2, st)
      else if is_mul_val_type_or_mul_val_union_type t1 \<and> is_int t2 then (Some t1, st)
      else (None, st))"

definition bit_or_table :: "ty_ref \<Rightarrow> ty_ref \<Rightarrow> resolver_state \<Rightarrow> ty_ref option \<times> resolver_state" where
  "bit_or_table t1 t2 st =
     (if is_int t1 \<and> is_int t2 then (Some (int_ty st), st)
      else if is_none t1 then (Some t2, st)
      else if is_none t2 then (Some t1, st)
      else case (list_item_ty t1, list_item_ty t2) of
             (Some i, Some j) \<Rightarrow> supported (list_sup i j st)
           | _ \<Rightarrow>
        (case (dict_type_of t1, dict_type_of t2) of
           (Some d1, Some d2) \<Rightarrow> supported (dict_sup d1 d2 st)
         | _ \<Rightarrow> if is_schema t1 \<and> (is_schema t2 \<or> is_dict t2) then (Some t1, st) else (None, st)))"

definition as_table :: "ty_ref \<Rightarrow> ty_ref \<Rightarrow> range \<Rightarrow> resolver_state \<Rightarrow> ty_ref option \<times> resolver_state" where
  "as_table t1 t2 rg st =
     (let (v, st) = resolver_infer t1 st
      in (Some t2, if is_upper_bound v t2 then st else
            add_type_error (''Conversion of type '' @ [CHR 0x27] @ full_ty_str t1 @ [CHR 0x27] @ '' to type '' @ [CHR 0x27] @ full_ty_str t2 @
              [CHR 0x27] @ '' may be a mistake because neither type sufficiently overlaps with the other'')
              rg st))"

definition binary_table ::
  "bin_op \<Rightarrow> ty_ref \<Rightarrow> ty_ref \<Rightarrow> range \<Rightarrow> resolver_state \<Rightarrow> ty_ref option \<times> resolver_state" where
  "binary_table op t1 t2 rg st =
     (let numbers = is_number t1 \<and> is_number t2;
          integers = is_int t1 \<and> is_int t2
      in case op of
        BinAdd \<Rightarrow> add_table t1 t2 st
      | BinSub \<Rightarrow> if numbers then supported (number_binary t1 t2 st) else (None, st)
      | BinPow \<Rightarrow> if numbers then supported (number_binary t1 t2 st) else (None, st)
      | BinMul \<Rightarrow> mul_table t1 t2 st
      | BinDiv \<Rightarrow> if numbers then supported (number_binary t1 t2 (check_zero_divisor t2 rg st))
                  else (None, st)
      | BinFloorDiv \<Rightarrow> if numbers then supported (number_binary t1 t2 (check_zero_divisor t2 rg st))
                  else (None, st)
      | BinMod \<Rightarrow> if numbers then (Some (int_ty st), check_zero_divisor t2 rg st) else (None, st)
      | BinLShift \<Rightarrow> if integers then (Some (int_ty st), st) else (None, st)
      | BinRShift \<Rightarrow> if integers then (Some (int_ty st), st) else (None, st)
      | BinBitXor \<Rightarrow> if integers then (Some (int_ty st), st) else (None, st)
      | BinBitAnd \<Rightarrow> if integers then (Some (int_ty st), st) else (None, st)
      | BinBitOr \<Rightarrow> bit_or_table t1 t2 st
      | BinAnd \<Rightarrow> (Some (bool_ty st), st)
      | BinOr \<Rightarrow> supported (resolver_sup [t1, t2] st)
      | BinAs \<Rightarrow> as_table t1 t2 rg st)"

definition unsupported_operands :: "string \<Rightarrow> ty_ref \<Rightarrow> ty_ref \<Rightarrow> string" where
  "unsupported_operands symbol left right =
     ''unsupported operand type(s) for '' @ symbol @ '': '' @ [CHR 0x27] @ ty_str left @ [CHR 0x27] @ '' and '' @
       [CHR 0x27] @ ty_str right @ [CHR 0x27]"

definition binary :: "ty_ref \<Rightarrow> ty_ref \<Rightarrow> bin_op \<Rightarrow> range \<Rightarrow> resolver_state \<Rightarrow> ty_ref \<times> resolver_state" where
  "binary left right op rg st =
     (let (t1, st) = resolver_literal_union left st;
          (t2, st) = resolver_literal_union right st
      in if has_any_type [t1, t2] then (any_ty st, st)
         else case binary_table op t1 t2 rg st of
                (Some return_ty, st) \<Rightarrow> (return_ty, st)
              | (None, st) \<Rightarrow>
                  (any_ty st, add_type_error (unsupported_operands (bin_op_symbol op) left right) rg st))"

section \<open>Unary and comparison operators\<close>

definition unary :: "ty_ref \<Rightarrow> unary_op \<Rightarrow> range \<Rightarrow> resolver_state \<Rightarrow> ty_ref \<times> resolver_state" where
  "unary t op rg st =
     (if has_any_type [t] then (any_ty st, st)
      else let (var_ty, st) = resolver_literal_union t st;
               result = (case op of
                   UAdd \<Rightarrow> is_number var_ty
                 | USub \<Rightarrow> is_number var_ty
                 | Invert \<Rightarrow> is_int var_ty \<or> is_bool var_ty
                 | UnaryNot \<Rightarrow> True)
           in if result then (var_ty, st)
              else (any_ty st, add_type_error (''bad operand type for unary '' @ unary_op_symbol op @ '': '' @
                      [CHR 0x27] @ ty_str t @ [CHR 0x27]) rg st))"

definition compare_accepts :: "cmp_op \<Rightarrow> ty_ref \<Rightarrow> ty_ref \<Rightarrow> bool" where
  "compare_accepts op t1 t2 \<longleftrightarrow>
     is_number_bool_type_or_number_bool_union_type t1 \<and> is_number_bool_type_or_number_bool_union_type t2 \<and>
       \<not> (op = CmpIn \<or> op = CmpNotIn) \<or>
     is_primitive_type_or_primitive_union_type t1 \<and> is_primitive_type_or_primitive_union_type t2 \<and>
       (op = CmpEq \<or> op = CmpNotEq) \<or>
     op = CmpEq \<and> is_list t1 \<and> is_list t2 \<or>
     op = CmpEq \<and> is_dict_or_schema t1 \<and> is_dict_or_schema t2 \<or>
     (op = CmpIn \<or> op = CmpNotIn) \<and> is_iterable t2 \<or>
     (is_none t1 \<or> is_none t2) \<and>
       (op = CmpEq \<or> op = CmpNotEq \<or> op = CmpIs \<or> op = CmpIsNot \<or> op = CmpNot)"

definition compare :: "ty_ref \<Rightarrow> ty_ref \<Rightarrow> cmp_op \<Rightarrow> range \<Rightarrow> resolver_state \<Rightarrow> ty_ref \<times> resolver_state" where
  "compare left right op rg st =
     (let (t1, st) = resolver_literal_union left st;
          (t2, st) = resolver_literal_union right st
      in if has_any_type [t1, t2] then (any_ty st, st)
         else if compare_accepts op t1 t2 then (bool_ty st, st)
         else (any_ty st, add_type_error (unsupported_operands (cmp_op_symbol op) t1 t2) rg st))"

end
