(* ===== verification/Sema_Check_Laws.thy ===== *)
theory Sema_Check_Laws
  imports Sema_Check
begin

text \<open>
  Laws of the type checks of the resolver: a check only adds diagnostics, agrees with
  assignability where no schema is expected, and answers true for every dict that is
  assigned to a schema, whatever it reports.
\<close>

section \<open>Frame of the checks\<close>

text \<open>A check keeps the builtin types and the hash order, and extends the diagnostics.\<close>

definition extends :: "resolver_state \<Rightarrow> resolver_state \<Rightarrow> bool" where
  "extends st st' \<longleftrightarrow> builtins st' = builtins st \<and> hash_order st' = hash_order st \<and>
     next_addr st \<le> next_addr st' \<and> (\<exists>ds. diagnostics st' = diagnostics st @ ds)"

lemma extends_refl [simp]: "extends st st"
  by (simp add: extends_def)

lemma extends_trans [trans]: "extends st st' \<Longrightarrow> extends st' st'' \<Longrightarrow> extends st st''"
  by (auto simp: extends_def)

lemma extends_add_error: "extends st (add_error err msgs st)"
  by (auto simp: extends_def add_error_def add_diagnostic_def)

lemma extends_add_type_error: "extends st (add_type_error msg rg st)"
  by (simp add: add_type_error_def extends_add_error)

lemma extends_signature: "extends st (snd (signature_val_ty d s st))"
  by (auto simp: extends_def signature_val_ty_def resolver_sup_def split: option.split)

lemma check_extends:
  "extends st (snd (check_type t e rg st))"
  "extends st (snd (check_all ts e rg st))"
  "extends st (snd (check_any t es rg st))"
  "extends st (snd (dict_assignable_to_schema d s rg st))"
  "extends st (check_attrs attrs s sig rg st)"
  "extends st (attr_must_assignable_to t e rg dr ar st)"
proof (induction t e rg st and ts e rg st and t es rg st and d s rg st and attrs s sig rg st
    and t e rg dr ar st rule: check_type_check_all_check_any_dict_assignable_to_schema_check_attrs_attr_must_assignable_to.induct)
  case (1 t e rg st)
  then show ?case
    by (subst check_type.simps)
      (auto split: prod.split simp: Let_def; blast intro: extends_trans)
next
  case (3 t ts e rg st)
  then show ?case by (auto simp: Let_def split: prod.split; blast intro: extends_trans)
next
  case (5 t u us rg st)
  then show ?case by (auto simp: Let_def split: prod.split; blast intro: extends_trans)
next
  case (6 d s rg st)
  obtain v st1 where v: "signature_val_ty d s st = (v, st1)" by (cases "signature_val_ty d s st")
  then have st1: "extends st st1" using extends_signature [of st d s] by simp
  show ?case
  proof (cases "st_index_signature s")
    case None
    with 6 show ?thesis
      by (subst dict_assignable_to_schema.simps)
        (auto split: type_kind.split option.split)
  next
    case (Some sig)
    show ?thesis
    proof (cases "dt_attrs d = []")
      case True
      obtain ok st2 where c: "check_type v (si_val_ty sig) rg st1 = (ok, st2)" by (cases "check_type v (si_val_ty sig) rg st1")
      with True have "extends st1 st2"
        using "6.IH"(2) [OF Some refl v [symmetric]] by simp
      with st1 have "extends st st2" by (rule extends_trans)
      moreover from this have "extends st (add_type_error msg rg st2)" for msg
        by (rule extends_trans) (rule extends_add_type_error)
      ultimately show ?thesis
        using Some v True c by (subst dict_assignable_to_schema.simps) simp
    next
      case False
      then have "extends st1 (check_attrs (dt_attrs d) s sig rg st1)"
        using "6.IH"(3) [OF Some refl v [symmetric]] by simp
      with Some v False st1 show ?thesis
        by (subst dict_assignable_to_schema.simps) (auto intro: extends_trans)
    qed
  qed
next
  case (8 name a attrs s sig rg st)
  define st' where "st' = (if si_any_other sig then
      (case im_get (st_attrs s) name of
         Some b \<Rightarrow> attr_must_assignable_to (attr_ty a) (sa_ty b) rg (Some (sa_range b)) None st
       | None \<Rightarrow> attr_must_assignable_to (attr_ty a) (si_val_ty sig) (attr_range a) None None st)
    else attr_must_assignable_to (attr_ty a) (si_val_ty sig) (attr_range a) None None st)"
  have "extends st st'" using "8.IH"(1-3) unfolding st'_def by (simp split: option.split)
  also have "extends st' (check_attrs attrs s sig rg st')" by (rule "8.IH"(4)) (simp add: st'_def)
  finally show ?case by (simp add: st'_def)
next
  case (9 t e rg dr ar st)
  then show ?case
    by (subst attr_must_assignable_to.simps)
      (auto simp: Let_def split: prod.split; blast intro: extends_trans extends_add_error)
qed simp_all

section \<open>Checks without schemas\<close>

text \<open>Assigned types without unions and unresolved parts, and expected types without unions
  and schemas, down through lists and dicts.\<close>

fun plain_value_type :: "ty_ref \<Rightarrow> bool" where
  "plain_value_type (Arc a (Type k b)) \<longleftrightarrow> (case k of
       UnionK _ \<Rightarrow> False | VoidK \<Rightarrow> False | ModuleK _ \<Rightarrow> False | NamedK _ \<Rightarrow> False
     | ListK i \<Rightarrow> plain_value_type i
     | DictK d \<Rightarrow> plain_value_type (dt_key_ty d) \<and> plain_value_type (dt_val_ty d)
     | _ \<Rightarrow> True)"

fun plain_expected_type :: "ty_ref \<Rightarrow> bool" where
  "plain_expected_type (Arc a (Type k b)) \<longleftrightarrow> (case k of
       UnionK _ \<Rightarrow> False | SchemaK _ \<Rightarrow> False
     | ListK i \<Rightarrow> plain_expected_type i
     | DictK d \<Rightarrow> plain_expected_type (dt_key_ty d) \<and> plain_expected_type (dt_val_ty d)
     | _ \<Rightarrow> True)"

lemma plain_value_kind: "plain_value_type t \<Longrightarrow> is_assignable_type t \<and> union_types t = None"
  by (cases t; cases "deref t"; cases "ref_kind t")
    (simp_all add: is_assignable_type_def union_types_def)

lemma plain_expected_kind:
  "plain_expected_type e \<Longrightarrow> union_types e = None \<and> into_schema_type e = None"
  by (cases e; cases "deref e"; cases "ref_kind e")
    (simp_all add: into_schema_type_def union_types_def)

lemma plain_value_parts:
  assumes "plain_value_type t"
  shows "ref_kind t = ListK i \<Longrightarrow> plain_value_type i"
    and "ref_kind t = DictK d \<Longrightarrow> plain_value_type (dt_key_ty d) \<and> plain_value_type (dt_val_ty d)"
  using assms by (cases t; cases "deref t"; simp)+

lemma plain_expected_parts:
  assumes "plain_expected_type e"
  shows "ref_kind e = ListK i \<Longrightarrow> plain_expected_type i"
    and "ref_kind e = DictK d \<Longrightarrow> plain_expected_type (dt_key_ty d) \<and> plain_expected_type (dt_val_ty d)"
  using assms by (cases e; cases "deref e"; simp)+

lemmas plain_parts = plain_value_parts plain_expected_parts

lemma check_type_plain:
  assumes "plain_value_type t" "plain_expected_type e"
  shows "check_type t e rg st = (subsume t e True, st)"
  using assms
proof (induction "size t + size e" arbitrary: t e st rule: less_induct)
  case (less t e st)
  note plain = plain_value_kind [OF less.prems(1)] plain_expected_kind [OF less.prems(2)]
  consider (list) i j where "ref_kind t = ListK i" "ref_kind e = ListK j"
    | (dict) d g where "ref_kind t = DictK d" "ref_kind e = DictK g"
    | (other) "list_item_ty t = None \<or> list_item_ty e = None" "dict_type_of t = None \<or> dict_type_of e = None"
    by (metis downcast_Some_iff(1) dict_type_of_Some option.exhaust)
  then show ?case
  proof cases
    case (list i j)
    then have "check_type i j rg st = (subsume i j True, st)"
      using less.prems by (intro less.hyps) (auto simp: size_ref_kind add_less_mono dest: plain_parts)
    moreover have "flat t e" using list by (simp add: flat_def)
    ultimately show ?thesis
      using list by (subst check_type.simps) (simp add: list_item_ty_def kind_subsume_eq)
  next
    case (dict d g)
    then have "check_type (dt_key_ty d) (dt_key_ty g) rg st = (subsume (dt_key_ty d) (dt_key_ty g) True, st)"
      "check_type (dt_val_ty d) (dt_val_ty g) rg st = (subsume (dt_val_ty d) (dt_val_ty g) True, st)"
      using less.prems by (intro less.hyps; auto simp: size_ref_kind add_less_mono dest: plain_parts)+
    moreover have "flat t e" using dict by (simp add: flat_def)
    ultimately show ?thesis
      using dict by (subst check_type.simps)
        (simp add: list_item_ty_def dict_type_of_def kind_subsume_eq)
  next
    case other
    with plain show ?thesis by (subst check_type.simps) (auto simp: assignable_to_def)
  qed
qed


text \<open>A resolver without diagnostics.\<close>

definition sample_resolver :: resolver_state where
  "sample_resolver = \<lparr>builtins = new_builtin_types 20, diagnostics = [], next_addr = 40, hash_order = id\<rparr>"

lemma sample_diagnostics: "diagnostics sample_resolver = []"
  by (simp add: sample_resolver_def)


section \<open>Dicts against schemas\<close>

lemma dict_assignable_true: "fst (dict_assignable_to_schema d s rg st) = True"
  by (subst dict_assignable_to_schema.simps)
    (auto simp: Let_def split: option.split type_kind.split prod.split)

lemma check_type_dict_schema:
  "ref_kind t = DictK d \<Longrightarrow> ref_kind e = SchemaK s \<Longrightarrow>
   check_type t e rg st = dict_assignable_to_schema d s rg st"
  by (subst check_type.simps) (simp add: list_item_ty_def dict_type_of_def into_schema_type_def)

text \<open>C28. A dict is accepted for every schema, whatever is reported on the way, so a dict
  that is checked against a union beginning with a schema is checked against that schema
  only: the other members of the union are never tried, and what does not fit the first
  schema is reported.\<close>
theorem dict_union_first_schema:
  assumes "ref_kind t = DictK d" "ref_kind e = UnionK (u # us)" "ref_kind u = SchemaK s"
  shows "check_type t e rg st = (True, snd (dict_assignable_to_schema d s rg st))"
proof -
  have "check_type t e rg st = check_any t (u # us) rg st"
    using assms by (subst check_type.simps)
      (simp add: list_item_ty_def dict_type_of_def into_schema_type_def union_types_def)
  then show ?thesis
    using check_type_dict_schema [OF assms(1,3)] dict_assignable_true [of d s rg st]
    by (auto simp: Let_def split: prod.split)
qed

text \<open>With schemas \<open>A\<close> and \<open>B\<close> whose attribute \<open>b\<close> is a string and an integer, the dict
  \<open>{b = 1}\<close> is reported against \<open>A | B\<close> although it fits \<open>B\<close>.\<close>

definition sample_schema :: "string \<Rightarrow> nat \<Rightarrow> ty_ref type_kind \<Rightarrow> ty_ref schema_type" where
  "sample_schema name n k = SchemaType name ''__main__'' [] [] [] True False False False None None []
     [(''b'', SchemaAttr False False None (Arc n (Type k False)) (dummy_pos, dummy_pos) None [])]
     (FunctionType [] [] None (Arc n (Type k False)) False None) None []"

definition sample_dict :: "ty_ref dict_type" where
  "sample_dict = DictType (Arc 0 (Type (StrLit ''b'') False)) (Arc 1 (Type (IntLit 1) False))
     [(''b'', Attr (Arc 1 (Type (IntLit 1) False)) (dummy_pos, dummy_pos))]"

lemma sample_assign:
  assumes "plain_expected_type (Arc n (Type k False))"
  shows "dict_assignable_to_schema sample_dict (sample_schema name n k) rg sample_resolver =
    (True, if subsume (Arc 1 (Type (IntLit 1) False)) (Arc n (Type k False)) True then sample_resolver
       else add_error TypeError (assign_messages (Arc 1 (Type (IntLit 1) False)) (Arc n (Type k False)) rg
              (Some (dummy_pos, dummy_pos)) None) sample_resolver)"
  using assms
  by (subst dict_assignable_to_schema.simps)
    (simp add: sample_dict_def sample_schema_def attr_must_assignable_to.simps check_type_plain
      im_get_def)

theorem dict_union_first_schema_witness:
  "fst (check_type (Arc 2 (Type (DictK sample_dict) False))
     (Arc 7 (Type (UnionK [Arc 4 (Type (SchemaK (sample_schema ''A'' 3 StrK)) False),
       Arc 6 (Type (SchemaK (sample_schema ''B'' 5 IntK)) False)]) False)) (dummy_pos, dummy_pos) sample_resolver) \<and>
   diagnostics (snd (check_type (Arc 2 (Type (DictK sample_dict) False))
     (Arc 7 (Type (UnionK [Arc 4 (Type (SchemaK (sample_schema ''A'' 3 StrK)) False),
       Arc 6 (Type (SchemaK (sample_schema ''B'' 5 IntK)) False)]) False)) (dummy_pos, dummy_pos) sample_resolver)) \<noteq> [] \<and>
   check_type (Arc 2 (Type (DictK sample_dict) False))
     (Arc 6 (Type (SchemaK (sample_schema ''B'' 5 IntK)) False)) (dummy_pos, dummy_pos) sample_resolver = (True, sample_resolver)"
  by (subst (1 2) dict_union_first_schema [of _ sample_dict _ "Arc 4 (Type (SchemaK (sample_schema ''A'' 3 StrK)) False)" _
        "sample_schema ''A'' 3 StrK"])
    (simp_all add: check_type_dict_schema [of _ sample_dict _ "sample_schema ''B'' 5 IntK"] sample_assign
      kind_subsume_eq add_error_def add_diagnostic_def sample_diagnostics)

end
