(* ===== verification/Value_Iter.thy ===== *)
theory Value_Iter
  imports Value_Bin_Aug
begin

text \<open>
  Iteration over runtime values (\<open>crates/runtime/src/value/iter.rs\<close>): strings by
  character, lists by element, dicts and schema instances by key. Positions are \<open>i32\<close>.
\<close>

section \<open>Iterators\<close>

record value_iterator =
  it_len :: nat
  it_cur_key :: val
  it_cur_val :: val
  it_keys :: "string list"
  it_pos :: i32

definition default_iterator :: value_iterator where
  "default_iterator = \<lparr>it_len = 0, it_cur_key = undefined_value, it_cur_val = undefined_value,
     it_keys = [], it_pos = 0\<rparr>"

definition from_value :: "val \<Rightarrow> value_iterator res" where
  "from_value p =
     (if \<not> is_str p \<and> \<not> is_list p \<and> \<not> is_config p then Inl (NotIterable p)
      else case value_is_empty p of
        Inl e \<Rightarrow> Inl e
      | Inr no_items \<Rightarrow>
          if no_items then Inr default_iterator
          else Inr (case p of
              str_value s \<Rightarrow> default_iterator\<lparr>it_len := length s\<rparr>
            | list_value vs \<Rightarrow> default_iterator\<lparr>it_len := length vs\<rparr>
            | dict_value d \<Rightarrow> default_iterator\<lparr>it_len := length (dv_values d),
                it_keys := im_keys (dv_values d)\<rparr>
            | schema_value s \<Rightarrow> default_iterator\<lparr>it_len := length (dv_values (sv_config s)),
                it_keys := im_keys (dv_values (sv_config s))\<rparr>
            | _ \<Rightarrow> default_iterator))"

text \<open>\<open>len as i32\<close>\<close>

definition len_i32 :: "nat \<Rightarrow> i32" where
  "len_i32 n = of_nat n"

definition is_end :: "value_iterator \<Rightarrow> bool" where
  "is_end it \<longleftrightarrow> sint (len_i32 (it_len it)) \<le> sint (it_pos it)"

definition iter_key :: "value_iterator \<Rightarrow> val option" where
  "iter_key it = (if it_pos it = 0 \<or> sint (len_i32 (it_len it)) < sint (it_pos it) then None
     else Some (it_cur_key it))"

definition iter_value :: "value_iterator \<Rightarrow> val option" where
  "iter_value it = (if it_pos it = 0 then None else Some (it_cur_val it))"

text \<open>The position as an index, and the step to the next position.\<close>

definition pos_index :: "value_iterator \<Rightarrow> nat" where
  "pos_index it = as_usize (sign_extend (it_pos it))"

definition advance :: "val \<Rightarrow> val \<Rightarrow> value_iterator \<Rightarrow> value_iterator" where
  "advance k v it = it\<lparr>it_cur_key := k, it_cur_val := v, it_pos := it_pos it + 1\<rparr>"

text \<open>The step over the entries of a config yields the key; the key is looked up with the
  index operator, which panics when it is missing.\<close>

definition next_entry :: "(string, val) imap \<Rightarrow> value_iterator \<Rightarrow> (val option \<times> value_iterator) res" where
  "next_entry m it =
     (if pos_index it < length (it_keys it)
      then (let key = it_keys it ! pos_index it
            in case im_get m key of
                 Some v \<Rightarrow> Inr (Some (str_value key), advance (str_value key) v it)
               | None \<Rightarrow> Inl (RustPanic IndexOutOfBounds))
      else Inl (RustPanic IndexOutOfBounds))"

definition next_list_item :: "val list \<Rightarrow> value_iterator \<Rightarrow> (val option \<times> value_iterator) res" where
  "next_list_item vs it =
     (if pos_index it < length vs
      then Inr (Some (vs ! pos_index it),
             advance (int_value (sign_extend (it_pos it))) (vs ! pos_index it) it)
      else Inl (RustPanic IndexOutOfBounds))"

definition next_char :: "string \<Rightarrow> value_iterator \<Rightarrow> (val option \<times> value_iterator) res" where
  "next_char s it =
     (if sint (len_i32 (length (chars s))) \<le> sint (it_pos it) then Inr (None, it)
      else if pos_index it < length (chars s)
      then Inr (Some (str_value (chars s ! pos_index it)),
             advance (int_value (sign_extend (it_pos it))) (str_value (chars s ! pos_index it)) it)
      else Inl (RustPanic UnwrapNone))"

definition iter_next :: "val \<Rightarrow> value_iterator \<Rightarrow> (val option \<times> value_iterator) res" where
  "iter_next host it =
     (case value_len host of
        Inl e \<Rightarrow> Inl e
      | Inr len \<Rightarrow>
          if len = 0 then Inr (None, it)
          else if sint (len_i32 len) \<le> sint (it_pos it) then Inr (None, it)
          else case host of
            str_value s \<Rightarrow> next_char s it
          | list_value vs \<Rightarrow> next_list_item vs it
          | dict_value d \<Rightarrow> next_entry (dv_values d) it
          | schema_value s \<Rightarrow> next_entry (dv_values (sv_config s)) it
          | _ \<Rightarrow> Inl (NotIterable host))"

definition next_with_key_value ::
  "val \<Rightarrow> value_iterator \<Rightarrow> ((val \<times> val \<times> val) option \<times> value_iterator) res" where
  "next_with_key_value host it =
     (case iter_next host it of
        Inl e \<Rightarrow> Inl e
      | Inr (Some v, it') \<Rightarrow> Inr (Some (v, it_cur_key it', it_cur_val it'), it')
      | Inr (None, it') \<Rightarrow> Inr (None, it'))"

section \<open>Running an iterator to its end\<close>

text \<open>The loops of the evaluator call \<open>next_with_key_value\<close> until it returns none. The
  position grows with every step, up to \<open>i32::MAX\<close> at most.\<close>

lemma advance_pos: "sint (it_pos it) < 2 ^ 31 - 1 \<Longrightarrow> sint (it_pos it + 1) = sint (it_pos it) + 1"
proof -
  assume *: "sint (it_pos it) < 2 ^ 31 - 1"
  have "i32_range (sint (it_pos it) + 1)"
    using * i32_range_sint [of "it_pos it"] by (simp add: i32_range_def)
  then have "sint (word_of_int (sint (it_pos it) + 1) :: i32) = sint (it_pos it) + 1"
    by (rule sint_of_int_i32)
  then show ?thesis by (simp add: word_of_int_minus)
qed

lemma iter_next_advances:
  assumes "iter_next host it = Inr (Some v, it')"
  shows "sint (it_pos it) < 2 ^ 31 - 1 \<and> it_pos it' = it_pos it + 1"
proof -
  have "sint (len_i32 n) \<le> 2 ^ 31 - 1" for n
    using i32_range_sint [of "len_i32 n"] by (simp add: i32_range_def)
  then have bound: "sint (it_pos it) < 2 ^ 31 - 1" if "\<not> sint (len_i32 n) \<le> sint (it_pos it)" for n
    using that by (meson less_le_trans not_le)
  show ?thesis
    using assms
    by (auto simp: iter_next_def next_char_def next_list_item_def next_entry_def advance_def Let_def
        dest: bound [simplified] split: sum.splits if_splits val.splits option.splits)
qed

function drain :: "val \<Rightarrow> value_iterator \<Rightarrow> (val \<times> val \<times> val) list res" where
  "drain host it =
     (case next_with_key_value host it of
        Inl e \<Rightarrow> Inl e
      | Inr (None, it') \<Rightarrow> Inr []
      | Inr (Some item, it') \<Rightarrow> (case drain host it' of Inl e \<Rightarrow> Inl e | Inr items \<Rightarrow> Inr (item # items)))"
  by pat_completeness auto
termination
proof (relation "measure (\<lambda>(host, it). nat (2 ^ 31 - sint (it_pos it)))", goal_cases)
  case (2 host it y a it' item)
  then obtain v where "iter_next host it = Inr (Some v, it')"
    by (auto simp: next_with_key_value_def split: sum.splits option.splits prod.splits)
  from iter_next_advances [OF this] advance_pos [of it] show ?case by simp
qed simp

declare drain.simps [simp del]

definition iter_items :: "val \<Rightarrow> (val \<times> val \<times> val) list res" where
  "iter_items host = (case from_value host of Inl e \<Rightarrow> Inl e | Inr it \<Rightarrow> drain host it)"

section \<open>What an iteration visits\<close>

text \<open>The values a loop over a value sees, as triples of the loop value, the key and the
  element.\<close>

definition visited :: "val \<Rightarrow> (val \<times> val \<times> val) list" where
  "visited host = (case host of
     str_value s \<Rightarrow> map (\<lambda>i. (str_value (chars s ! i), int_value (of_nat i), str_value (chars s ! i)))
       [0..<length (chars s)]
   | list_value vs \<Rightarrow> map (\<lambda>i. (vs ! i, int_value (of_nat i), vs ! i)) [0..<length vs]
   | dict_value d \<Rightarrow> map (\<lambda>(k, v). (str_value k, str_value k, v)) (dv_values d)
   | schema_value s \<Rightarrow> map (\<lambda>(k, v). (str_value k, str_value k, v)) (dv_values (sv_config s))
   | _ \<Rightarrow> [])"

lemma sint_pos: "n < 2 ^ 31 \<Longrightarrow> sint (of_nat n :: i32) = int n"
proof -
  assume "n < 2 ^ 31"
  then have "i32_range (int n)" by (simp add: i32_range_def)
  then show ?thesis using sint_of_int_i32 [of "int n"] by simp
qed

lemma as_usize_of_nat: "n < 2 ^ 31 \<Longrightarrow> as_usize (of_nat n) = n"
  by (simp add: as_usize_def unat_of_nat take_bit_nat_eq_self)

lemma sign_extend_of_nat: "n < 2 ^ 31 \<Longrightarrow> sign_extend (of_nat n) = of_nat n"
  by (simp add: sign_extend_def sint_pos)

lemmas pos_simps = sint_pos pos_index_def as_usize_of_nat sign_extend_of_nat len_i32_def advance_def

text \<open>A loop that takes the items one by one, at positions from \<open>i\<close> to \<open>n\<close>.\<close>

lemma drain_from:
  assumes "\<And>j it. j < n \<Longrightarrow> it_pos it = of_nat j \<Longrightarrow> it_keys it = ks \<Longrightarrow>
      \<exists>it'. next_with_key_value host it = Inr (Some (f j), it') \<and>
        it_pos it' = of_nat (Suc j) \<and> it_keys it' = ks"
    and "\<And>it. it_pos it = of_nat n \<Longrightarrow> \<exists>it'. next_with_key_value host it = Inr (None, it')"
  shows "i \<le> n \<Longrightarrow> it_pos it = of_nat i \<Longrightarrow> it_keys it = ks \<Longrightarrow> drain host it = Inr (map f [i..<n])"
proof (induction "n - i" arbitrary: i it)
  case 0
  then show ?case using assms(2) [of it] by (subst drain.simps) auto
next
  case (Suc m)
  then have "i < n" by simp
  from assms(1) [OF this Suc.prems(2,3)] obtain it' where
    it': "next_with_key_value host it = Inr (Some (f i), it')" "it_pos it' = of_nat (Suc i)" "it_keys it' = ks"
    by blast
  from Suc it'(2,3) have "drain host it' = Inr (map f [Suc i..<n])" by simp
  with it'(1) \<open>i < n\<close> show ?case by (subst drain.simps) (simp add: upt_conv_Cons)
qed

lemma drain_list:
  assumes "length vs < 2 ^ 31" "it_pos it = 0"
  shows "drain (list_value vs) it = Inr (visited (list_value vs))"
proof -
  have "drain (list_value vs) it =
    Inr (map (\<lambda>i. (vs ! i, int_value (of_nat i), vs ! i)) [0..<length vs])"
    using assms
    by (intro drain_from [where ks = "it_keys it"])
      (auto simp: next_with_key_value_def iter_next_def value_len_def next_list_item_def pos_simps)
  then show ?thesis by (simp add: visited_def)
qed

lemma drain_str:
  assumes "length s < 2 ^ 31" "it_pos it = 0"
  shows "drain (str_value s) it = Inr (visited (str_value s))"
proof -
  have "length (chars s) < 2 ^ 31" "length (chars s) \<le> length s"
    using assms(1) length_chars_le [of s] by simp_all
  then have "drain (str_value s) it = Inr (map (\<lambda>i. (str_value (chars s ! i),
      int_value (of_nat i), str_value (chars s ! i))) [0..<length (chars s)])"
    using assms
    by (intro drain_from [where ks = "it_keys it"])
      (auto simp: next_with_key_value_def iter_next_def value_len_def next_char_def pos_simps)
  then show ?thesis by (simp add: visited_def)
qed

text \<open>The entries of a map with distinct keys, found again by key.\<close>

lemma im_get_nth: "im_wf m \<Longrightarrow> i < length m \<Longrightarrow> im_get m (fst (m ! i)) = Some (snd (m ! i))"
  by (simp add: im_wf_def im_get_def im_keys_def map_of_is_SomeI)

lemma drain_config:
  assumes "im_wf m" "length m < 2 ^ 31" "it_pos it = 0" "it_keys it = im_keys m" "value_len host = Inr (length m)"
    and "\<And>it. iter_next host it = (if length m = 0 \<or> sint (len_i32 (length m)) \<le> sint (it_pos it)
        then Inr (None, it) else next_entry m it)"
  shows "drain host it = Inr (map (\<lambda>(k, v). (str_value k, str_value k, v)) m)"
proof -
  have "drain host it = Inr (map (\<lambda>i. (str_value (fst (m ! i)), str_value (fst (m ! i)), snd (m ! i))) [0..<length m])"
    using assms
    by (intro drain_from [where ks = "im_keys m"])
      (auto simp: next_with_key_value_def next_entry_def pos_simps im_get_nth im_keys_def Let_def)
  also have "map (\<lambda>i. (str_value (fst (m ! i)), str_value (fst (m ! i)), snd (m ! i))) [0..<length m] =
      map (\<lambda>(k, v). (str_value k, str_value k, v)) m"
    by (rule nth_equalityI) (simp_all add: case_prod_beta)
  finally show ?thesis .
qed

text \<open>The values a loop can visit at positions of type \<open>i32\<close>.\<close>

definition iterable :: "val \<Rightarrow> bool" where
  "iterable host \<longleftrightarrow> (case host of
     str_value s \<Rightarrow> length s < 2 ^ 31
   | list_value vs \<Rightarrow> length vs < 2 ^ 31
   | dict_value d \<Rightarrow> im_wf (dv_values d) \<and> length (dv_values d) < 2 ^ 31
   | schema_value s \<Rightarrow> im_wf (dv_values (sv_config s)) \<and> length (dv_values (sv_config s)) < 2 ^ 31
   | _ \<Rightarrow> False)"

lemma iter_items_visited: "iterable host \<Longrightarrow> iter_items host = Inr (visited host)"
proof (cases host)
  case (str_value s)
  assume "iterable host"
  with str_value show ?thesis
    by (auto simp: iter_items_def from_value_def is_str_def iterable_def value_is_empty_def value_len_def
        default_iterator_def drain_str)
next
  case (list_value vs)
  assume "iterable host"
  with list_value show ?thesis
    by (auto simp: iter_items_def from_value_def is_list_def iterable_def value_is_empty_def value_len_def
        default_iterator_def drain_list)
next
  case (dict_value d)
  assume *: "iterable host"
  with dict_value have "drain host it = Inr (visited host)"
    if "it_pos it = 0" "it_keys it = im_keys (dv_values d)" for it
    using that by (simp add: visited_def, intro drain_config)
      (auto simp: iterable_def value_len_def iter_next_def)
  with dict_value show ?thesis
    by (auto simp: iter_items_def from_value_def is_config_def value_is_empty_def value_len_def
        default_iterator_def im_keys_def)
next
  case (schema_value s)
  assume *: "iterable host"
  with schema_value have "drain host it = Inr (visited host)"
    if "it_pos it = 0" "it_keys it = im_keys (dv_values (sv_config s))" for it
    using that by (simp add: visited_def, intro drain_config)
      (auto simp: iterable_def value_len_def iter_next_def)
  with schema_value show ?thesis
    by (auto simp: iter_items_def from_value_def is_config_def value_is_empty_def value_len_def
        default_iterator_def im_keys_def)
qed (simp_all add: iterable_def)

text \<open>C23. A loop over a string, list, dict or schema instance ends, after visiting every
  character, element or key once and in order, each with its position or key and its
  element, provided the length fits the positions and the keys are distinct.\<close>
theorem iteration_complete:
  assumes "iterable host"
  shows "iter_items host = Inr (visited host)"
  using assms by (rule iter_items_visited)

theorem iteration_complete_witness:
  "iter_items (list_value [int_value 7, none_value]) =
     Inr [(int_value 7, int_value 0, int_value 7), (none_value, int_value 1, none_value)]"
  using iteration_complete [of "list_value [int_value 7, none_value]"]
  by (simp add: iterable_def visited_def)

text \<open>Other values are refused when the iterator is made.\<close>

lemma iter_items_refused:
  "\<not> is_str host \<Longrightarrow> \<not> is_list host \<Longrightarrow> \<not> is_config host \<Longrightarrow> iter_items host = Inl (NotIterable host)"
  by (simp add: iter_items_def from_value_def)

end
