(* ===== verification/Eval_Expr.thy ===== *)
theory Eval_Expr
  imports Value_Iter Ast_Op
begin

text \<open>
  Evaluation of expressions (\<open>crates/evaluator/src/node.rs\<close>, \<open>calculation.rs\<close>): literals,
  operators with short circuits, chained comparisons, conditionals, lists with unpacking,
  subscripts, quantifiers and comprehensions. Identifiers, scopes and the remaining
  expressions are operations of the evaluator the definitions take as parameters; the
  position that \<open>walk_expr\<close> records for panic messages is not represented. The union of
  the evaluator (\<open>union.rs\<close>) has the code of \<open>val_union.rs\<close> with another resolver of
  schemas, so \<open>union_entry\<close> stands for it.
\<close>

section \<open>Units\<close>

text \<open>Number suffixes (\<open>crates/runtime/src/units/mod.rs\<close>).\<close>

definition EXPONENTS :: "(string \<times> int) list" where
  "EXPONENTS = [(''n'', -3), (''u'', -2), (''m'', -1), (''k'', 1), (''K'', 1), (''M'', 2),
     (''G'', 3), (''T'', 4), (''P'', 5)]"

definition INVALID_UNITS :: "string list" where
  "INVALID_UNITS = [''ni'', ''ui'', ''mi'', ''ki'']"

datatype eval_error = MissingExpression | OtherError string

datatype eval_stop =
    Anyhow eval_error
  | Panicked panic
  | ExpectFailed string eval_error
  | InvalidSuffix string
  | LoopVariables nat
  | OnlyRemoveItem

type_synonym ('s, 'a) eval = "'s \<Rightarrow> (eval_stop + 'a) \<times> 's"

definition validate_unit :: "string \<Rightarrow> bool" where
  "validate_unit u \<longleftrightarrow> u \<noteq> [] \<and> length u \<le> 2 \<and> u \<notin> set INVALID_UNITS \<and>
     map_of EXPONENTS (take 1 u) \<noteq> None"

definition cal_num :: "(f64 \<Rightarrow> f64 \<Rightarrow> f64) \<Rightarrow> i64 \<Rightarrow> string \<Rightarrow> eval_stop + f64" where
  "cal_num powf v u =
     (if \<not> validate_unit u then Inl (InvalidSuffix u)
      else let iec = 1 < length u \<and> take 1 (drop 1 u) = ''i'';
               base = f64_of_i64 (if iec then 1024 else 1000);
               u = (if iec then take 1 u else u)
           in case map_of EXPONENTS u of
                None \<Rightarrow> Inl (InvalidSuffix u)
              | Some e \<Rightarrow> Inr (f64_mul (f64_of_i64 v) (powf base (f64_of_i64 (word_of_int e)))))"

definition u64_unit_value :: "string \<Rightarrow> 64 word" where
  "u64_unit_value u =
     (if u = ''k'' then 1000 else if u = ''K'' then 1000 else if u = ''M'' then 1000000
      else if u = ''G'' then 1000000000 else if u = ''T'' then 1000000000000
      else if u = ''P'' then 1000000000000000 else if u = ''Ki'' then 1024
      else if u = ''Mi'' then 1048576 else if u = ''Gi'' then 1073741824
      else if u = ''Ti'' then 1099511627776 else if u = ''Pi'' then 1125899906842624 else 1)"

definition real_uint_value :: "i64 \<Rightarrow> string \<Rightarrow> int" where
  "real_uint_value raw u = sint raw * uint (u64_unit_value u)"

section \<open>Syntax\<close>

text \<open>Identifiers are lists of names; \<open>OtherExpr\<close> stands for the expressions that are
  evaluated by a parameter.\<close>

datatype 'o expr =
    Identifier "string list"
  | Unary unary_op "'o expr"
  | Binary "'o expr" bin_op "'o expr"
  | IfExpr "'o expr" "'o expr" "'o expr"
  | Paren "'o expr"
  | Quant quant_operation "'o expr" "string list list" "'o expr" "'o expr option"
  | ListExpr "'o expr list"
  | ListIfItem "'o expr" "'o expr list" "'o expr option"
  | ListComp "'o expr" "'o comp_clause list"
  | Starred "'o expr"
  | DictComp "'o expr option" "'o expr" config_entry_op "'o comp_clause list"
  | Subscript "'o expr" "'o expr option" "'o expr option" "'o expr option" "'o expr option" bool
  | Compare "'o expr" "cmp_op list" "'o expr list"
  | NumberLit "number_binary_suffix option" number_lit_value
  | StringLit string
  | NameConstantLit name_constant
  | MissingExpr
  | OtherExpr 'o
and 'o comp_clause = CompClause (cc_targets: "string list list") (cc_iter: "'o expr") (cc_ifs: "'o expr list")

section \<open>Computations of the evaluator\<close>

definition ret :: "'a \<Rightarrow> ('s, 'a) eval" where
  "ret v s = (Inr v, s)"

definition stop :: "eval_stop \<Rightarrow> ('s, 'a) eval" where
  "stop x s = (Inl x, s)"

definition bind :: "('s, 'a) eval \<Rightarrow> ('a \<Rightarrow> ('s, 'b) eval) \<Rightarrow> ('s, 'b) eval" where
  "bind m f s = (case m s of (Inl x, s') \<Rightarrow> (Inl x, s') | (Inr v, s') \<Rightarrow> f v s')"

text \<open>An operation of the runtime, which may panic.\<close>

definition lift :: "'a res \<Rightarrow> ('s, 'a) eval" where
  "lift r s = (case r of Inl e \<Rightarrow> (Inl (Panicked e), s) | Inr v \<Rightarrow> (Inr v, s))"

text \<open>\<open>expect\<close> turns an error into a panic.\<close>

definition expecting :: "string \<Rightarrow> ('s, 'a) eval \<Rightarrow> ('s, 'a) eval" where
  "expecting msg m s = (case m s of
     (Inl (Anyhow e), s') \<Rightarrow> (Inl (ExpectFailed msg e), s')
   | r \<Rightarrow> r)"

lemma bind_cong [fundef_cong]:
  "s = s' \<Longrightarrow> m s' = m' s' \<Longrightarrow> (\<And>v s1. m' s' = (Inr v, s1) \<Longrightarrow> f v s1 = f' v s1) \<Longrightarrow>
   bind m f s = bind m' f' s'"
  by (auto simp: bind_def split: prod.split sum.split)

lemma expecting_cong [fundef_cong]:
  "s = s' \<Longrightarrow> m s' = m' s' \<Longrightarrow> msg = msg' \<Longrightarrow> expecting msg m s = expecting msg' m' s'"
  by (simp add: expecting_def)

lemmas eval_defs = ret_def stop_def bind_def lift_def expecting_def

definition RUNTIME_ERROR_MSG :: string where "RUNTIME_ERROR_MSG = ''Runtime error''"

record ('o, 's) evaluator =
  ev_cfg :: context_config
  ev_powf :: "f64 \<Rightarrow> f64 \<Rightarrow> f64"
  ev_resolve :: resolver
  ev_type_pack_and_check :: "val \<Rightarrow> string \<Rightarrow> val res"
  ev_identifier :: "string list \<Rightarrow> ('s, val) eval"
  ev_store :: "string list \<Rightarrow> val \<Rightarrow> ('s, val) eval"
  ev_enter_scope :: "'s \<Rightarrow> 's"
  ev_leave_scope :: "'s \<Rightarrow> 's"
  ev_add_local_var :: "string \<Rightarrow> 's \<Rightarrow> 's"
  ev_remove_local_var :: "string \<Rightarrow> 's \<Rightarrow> 's"
  ev_clear_local_vars :: "'s \<Rightarrow> 's"
  ev_walk_other :: "'o \<Rightarrow> ('s, val) eval"

section \<open>Operators\<close>

fun join_dot :: "string list \<Rightarrow> string" where
  "join_dot [] = []"
| "join_dot [n] = n"
| "join_dot (n # m # ns) = n @ ''.'' @ join_dot (m # ns)"

definition apply_unary :: "unary_op \<Rightarrow> val \<Rightarrow> val res" where
  "apply_unary op v = (case op of
     UAdd \<Rightarrow> unary_plus v
   | USub \<Rightarrow> unary_minus v
   | Invert \<Rightarrow> Inr (unary_not v)
   | UnaryNot \<Rightarrow> Inr (unary_l_not v))"

definition apply_binary :: "('o, 's) evaluator \<Rightarrow> bin_op \<Rightarrow> val \<Rightarrow> val \<Rightarrow> val res" where
  "apply_binary ev op l r = (case op of
     BinAdd \<Rightarrow> bin_add (ev_cfg ev) l r
   | BinSub \<Rightarrow> bin_sub (ev_cfg ev) l r
   | BinMul \<Rightarrow> bin_mul (ev_cfg ev) l r
   | BinDiv \<Rightarrow> bin_div l r
   | BinFloorDiv \<Rightarrow> bin_floor_div l r
   | BinMod \<Rightarrow> bin_mod l r
   | BinPow \<Rightarrow> bin_pow (ev_powf ev) (ev_cfg ev) l r
   | BinLShift \<Rightarrow> bin_bit_lshift (ev_cfg ev) l r
   | BinRShift \<Rightarrow> bin_bit_rshift (ev_cfg ev) l r
   | BinBitAnd \<Rightarrow> bin_bit_and l r
   | BinBitOr \<Rightarrow> bin_bit_or (ev_resolve ev) l r
   | BinBitXor \<Rightarrow> bin_bit_xor l r
   | BinAnd \<Rightarrow> Inr (bool_value (logic_and l r))
   | BinOr \<Rightarrow> Inr (bool_value (logic_or l r))
   | BinAs \<Rightarrow> ev_type_pack_and_check ev l (as_str r))"

definition res_bool :: "bool res \<Rightarrow> val res" where
  "res_bool r = (case r of Inl e \<Rightarrow> Inl e | Inr b \<Rightarrow> Inr (bool_value b))"

definition apply_cmp :: "cmp_op \<Rightarrow> val \<Rightarrow> val \<Rightarrow> val res" where
  "apply_cmp op l r = (case op of
     CmpEq \<Rightarrow> Inr (bool_value (cmp_equal l r))
   | CmpNotEq \<Rightarrow> Inr (bool_value (cmp_not_equal l r))
   | CmpGt \<Rightarrow> res_bool (cmp_greater_than l r)
   | CmpGtE \<Rightarrow> res_bool (cmp_greater_than_or_equal l r)
   | CmpLt \<Rightarrow> res_bool (cmp_less_than l r)
   | CmpLtE \<Rightarrow> res_bool (cmp_less_than_or_equal l r)
   | CmpIs \<Rightarrow> Inr (bool_value (cmp_equal l r))
   | CmpIsNot \<Rightarrow> Inr (bool_value (\<not> cmp_equal l r))
   | CmpNot \<Rightarrow> Inr (bool_value (\<not> cmp_equal l r))
   | CmpNotIn \<Rightarrow> res_bool (value_not_in l r)
   | CmpIn \<Rightarrow> res_bool (value_in l r))"

definition name_constant_value :: "name_constant \<Rightarrow> val" where
  "name_constant_value c = (case c of
     ConstTrue \<Rightarrow> bool_value True
   | ConstFalse \<Rightarrow> bool_value False
   | ConstNone \<Rightarrow> none_value
   | ConstUndefined \<Rightarrow> undefined_value)"

definition number_lit_value ::
  "('o, 's) evaluator \<Rightarrow> number_binary_suffix option \<Rightarrow> number_lit_value \<Rightarrow> eval_stop + val" where
  "number_lit_value ev suffix n = (case n of
     NumInt i \<Rightarrow> (case suffix of
         Some u \<Rightarrow> (case cal_num (ev_powf ev) i (suffix_value u) of
             Inl x \<Rightarrow> Inl x
           | Inr v \<Rightarrow> Inr (unit_value v i (suffix_value u)))
       | None \<Rightarrow> Inr (int_value i))
   | NumFloat f \<Rightarrow> Inr (float_value f))"

section \<open>Loops\<close>

text \<open>The local variables of a loop and their stores, with one variable for the loop value
  or two for key and element.\<close>

fun add_local_vars :: "('o, 's) evaluator \<Rightarrow> string list list \<Rightarrow> ('s, unit) eval" where
  "add_local_vars ev [] s = (Inr (), s)"
| "add_local_vars ev ([] # vs) s = (Inl (Panicked (RustPanic IndexOutOfBounds)), s)"
| "add_local_vars ev ((n # ns) # vs) s = add_local_vars ev vs (ev_add_local_var ev n s)"

fun remove_local_vars :: "('o, 's) evaluator \<Rightarrow> string list list \<Rightarrow> ('s, unit) eval" where
  "remove_local_vars ev [] s = (Inr (), s)"
| "remove_local_vars ev ([] # vs) s = (Inl (Panicked (RustPanic IndexOutOfBounds)), s)"
| "remove_local_vars ev ((n # ns) # vs) s = remove_local_vars ev vs (ev_remove_local_var ev n s)"

definition store_targets ::
  "('o, 's) evaluator \<Rightarrow> string list list \<Rightarrow> val \<times> val \<times> val \<Rightarrow> ('s, unit) eval" where
  "store_targets ev targets item =
     bind (add_local_vars ev targets) (\<lambda>_.
       (case item of (next_value, key, element) \<Rightarrow>
         (case targets of
            [v] \<Rightarrow> bind (ev_store ev v next_value) (\<lambda>_. ret ())
          | [k, v] \<Rightarrow> bind (ev_store ev k key) (\<lambda>_. bind (ev_store ev v element) (\<lambda>_. ret ()))
          | _ \<Rightarrow> stop (LoopVariables (length targets)))))"

text \<open>The start of a quantifier, and what it does with the value of its body: whether to
  continue, and with which result.\<close>

definition quant_start :: "quant_operation \<Rightarrow> val \<Rightarrow> val" where
  "quant_start op target = (case op of
     QuantAll \<Rightarrow> bool_value True
   | QuantAny \<Rightarrow> bool_value False
   | QuantMap \<Rightarrow> mk_list None
   | QuantFilter \<Rightarrow> deep_copy target)"

definition quant_step ::
  "quant_operation \<Rightarrow> val \<Rightarrow> val \<Rightarrow> val \<Rightarrow> eval_stop + (bool \<times> val)" where
  "quant_step op result next_value v = (case op of
     QuantAll \<Rightarrow> Inr (if is_truthy v then (True, result) else (False, bool_value False))
   | QuantAny \<Rightarrow> Inr (if is_truthy v then (False, bool_value True) else (True, result))
   | QuantFilter \<Rightarrow>
       if is_truthy v then Inr (True, result)
       else if is_dict result then
         (case dict_remove result (as_str next_value) of
            Inl e \<Rightarrow> Inl (Panicked e) | Inr r \<Rightarrow> Inr (True, r))
       else if is_list result then
         (case list_remove result next_value of
            Inl e \<Rightarrow> Inl (Panicked e) | Inr r \<Rightarrow> Inr (True, r))
       else Inl OnlyRemoveItem
   | QuantMap \<Rightarrow> (case list_append result v of
            Inl e \<Rightarrow> Inl (Panicked e) | Inr r \<Rightarrow> Inr (True, r)))"

definition is_unpacked :: "'o expr \<Rightarrow> bool" where
  "is_unpacked e = (case e of Starred _ \<Rightarrow> True | ListIfItem _ _ _ \<Rightarrow> True | _ \<Rightarrow> False)"

text \<open>What a comprehension collects: an element, or a key with a value and an operator.\<close>

datatype 'o comp_item = CompList "'o expr" | CompDict "'o expr" "'o expr" config_entry_op

definition in_scope :: "('s \<Rightarrow> 's) \<Rightarrow> ('s \<Rightarrow> 's) \<Rightarrow> ('s, 'a) eval \<Rightarrow> ('s, 'a) eval" where
  "in_scope enter leave m s = (case m (enter s) of (r, s') \<Rightarrow> (r, leave s'))"

lemma in_scope_cong [fundef_cong]:
  "s = s' \<Longrightarrow> enter = enter' \<Longrightarrow> leave = leave' \<Longrightarrow> m (enter' s') = m' (enter' s') \<Longrightarrow>
   in_scope enter leave m s = in_scope enter' leave' m' s'"
  by (simp add: in_scope_def)

text \<open>Insertion of an entry into a collected dict (\<open>calculation.rs\<close>).\<close>

definition eval_dict_merge_key_value_pair ::
  "('o, 's) evaluator \<Rightarrow> val \<Rightarrow> string \<Rightarrow> val \<Rightarrow> config_entry_op \<Rightarrow> i32 option \<Rightarrow> bool \<Rightarrow> val res" where
  "eval_dict_merge_key_value_pair ev p key v op insert_index check =
     (if is_config p
      then union_entry (ev_resolve ev)
             \<lparr>list_override = False, idempotent_check = check, config_resolve = False\<rparr> True p
             (dict_value (DictValue [(key, v)] [(key, op)]
                (case insert_index of Some i \<Rightarrow> [(key, i)] | None \<Rightarrow> []) [] None None))
      else Inl (InvalidConfig ''invalid dict insert value''))"

definition eval_dict_insert ::
  "('o, 's) evaluator \<Rightarrow> val \<Rightarrow> string \<Rightarrow> val \<Rightarrow> config_entry_op \<Rightarrow> i32 option \<Rightarrow> val res" where
  "eval_dict_insert ev p key v op insert_index =
     eval_dict_merge_key_value_pair ev p key v op insert_index True"

section \<open>Handlers of single expressions\<close>

text \<open>Each handler evaluates its operands with \<open>walk\<close>, which is \<open>walk_expr\<close> below.\<close>

type_synonym ('o, 's) walker = "'o expr \<Rightarrow> ('s, val) eval"

definition walk_unary_expr :: "('o, 's) walker \<Rightarrow> unary_op \<Rightarrow> 'o expr \<Rightarrow> ('s, val) eval" where
  "walk_unary_expr walk op operand = bind (walk operand) (\<lambda>v. lift (apply_unary op v))"

text \<open>The right operand of \<open>as\<close> is not evaluated: an identifier gives its text.\<close>

definition walk_binary_expr ::
  "('o, 's) evaluator \<Rightarrow> ('o, 's) walker \<Rightarrow> 'o expr \<Rightarrow> bin_op \<Rightarrow> 'o expr \<Rightarrow> ('s, val) eval" where
  "walk_binary_expr ev walk l op r =
     (if op = BinAnd then bind (walk l) (\<lambda>v. if is_truthy v then walk r else ret v)
      else if op = BinOr then bind (walk l) (\<lambda>v. if is_truthy v then ret v else walk r)
      else bind (walk l) (\<lambda>v.
             bind (if op = BinAs
                   then (case r of Identifier names \<Rightarrow> ret (str_value (join_dot names)) | _ \<Rightarrow> ret none_value)
                   else walk r)
               (\<lambda>w. lift (apply_binary ev op v w))))"

definition walk_if_expr ::
  "('o, 's) walker \<Rightarrow> 'o expr \<Rightarrow> 'o expr \<Rightarrow> 'o expr \<Rightarrow> ('s, val) eval" where
  "walk_if_expr walk body cond orelse =
     bind (walk cond) (\<lambda>c. if is_truthy c then walk body else walk orelse)"

definition walk_bound :: "('o, 's) walker \<Rightarrow> 'o expr option \<Rightarrow> ('s, val) eval" where
  "walk_bound walk bound = (case bound of None \<Rightarrow> ret none_value | Some e \<Rightarrow> walk e)"

definition walk_subscript ::
  "('o, 's) walker \<Rightarrow> 'o expr \<Rightarrow> 'o expr option \<Rightarrow> 'o expr option \<Rightarrow> 'o expr option \<Rightarrow>
   'o expr option \<Rightarrow> bool \<Rightarrow> ('s, val) eval" where
  "walk_subscript walk x index lower upper step has_question =
     bind (walk x) (\<lambda>v. case index of
         Some i \<Rightarrow> bind (walk i) (\<lambda>w.
           lift (if has_question then bin_subscr_option v w else bin_subscr v w))
       | None \<Rightarrow>
           bind (walk_bound walk lower) (\<lambda>l.
           bind (walk_bound walk upper) (\<lambda>u.
           bind (walk_bound walk step) (\<lambda>t.
             lift (if has_question then (if is_truthy v then list_slice v l u t else Inr none_value)
                   else list_slice v l u t)))))"

text \<open>A comparison with one comparator, whose left value is known.\<close>

definition walk_single_comparator ::
  "('o, 's) walker \<Rightarrow> val \<Rightarrow> cmp_op list \<Rightarrow> 'o expr \<Rightarrow> ('s, val) eval" where
  "walk_single_comparator walk v ops c =
     bind (walk c) (\<lambda>w. case ops of
         [] \<Rightarrow> stop (Panicked (RustPanic IndexOutOfBounds))
       | op # _ \<Rightarrow> lift (apply_cmp op v w))"

lemma walk_unary_expr_cong [fundef_cong]:
  "op = op' \<Longrightarrow> e = e' \<Longrightarrow> s = s' \<Longrightarrow> w e' s' = w' e' s' \<Longrightarrow> walk_unary_expr w op e s = walk_unary_expr w' op' e' s'"
  by (simp add: walk_unary_expr_def bind_def)

lemma walk_binary_expr_cong [fundef_cong]:
  "ev = ev' \<Longrightarrow> l = l' \<Longrightarrow> op = op' \<Longrightarrow> r = r' \<Longrightarrow> s = s' \<Longrightarrow> (\<And>s. w l' s = w' l' s) \<Longrightarrow> (\<And>s. w r' s = w' r' s) \<Longrightarrow>
   walk_binary_expr ev w l op r s = walk_binary_expr ev' w' l' op' r' s'"
  by (auto simp: walk_binary_expr_def fun_eq_iff intro!: bind_cong split: if_splits)

lemma walk_if_expr_cong [fundef_cong]:
  "b = b' \<Longrightarrow> c = c' \<Longrightarrow> e = e' \<Longrightarrow> s = s' \<Longrightarrow> (\<And>s. w b' s = w' b' s) \<Longrightarrow> (\<And>s. w c' s = w' c' s) \<Longrightarrow>
   (\<And>s. w e' s = w' e' s) \<Longrightarrow> walk_if_expr w b c e s = walk_if_expr w' b' c' e' s'"
  by (auto simp: walk_if_expr_def intro!: bind_cong)

lemma walk_bound_cong:
  "b = b' \<Longrightarrow> (\<And>e s. b' = Some e \<Longrightarrow> w e s = w' e s) \<Longrightarrow> walk_bound w b s = walk_bound w' b' s"
  by (simp add: walk_bound_def split: option.split)

lemma walk_subscript_cong [fundef_cong]:
  assumes "x = x'" "i = i'" "l = l'" "u = u'" "t = t'" "q = q'" "s = s'" "\<And>s. w x' s = w' x' s"
    "\<And>e s. i' = Some e \<Longrightarrow> w e s = w' e s" "\<And>e s. l' = Some e \<Longrightarrow> w e s = w' e s"
    "\<And>e s. u' = Some e \<Longrightarrow> w e s = w' e s" "\<And>e s. t' = Some e \<Longrightarrow> w e s = w' e s"
  shows "walk_subscript w x i l u t q s = walk_subscript w' x' i' l' u' t' q' s'"
  using assms by (auto simp: walk_subscript_def intro!: bind_cong walk_bound_cong split: option.split)

lemma walk_single_comparator_cong [fundef_cong]:
  "v = v' \<Longrightarrow> ops = ops' \<Longrightarrow> c = c' \<Longrightarrow> s = s' \<Longrightarrow> w c' s' = w' c' s' \<Longrightarrow>
   walk_single_comparator w v ops c s = walk_single_comparator w' v' ops' c' s'"
  by (auto simp: walk_single_comparator_def intro!: bind_cong)

text \<open>Sizes for the termination of the evaluation.\<close>

fun comp_item_size :: "'o comp_item \<Rightarrow> nat" where
  "comp_item_size (CompList e) = size e"
| "comp_item_size (CompDict k v op) = size k + size v"

lemma size_comp_clause:
  "size (cc_iter g) < size g" "size_list size (cc_ifs g) < size g"
  by (cases g; simp)+

lemma size_hd: "xs \<noteq> [] \<Longrightarrow> size (hd xs) < size_list size xs"
  by (cases xs) auto

section \<open>Evaluation\<close>

function
  walk_expr :: "('o, 's) evaluator \<Rightarrow> 'o expr \<Rightarrow> ('s, val) eval" and
  walk_optional :: "('o, 's) evaluator \<Rightarrow> 'o expr option \<Rightarrow> ('s, val) eval" and
  walk_items :: "('o, 's) evaluator \<Rightarrow> 'o expr list \<Rightarrow> val \<Rightarrow> ('s, val) eval" and
  walk_chain :: "('o, 's) evaluator \<Rightarrow> val \<Rightarrow> cmp_op list \<Rightarrow> 'o expr list \<Rightarrow> ('s, val) eval" and
  walk_quant_loop :: "('o, 's) evaluator \<Rightarrow> quant_operation \<Rightarrow> string list list \<Rightarrow> 'o expr \<Rightarrow>
    'o expr option \<Rightarrow> (val \<times> val \<times> val) list \<Rightarrow> val \<Rightarrow> ('s, val) eval" and
  walk_ifs :: "('o, 's) evaluator \<Rightarrow> 'o expr list \<Rightarrow> bool \<Rightarrow> ('s, bool) eval" and
  walk_generator :: "('o, 's) evaluator \<Rightarrow> 'o comp_clause list \<Rightarrow> 'o comp_item \<Rightarrow> val \<Rightarrow> ('s, val) eval" and
  walk_gen_loop :: "('o, 's) evaluator \<Rightarrow> string list list \<Rightarrow> 'o expr list \<Rightarrow> 'o comp_clause list \<Rightarrow>
    'o comp_item \<Rightarrow> (val \<times> val \<times> val) list \<Rightarrow> val \<Rightarrow> ('s, val) eval" and
  walk_comp_item :: "('o, 's) evaluator \<Rightarrow> 'o comp_item \<Rightarrow> val \<Rightarrow> ('s, val) eval"
where
  "walk_expr ev e s = (case e of
     Identifier names \<Rightarrow> ev_identifier ev names s
   | Unary op operand \<Rightarrow> walk_unary_expr (walk_expr ev) op operand s
   | Binary l op r \<Rightarrow> walk_binary_expr ev (walk_expr ev) l op r s
   | IfExpr body cond orelse \<Rightarrow> walk_if_expr (walk_expr ev) body cond orelse s
   | Paren x \<Rightarrow> walk_expr ev x s
   | Quant op target variables test if_cond \<Rightarrow>
       bind (walk_expr ev target) (\<lambda>t.
         let result = quant_start op t;
             host = (if op = QuantFilter then deep_copy result else t)
         in bind (lift (iter_items host)) (\<lambda>items.
              in_scope (ev_enter_scope ev) (\<lambda>s. ev_clear_local_vars ev (ev_leave_scope ev s))
                (walk_quant_loop ev op variables test if_cond items result))) s
   | ListExpr elts \<Rightarrow> walk_items ev elts (mk_list None) s
   | ListIfItem if_cond exprs orelse \<Rightarrow>
       bind (walk_expr ev if_cond) (\<lambda>c s.
         if is_truthy c then walk_items ev exprs (mk_list None) s else walk_optional ev orelse s) s
   | ListComp elt generators \<Rightarrow>
       in_scope (ev_enter_scope ev) (ev_leave_scope ev)
         (walk_generator ev generators (CompList elt) (mk_list None)) s
   | Starred x \<Rightarrow> walk_expr ev x s
   | DictComp key v op generators \<Rightarrow>
       in_scope (ev_enter_scope ev) (ev_leave_scope ev)
         (\<lambda>s. case key of
                None \<Rightarrow> stop (Panicked (RustPanic UnwrapNone)) s
              | Some k \<Rightarrow> walk_generator ev generators (CompDict k v op) (mk_dict None) s) s
   | Subscript x index lower upper step has_question \<Rightarrow>
       walk_subscript (walk_expr ev) x index lower upper step has_question s
   | Compare l ops comparators \<Rightarrow>
       bind (walk_expr ev l) (\<lambda>v s.
         if 1 < length comparators then
           (if ops = [] then ret undefined_value s else walk_chain ev v ops comparators s)
         else if comparators = [] then stop (Panicked (RustPanic IndexOutOfBounds)) s
         else walk_single_comparator (walk_expr ev) v ops (hd comparators) s) s
   | NumberLit suffix n \<Rightarrow> (number_lit_value ev suffix n, s)
   | StringLit t \<Rightarrow> ret (str_value t) s
   | NameConstantLit c \<Rightarrow> ret (name_constant_value c) s
   | MissingExpr \<Rightarrow> stop (Anyhow MissingExpression) s
   | OtherExpr x \<Rightarrow> ev_walk_other ev x s)"
| "walk_optional ev None s = ret none_value s"
| "walk_optional ev (Some e) s = walk_expr ev e s"
| "walk_items ev [] acc s = ret acc s"
| "walk_items ev (e # es) acc s =
     bind (walk_expr ev e) (\<lambda>v.
       bind (lift (if is_unpacked e then list_append_unpack acc v else list_append acc v)) (\<lambda>acc.
         walk_items ev es acc)) s"
| "walk_chain ev v [] cs s = ret v s"
| "walk_chain ev v (op # ops) [] s = stop (Panicked (RustPanic IndexOutOfBounds)) s"
| "walk_chain ev v (op # ops) (c # cs) s =
     bind (walk_expr ev c) (\<lambda>w.
       bind (lift (apply_cmp op v w)) (\<lambda>r s.
         if ops \<noteq> [] \<and> is_truthy r then walk_chain ev w ops cs s else ret r s)) s"
| "walk_quant_loop ev op variables test if_cond [] result s = ret result s"
| "walk_quant_loop ev op variables test if_cond (item # items) result s =
     bind (store_targets ev variables item) (\<lambda>_.
       bind (case if_cond of None \<Rightarrow> ret True
             | Some c \<Rightarrow> bind (walk_expr ev c) (\<lambda>v. ret (is_truthy v))) (\<lambda>keep s.
         if \<not> keep then walk_quant_loop ev op variables test if_cond items result s
         else bind (walk_expr ev test) (\<lambda>v s.
                case quant_step op result (fst item) v of
                  Inl x \<Rightarrow> stop x s
                | Inr (True, result) \<Rightarrow> walk_quant_loop ev op variables test if_cond items result s
                | Inr (False, result) \<Rightarrow> ret result s) s)) s"
| "walk_ifs ev [] keep s = ret keep s"
| "walk_ifs ev (c # cs) keep s =
     bind (expecting RUNTIME_ERROR_MSG (walk_expr ev c)) (\<lambda>v. walk_ifs ev cs (keep \<and> is_truthy v)) s"
| "walk_generator ev [] item coll s = stop (Panicked (RustPanic IndexOutOfBounds)) s"
| "walk_generator ev (g # gs) item coll s =
     bind (expecting RUNTIME_ERROR_MSG (walk_expr ev (cc_iter g))) (\<lambda>host.
       bind (lift (iter_items host)) (\<lambda>items.
         bind (walk_gen_loop ev (cc_targets g) (cc_ifs g) gs item items coll) (\<lambda>coll.
           bind (remove_local_vars ev (cc_targets g)) (\<lambda>_. ret coll)))) s"
| "walk_gen_loop ev targets ifs gs item [] coll s = ret coll s"
| "walk_gen_loop ev targets ifs gs item (x # xs) coll s =
     bind (expecting RUNTIME_ERROR_MSG (store_targets ev targets x)) (\<lambda>_.
       bind (walk_ifs ev ifs True) (\<lambda>keep s.
         if \<not> keep then walk_gen_loop ev targets ifs gs item xs coll s
         else bind (\<lambda>s. if gs = [] then walk_comp_item ev item coll s else walk_generator ev gs item coll s)
                (\<lambda>coll. walk_gen_loop ev targets ifs gs item xs coll) s)) s"
| "walk_comp_item ev (CompList elt) coll s =
     bind (expecting RUNTIME_ERROR_MSG (walk_expr ev elt)) (\<lambda>v. lift (list_append coll v)) s"
| "walk_comp_item ev (CompDict k v op) coll s =
     bind (expecting RUNTIME_ERROR_MSG (walk_expr ev v)) (\<lambda>w.
       bind (expecting RUNTIME_ERROR_MSG (walk_expr ev k)) (\<lambda>key.
         lift (eval_dict_insert ev coll (as_str key) (deep_copy w) op None))) s"
  by pat_completeness auto

termination
  apply (relation "measures [
    (\<lambda>x. case x of
      Inl (Inl (Inl (ev, e, s))) \<Rightarrow> size e
    | Inl (Inl (Inr (ev, oe, s))) \<Rightarrow> size_option size oe
    | Inl (Inr (Inl (ev, es, acc, s))) \<Rightarrow> size_list size es
    | Inl (Inr (Inr (ev, v, ops, cs, s))) \<Rightarrow> size_list size cs
    | Inr (Inl (Inl (ev, op, vars, test, cond, items, r, s))) \<Rightarrow> size test + size_option size cond
    | Inr (Inl (Inr (ev, cs, keep, s))) \<Rightarrow> size_list size cs
    | Inr (Inr (Inl (ev, gs, item, coll, s))) \<Rightarrow> size_list size gs + comp_item_size item
    | Inr (Inr (Inr (Inl (ev, ts, ifs, gs, item, xs, coll, s)))) \<Rightarrow> size_list size ifs + size_list size gs + comp_item_size item
    | Inr (Inr (Inr (Inr (ev, item, coll, s)))) \<Rightarrow> comp_item_size item),
    (\<lambda>x. case x of
      Inl (Inl (Inl (ev, e, s))) \<Rightarrow> 0
    | Inl (Inl (Inr (ev, oe, s))) \<Rightarrow> 1
    | Inl (Inr (Inl (ev, es, acc, s))) \<Rightarrow> 1
    | Inl (Inr (Inr (ev, v, ops, cs, s))) \<Rightarrow> 1
    | Inr (Inl (Inl (ev, op, vars, test, cond, items, r, s))) \<Rightarrow> 1
    | Inr (Inl (Inr (ev, cs, keep, s))) \<Rightarrow> 1
    | Inr (Inr (Inl (ev, gs, item, coll, s))) \<Rightarrow> 1
    | Inr (Inr (Inr (Inl (ev, ts, ifs, gs, item, xs, coll, s)))) \<Rightarrow> 2
    | Inr (Inr (Inr (Inr (ev, item, coll, s)))) \<Rightarrow> 1),
    (\<lambda>x. case x of
      Inl (Inl (Inl (ev, e, s))) \<Rightarrow> 0
    | Inl (Inl (Inr (ev, oe, s))) \<Rightarrow> 0
    | Inl (Inr (Inl (ev, es, acc, s))) \<Rightarrow> 0
    | Inl (Inr (Inr (ev, v, ops, cs, s))) \<Rightarrow> 0
    | Inr (Inl (Inl (ev, op, vars, test, cond, items, r, s))) \<Rightarrow> length items
    | Inr (Inl (Inr (ev, cs, keep, s))) \<Rightarrow> 0
    | Inr (Inr (Inl (ev, gs, item, coll, s))) \<Rightarrow> 0
    | Inr (Inr (Inr (Inl (ev, ts, ifs, gs, item, xs, coll, s)))) \<Rightarrow> length xs
    | Inr (Inr (Inr (Inr (ev, item, coll, s)))) \<Rightarrow> 0)]")
  apply (simp_all only: in_measures sum.case prod.case wf_measures)
  apply (simp_all add: less_Suc_eq_le)
  apply (auto simp: size_comp_clause less_imp_le trans_le_add1 size_hd)
  done

declare walk_expr.simps [simp del]

end
