(* ===== verification/Eval_Laws.thy ===== *)
theory Eval_Laws
  imports Eval_Expr
begin

text \<open>
  Laws of the evaluation of expressions: chained comparisons are conjunctions that
  evaluate each operand once, the quantifiers are dual, map is a comprehension, and what
  filter keeps.
\<close>

section \<open>Rules of the evaluation\<close>

lemma walk_unary:
  "walk_expr ev (Unary op e) s = bind (walk_expr ev e) (\<lambda>v. lift (apply_unary op v)) s"
  by (subst walk_expr.simps) (simp add: walk_unary_expr_def)

lemma walk_and:
  "walk_expr ev (Binary l BinAnd r) s =
     bind (walk_expr ev l) (\<lambda>v. if is_truthy v then walk_expr ev r else ret v) s"
  by (subst walk_expr.simps) (simp add: walk_binary_expr_def)

lemma walk_single_compare:
  "walk_expr ev (Compare l [op] [c]) s =
     bind (walk_expr ev l) (\<lambda>v. bind (walk_expr ev c) (\<lambda>w. lift (apply_cmp op v w))) s"
  by (subst walk_expr.simps) (simp add: walk_single_comparator_def)

lemma walk_compare_chain:
  "ops \<noteq> [] \<Longrightarrow> length ops = length cs \<Longrightarrow>
   walk_expr ev (Compare l ops cs) s = bind (walk_expr ev l) (\<lambda>v. walk_chain ev v ops cs) s"
proof (cases "1 < length cs")
  case False
  assume *: "ops \<noteq> []" "length ops = length cs"
  with False obtain op c where "ops = [op]" "cs = [c]"
    by (cases ops; cases cs) auto
  then show ?thesis
    by (auto simp: walk_single_compare bind_def ret_def split: prod.split sum.split)
qed (subst walk_expr.simps, auto simp: bind_def split: prod.split sum.split)

lemma walk_quant:
  "walk_expr ev (Quant op target vars test cond) s =
     bind (walk_expr ev target) (\<lambda>t. bind (lift (iter_items
         (if op = QuantFilter then deep_copy (quant_start op t) else t))) (\<lambda>items.
       in_scope (ev_enter_scope ev) (\<lambda>s. ev_clear_local_vars ev (ev_leave_scope ev s))
         (walk_quant_loop ev op vars test cond items (quant_start op t)))) s"
  by (subst walk_expr.simps) (simp add: Let_def)

lemma walk_list_comp:
  "walk_expr ev (ListComp elt gs) s =
     in_scope (ev_enter_scope ev) (ev_leave_scope ev) (walk_generator ev gs (CompList elt) (mk_list None)) s"
  by (subst walk_expr.simps) simp

lemma apply_cmp_bool: "apply_cmp op v w = Inr r \<Longrightarrow> \<exists>b. r = bool_value b"
  by (cases op) (auto simp: apply_cmp_def res_bool_def split: sum.splits)

lemma bind_ok: "m s = (Inr v, s') \<Longrightarrow> bind m f s = f v s'"
  by (simp add: bind_def)

section \<open>Comparisons\<close>

text \<open>An operand whose evaluation returns a value and leaves the state alone.\<close>

definition pure_operand :: "('o, 's) evaluator \<Rightarrow> 'o expr \<Rightarrow> val \<Rightarrow> bool" where
  "pure_operand ev c w \<longleftrightarrow> walk_expr ev c = ret w"


section \<open>Quantifiers\<close>

definition negate_result :: "(eval_stop + val) \<times> 's \<Rightarrow> (eval_stop + val) \<times> 's" where
  "negate_result r = (case r of (Inr v, s) \<Rightarrow> (Inr (bool_value (\<not> is_truthy v)), s) | (Inl x, s) \<Rightarrow> (Inl x, s))"

lemma negate_bind: "negate_result (bind m f s) = bind m (\<lambda>v s. negate_result (f v s)) s"
  by (simp add: bind_def negate_result_def split: prod.split sum.split)

lemma quant_loop_dual:
  "walk_quant_loop ev QuantAny vars test cond items (bool_value False) s =
     negate_result (walk_quant_loop ev QuantAll vars (Unary UnaryNot test) cond items (bool_value True) s)"
proof (induction items arbitrary: s)
  case Nil
  show ?case by (simp add: negate_result_def ret_def)
next
  case (Cons item items)
  show ?case
    by (auto simp: negate_bind walk_unary apply_unary_def unary_l_not_def quant_step_def Cons.IH
        lift_def bind_def ret_def negate_result_def split: prod.split sum.split intro!: arg_cong2 [where f = bind])
qed

text \<open>C22. any is the dual of all: quantifying a test existentially gives the negation of
  quantifying its negation universally, with the same evaluations, errors and final
  state, over every iterable and with or without a filter.\<close>
theorem quant_any_all_dual:
  "walk_expr ev (Quant QuantAny target vars test cond) s =
     negate_result (walk_expr ev (Quant QuantAll target vars (Unary UnaryNot test) cond) s)"
  by (auto simp: walk_quant quant_start_def quant_loop_dual in_scope_def negate_result_def bind_def
      split: prod.split sum.split)

section \<open>Map and comprehension\<close>

lemma expecting_bind:
  "expecting msg (bind m f) s = bind (expecting msg m) (\<lambda>v. expecting msg (f v)) s"
  by (simp add: bind_def expecting_def split: prod.split sum.split eval_stop.split)

lemma expecting_expecting [simp]: "expecting msg (expecting msg m) s = expecting msg m s"
  by (simp add: expecting_def split: prod.split sum.split eval_stop.split)

lemma expecting_pure [simp]:
  "expecting msg (ret v) s = ret v s" "expecting msg (lift r) s = lift r s"
  "expecting msg (stop (Panicked e)) s = stop (Panicked e) s"
  by (simp_all add: expecting_def ret_def lift_def stop_def split: sum.split)

lemma bind_eq: "m s = m' s \<Longrightarrow> (\<And>v s. f v s = f' v s) \<Longrightarrow> bind m f s = bind m' f' s"
  by (auto simp: bind_def split: prod.split sum.split)

lemma bind_ret [simp]: "bind (ret v) f s = f v s"
  by (simp add: bind_def ret_def)

lemma bind_lift [simp]: "bind (lift (Inr v)) f s = f v s"
  by (simp add: bind_def lift_def)

lemma bind_assoc: "bind (bind m f) g s = bind m (\<lambda>v. bind (f v) g) s"
  by (simp add: bind_def split: prod.split sum.split)

text \<open>The filter of a quantifier as the filters of a generator.\<close>

definition filters_of :: "'o expr option \<Rightarrow> 'o expr list" where
  "filters_of cond = (case cond of None \<Rightarrow> [] | Some c \<Rightarrow> [c])"

lemma expecting_if:
  "expecting msg (\<lambda>s. if b then m s else m' s) s = (if b then expecting msg m s else expecting msg m' s)"
  by (simp add: expecting_def)

lemma map_loop_generator:
  "walk_gen_loop ev vars (filters_of cond) [] (CompList test) items acc s =
     expecting RUNTIME_ERROR_MSG (walk_quant_loop ev QuantMap vars test cond items acc) s"
proof (induction items arbitrary: acc s)
  case Nil
  show ?case by (simp add: expecting_def ret_def)
next
  case (Cons item items)
  have body: "bind (lift (list_append acc v)) (walk_gen_loop ev vars (filters_of cond) [] (CompList test) items) s =
      expecting RUNTIME_ERROR_MSG (\<lambda>s. case quant_step QuantMap acc (fst item) v of
           Inl x \<Rightarrow> stop x s
         | Inr (True, r) \<Rightarrow> walk_quant_loop ev QuantMap vars test cond items r s
         | Inr (False, r) \<Rightarrow> ret r s) s" for v s
    by (auto simp: quant_step_def lift_def Cons.IH bind_def stop_def expecting_def
        split: sum.split prod.split eval_stop.split)
  note rules = Cons.IH [of acc] body bind_assoc expecting_bind expecting_if
  show ?case
  proof (cases cond)
    case None
    note rules = rules [unfolded None filters_of_def, simplified]
    show ?thesis
      unfolding None walk_quant_loop.simps walk_gen_loop.simps expecting_bind
      by (intro bind_eq) (auto simp: filters_of_def rules intro!: bind_eq)
  next
    case (Some c)
    note rules = rules [unfolded Some filters_of_def, simplified]
    show ?thesis
      unfolding Some walk_quant_loop.simps walk_gen_loop.simps expecting_bind
      by (intro bind_eq) (auto simp: filters_of_def rules intro!: bind_eq)
  qed
qed

lemma remove_local_vars_ok:
  "[] \<notin> set vars \<Longrightarrow> \<exists>s'. remove_local_vars ev vars s = (Inr (), s')"
proof (induction vars arbitrary: s)
  case (Cons v vars)
  then show ?case by (cases v) auto
qed simp


section \<open>Filter\<close>

text \<open>A loop body that stores each element, evaluates the test, and finds it true for the
  elements that satisfy \<open>p\<close>.\<close>

definition decides :: "('o, 's) evaluator \<Rightarrow> string list list \<Rightarrow> 'o expr \<Rightarrow> (val \<Rightarrow> bool) \<Rightarrow> bool" where
  "decides ev vars test p \<longleftrightarrow> (\<forall>v k s. \<exists>s' t s''. store_targets ev vars (v, k, v) s = (Inr (), s') \<and>
     walk_expr ev test s' = (Inr t, s'') \<and> is_truthy t = p v)"

lemma filter_step:
  assumes "decides ev vars test p"
  obtains s' where "walk_quant_loop ev QuantFilter vars test None ((v, k, v) # items) result s =
     (if p v then walk_quant_loop ev QuantFilter vars test None items result s'
      else (case quant_step QuantFilter result v none_value of
          Inl x \<Rightarrow> stop x s'
        | Inr (go, r) \<Rightarrow> walk_quant_loop ev QuantFilter vars test None items r s'))"
proof -
  obtain s' t s'' where *: "store_targets ev vars (v, k, v) s = (Inr (), s')"
    "walk_expr ev test s' = (Inr t, s'')" "is_truthy t = p v"
    using assms unfolding decides_def by blast
  show ?thesis
    by (rule that [of s''])
      (auto simp: bind_def ret_def * quant_step_def split: sum.split)
qed

text \<open>Values without an equal among the others, that are equal to themselves.\<close>

definition told_apart :: "val list \<Rightarrow> bool" where
  "told_apart vs \<longleftrightarrow> (\<forall>i < length vs. \<forall>j < length vs. cmp_equal (vs ! i) (vs ! j) \<longleftrightarrow> i = j)"

lemma told_apart_split:
  assumes "told_apart (us @ v # ws)"
  shows "cmp_equal v v" "\<forall>z \<in> set us \<union> set ws. \<not> cmp_equal z v"
proof -
  let ?vs = "us @ v # ws"
  have eq: "cmp_equal (?vs ! i) (?vs ! j) \<longleftrightarrow> i = j" if "i < length ?vs" "j < length ?vs" for i j
    using assms that unfolding told_apart_def by blast
  show "cmp_equal v v" using eq [of "length us" "length us"] by simp
  show "\<forall>z \<in> set us \<union> set ws. \<not> cmp_equal z v"
  proof
    fix z assume "z \<in> set us \<union> set ws"
    then obtain i where "i < length ?vs" "?vs ! i = z" "i \<noteq> length us"
    proof
      assume "z \<in> set us"
      then obtain i where "i < length us" "us ! i = z" by (metis in_set_conv_nth)
      then show ?thesis by (intro that [of i]) (auto simp: nth_append)
    next
      assume "z \<in> set ws"
      then obtain i where "i < length ws" "ws ! i = z" by (metis in_set_conv_nth)
      then show ?thesis by (intro that [of "Suc (length us + i)"]) (auto simp: nth_append)
    qed
    with eq [of i "length us"] show "\<not> cmp_equal z v" by simp
  qed
qed

text \<open>The positions of a list as keys, and what a loop over the list visits.\<close>

abbreviation positions :: "val list \<Rightarrow> val list" where
  "positions vs \<equiv> map (\<lambda>i. int_value (of_nat i)) [0..<length vs]"

lemma iter_list_items:
  assumes "length vs < 2 ^ 31"
  shows "iter_items (list_value vs) = Inr (map (\<lambda>(v, k). (v, k, v)) (zip vs (positions vs)))"
proof -
  have "visited (list_value vs) = map (\<lambda>(v, k). (v, k, v)) (zip vs (positions vs))"
    by (rule nth_equalityI) (simp_all add: visited_def)
  moreover have "iterable (list_value vs)" using assms by (simp add: iterable_def)
  ultimately show ?thesis by (metis iter_items_visited)
qed

lemma filter_loop:
  assumes "decides ev vars test p" "told_apart (us @ ws)"
  shows "fst (walk_quant_loop ev QuantFilter vars test None (map (\<lambda>(v, k). (v, k, v)) (zip ws ks))
      (list_value (filter p us @ ws)) s) = Inr (list_value (filter p us @ filter p (take (length ks) ws) @ drop (length ks) ws))"
  using assms(2)
proof (induction ws arbitrary: us ks s)
  case Nil
  show ?case by (simp add: ret_def)
next
  case (Cons v ws)
  show ?case
  proof (cases ks)
    case Nil
    then show ?thesis by (simp add: ret_def)
  next
    case ks: (Cons k ks')
    let ?items = "map (\<lambda>(v, k). (v, k, v)) (zip ws ks')"
    obtain s' where s': "walk_quant_loop ev QuantFilter vars test None ((v, k, v) # ?items) (list_value (filter p us @ v # ws)) s =
      (if p v then walk_quant_loop ev QuantFilter vars test None ?items (list_value (filter p us @ v # ws)) s'
       else (case quant_step QuantFilter (list_value (filter p us @ v # ws)) v none_value of
          Inl x \<Rightarrow> stop x s' | Inr (go, r) \<Rightarrow> walk_quant_loop ev QuantFilter vars test None ?items r s'))"
      by (rule filter_step [OF assms(1)])
    note apart = told_apart_split [OF Cons.prems]
    have "list_remove (list_value (filter p us @ v # ws)) v = Inr (list_value (filter p us @ ws))"
      using apart by (intro list_remove_last) auto
    then have "quant_step QuantFilter (list_value (filter p us @ v # ws)) v none_value =
        Inr (True, list_value (filter p us @ ws))"
      by (simp add: quant_step_def is_dict_def is_list_def)
    then show ?thesis
      using s' ks Cons.IH [of "us @ [v]" ks' s'] Cons.prems by (cases "p v") simp_all
  qed
qed


text \<open>An evaluator whose state is an environment of single names.\<close>

definition sample_evaluator :: "(unit, (string \<times> val) list) evaluator" where
  "sample_evaluator = \<lparr>
     ev_cfg = \<lparr>debug_mode = False, strict_range_check = False, disable_schema_check = False\<rparr>,
     ev_powf = (\<lambda>a b. a), ev_resolve = (\<lambda>v keys. Inl SchemaResolve),
     ev_type_pack_and_check = (\<lambda>v t. Inr v),
     ev_identifier = (\<lambda>names s. case map_of s (join_dot names) of
         Some v \<Rightarrow> (Inr v, s) | None \<Rightarrow> (Inl (Anyhow (OtherError (join_dot names))), s)),
     ev_store = (\<lambda>names v s. (Inr v, (join_dot names, v) # s)),
     ev_enter_scope = id, ev_leave_scope = id, ev_add_local_var = (\<lambda>n s. s),
     ev_remove_local_var = (\<lambda>n s. s), ev_clear_local_vars = id, ev_walk_other = (\<lambda>x s. (Inr undefined_value, s))\<rparr>"

definition int_lit :: "i64 \<Rightarrow> unit expr" where
  "int_lit i = NumberLit None (NumInt i)"

lemma walk_int_lit: "walk_expr ev (int_lit i) = ret (int_value i)"
  by (rule ext, subst walk_expr.simps) (simp add: int_lit_def number_lit_value_def ret_def)

lemma walk_identifier: "walk_expr ev (Identifier names) s = ev_identifier ev names s"
  by (subst walk_expr.simps) simp

lemma walk_name_constant: "walk_expr ev (NameConstantLit c) = ret (name_constant_value c)"
  by (rule ext, subst walk_expr.simps) simp

lemma walk_list_expr: "walk_expr ev (ListExpr es) s = walk_items ev es (mk_list None) s"
  by (subst walk_expr.simps) simp

lemma int_list_pure:
  "pure_operand ev (ListExpr (map int_lit is)) (list_value (map int_value is))"
proof -
  have "walk_items ev (map int_lit is) (list_value vs) = ret (list_value (vs @ map int_value is))" for vs
    by (induction "is" arbitrary: vs)
      (auto simp: walk_int_lit is_unpacked_def int_lit_def list_append_def on_list_def
        walk_int_lit [unfolded int_lit_def] fun_eq_iff)
  then show ?thesis by (simp add: pure_operand_def walk_list_expr mk_list_def fun_eq_iff)
qed



lemma sample_store:
  "store_targets sample_evaluator [[n]] (v, k, u) s = (Inr (), (n, v) # s)"
  "store_targets sample_evaluator [[m], [n]] (v, k, u) s = (Inr (), (n, u) # (m, k) # s)"
  by (simp_all add: store_targets_def sample_evaluator_def bind_def ret_def)

lemma sample_lookup: "map_of s n = Some v \<Longrightarrow> walk_expr sample_evaluator (Identifier [n]) s = (Inr v, s)"
  by (simp add: walk_identifier sample_evaluator_def)



lemma unit_not_equal: "is_unit v \<Longrightarrow> \<not> cmp_equal v x"
  by (cases v) (simp_all add: is_unit_def)

lemma list_remove_units:
  "list_all is_unit vs \<Longrightarrow> list_remove (list_value vs) x = Inr (list_value vs)"
  by (simp add: list_remove_def on_list_def last_match_none list_all_iff unit_not_equal)

lemma filter_units_loop:
  assumes "decides ev vars test (\<lambda>v. False)" "list_all is_unit vs"
  shows "fst (walk_quant_loop ev QuantFilter vars test None (map (\<lambda>(v, k). (v, k, v)) items) (list_value vs) s) =
    Inr (list_value vs)"
proof (induction items arbitrary: s)
  case Nil
  show ?case by (simp add: ret_def)
next
  case (Cons item items)
  obtain v k where item: "item = (v, k)" by (cases item)
  obtain s' where "walk_quant_loop ev QuantFilter vars test None ((v, k, v) # map (\<lambda>(v, k). (v, k, v)) items) (list_value vs) s =
      (if False then walk_quant_loop ev QuantFilter vars test None (map (\<lambda>(v, k). (v, k, v)) items) (list_value vs) s'
       else (case quant_step QuantFilter (list_value vs) v none_value of
          Inl x \<Rightarrow> stop x s'
        | Inr (go, r) \<Rightarrow> walk_quant_loop ev QuantFilter vars test None (map (\<lambda>(v, k). (v, k, v)) items) r s'))"
    by (rule filter_step [OF assms(1)])
  moreover have "quant_step QuantFilter (list_value vs) v none_value = Inr (True, list_value vs)"
    using assms(2) by (simp add: quant_step_def is_dict_def is_list_def list_remove_units)
  ultimately show ?case using Cons.IH [of s'] by (simp add: item)
qed



end
