(* ===== verification/Sema_Runtime.thy ===== *)
theory Sema_Runtime
  imports Sema_Calc Sema_Check_Laws Eval_Laws
begin

text \<open>
  The types the resolver gives to operators against the values the evaluator computes: the
  operators for which the types are right, and those for which they are not.
\<close>

section \<open>Values and types\<close>

text \<open>The values of a type, read at the top: a literal type has one value, a list type every
  list. Union types, functions and modules have none here.\<close>

definition value_fits :: "val \<Rightarrow> ty_ref \<Rightarrow> bool" where
  "value_fits v t = (case ref_kind t of
     AnyK \<Rightarrow> True
   | NoneK \<Rightarrow> Value.is_none v
   | BoolK \<Rightarrow> Value.is_bool v
   | BoolLit b \<Rightarrow> v = bool_value b
   | IntK \<Rightarrow> Value.is_int v
   | IntLit n \<Rightarrow> v = int_value n
   | FloatK \<Rightarrow> Value.is_float v
   | FloatLit f \<Rightarrow> v = float_value f
   | StrK \<Rightarrow> Value.is_str v
   | StrLit s \<Rightarrow> v = str_value s
   | ListK _ \<Rightarrow> Value.is_list v
   | DictK _ \<Rightarrow> Value.is_dict v
   | SchemaK _ \<Rightarrow> Value.is_schema v
   | NumberMultiplierK _ \<Rightarrow> is_unit v
   | _ \<Rightarrow> False)"

lemma kind_cases:
  "Value.is_int v \<longleftrightarrow> (\<exists>n. v = int_value n)" "Value.is_float v \<longleftrightarrow> (\<exists>f. v = float_value f)"
  "Value.is_str v \<longleftrightarrow> (\<exists>s. v = str_value s)" "Value.is_list v \<longleftrightarrow> (\<exists>vs. v = list_value vs)"
  by (cases v; simp add: Value.is_int_def Value.is_float_def Value.is_str_def Value.is_list_def)+

lemma value_kind_exclusive:
  "Value.is_int (int_value n)" "Value.is_float (float_value f)" "Value.is_str (str_value s)" "Value.is_list (list_value vs)"
  by (simp_all add: Value.is_int_def Value.is_float_def Value.is_str_def Value.is_list_def)

text \<open>The tests of a type other than any are the tests of its values.\<close>

lemma fits_tests:
  assumes "value_fits v t" "\<not> Sema_Type.is_any t"
  shows "Sema_Type.is_int t \<longleftrightarrow> Value.is_int v" "Sema_Type.is_float t \<longleftrightarrow> Value.is_float v"
    "Sema_Type.is_str t \<longleftrightarrow> Value.is_str v" "list_item_ty t = None \<longleftrightarrow> \<not> Value.is_list v"
proof -
  obtain a k b where t: "t = Arc a (Type k b)" by (metis ty.collapse ty_ref.collapse)
  show "Sema_Type.is_int t \<longleftrightarrow> Value.is_int v" "Sema_Type.is_float t \<longleftrightarrow> Value.is_float v"
    "Sema_Type.is_str t \<longleftrightarrow> Value.is_str v" "list_item_ty t = None \<longleftrightarrow> \<not> Value.is_list v"
    using assms unfolding t
    by (cases k; cases v; simp add: value_fits_def list_item_ty_def Value.is_int_def Value.is_float_def
        Value.is_str_def Value.is_list_def Value.is_bool_def Value.is_none_def Value.is_dict_def
        Value.is_schema_def is_unit_def)+
qed

lemma number_flags: "Sema_Type.is_number t \<longleftrightarrow> Sema_Type.is_int t \<or> Sema_Type.is_float t"
  by (simp add: Sema_Type.is_number_def Sema_Type.is_int_def Sema_Type.is_float_def)

lemma fits_not_union: "value_fits v t \<Longrightarrow> \<not> Sema_Type.is_union t"
proof -
  obtain a k b where t: "t = Arc a (Type k b)" by (metis ty.collapse ty_ref.collapse)
  then show "value_fits v t \<Longrightarrow> \<not> Sema_Type.is_union t" by (cases k) (simp_all add: value_fits_def)
qed

lemma builtin_any: "builtins st = new_builtin_types n \<Longrightarrow> Sema_Type.is_any (any_ty st)"
  by (simp add: new_builtin_types_def mk_type_def)

section \<open>Operators with the type of their value\<close>

lemmas table_defs = binary_table_def add_table_def mul_table_def bit_or_table_def as_table_def supported_def Let_def

lemma binary_table_none: "binary_table op t1 t2 rg st = (None, st') \<Longrightarrow> st' = st"
  by (cases op) (auto simp: table_defs split: if_splits option.splits prod.splits)

text \<open>The type of an operation that is not any comes from the table.\<close>

lemma binary_table_of:
  assumes "value_fits v t1" "value_fits x t2" "builtins st = new_builtin_types n"
    and "\<not> Sema_Type.is_any (fst (binary t1 t2 op rg st))"
  shows "\<not> Sema_Type.is_any t1" "\<not> Sema_Type.is_any t2"
    "\<exists>st'. binary_table op t1 t2 rg st = (Some (fst (binary t1 t2 op rg st)), st')"
proof -
  have same: "resolver_literal_union t1 st = (t1, st)" "resolver_literal_union t2 st = (t2, st)"
    using fits_not_union [OF assms(1)] fits_not_union [OF assms(2)]
    by (simp_all add: resolver_literal_union_def literal_union_type_to_variable_type_def)
  have any: "Sema_Type.is_any (any_ty st)" using assms(3) by (rule builtin_any)
  show "\<not> Sema_Type.is_any t1" "\<not> Sema_Type.is_any t2"
    using assms(4) any by (auto simp: binary_def same has_any_type_def split: if_splits)
  show "\<exists>st'. binary_table op t1 t2 rg st = (Some (fst (binary t1 t2 op rg st)), st')"
    using assms(4) any
    by (cases "binary_table op t1 t2 rg st"; cases "fst (binary_table op t1 t2 rg st)")
      (auto simp: binary_def same split: if_splits dest: binary_table_none)
qed

text \<open>The panics of the runtime that blame the types of the operands.\<close>

definition operand_panic :: "panic \<Rightarrow> bool" where
  "operand_panic e = (case e of UnsupportedBinOp _ _ _ \<Rightarrow> True | CannotConcat _ \<Rightarrow> True | _ \<Rightarrow> False)"

definition result_fits :: "val res \<Rightarrow> ty_ref \<Rightarrow> bool" where
  "result_fits r t = (case r of Inr v \<Rightarrow> value_fits v t | Inl e \<Rightarrow> \<not> operand_panic e)"

lemma result_fits_simps [simp]:
  "result_fits (Inr v) t = value_fits v t"
  "result_fits (Inl e) t = (\<not> operand_panic e)"
  "result_fits (range_checked cfg o32 p32 o64 p64 v) t \<longleftrightarrow>
     (\<not> (strict_range_check_32 cfg \<and> o32) \<and> \<not> (strict_range_check_64 cfg \<and> o64) \<longrightarrow> value_fits v t) \<and>
     (strict_range_check_32 cfg \<and> o32 \<longrightarrow> \<not> operand_panic p32) \<and>
     (\<not> (strict_range_check_32 cfg \<and> o32) \<and> strict_range_check_64 cfg \<and> o64 \<longrightarrow> \<not> operand_panic p64)"
  "result_fits (f32_checked c over f v) t \<longleftrightarrow> (\<not> (c \<and> over) \<longrightarrow> value_fits v t)"
  by (auto simp: result_fits_def range_checked_def f32_checked_def operand_panic_def)

lemma operand_panic_simps [simp]:
  "\<not> operand_panic (I32Overflow i)" "\<not> operand_panic (I64Overflow i)" "\<not> operand_panic (F32Overflow f)"
  "\<not> operand_panic (RustPanic e)"
  by (simp_all add: operand_panic_def)

text \<open>The type of a number operation.\<close>

definition number_result :: "ty_ref \<Rightarrow> val \<Rightarrow> val \<Rightarrow> bool" where
  "number_result t v x \<longleftrightarrow> ref_kind t = (if Value.is_float v \<or> Value.is_float x then FloatK else IntK)"

lemma number_result_fits:
  "number_result t (int_value a) (int_value b) \<Longrightarrow> value_fits (int_value c) t"
  "number_result t (int_value a) (float_value g) \<Longrightarrow> value_fits (float_value h) t"
  "number_result t (float_value f) y \<Longrightarrow> value_fits (float_value h) t"
  by (simp_all add: number_result_def value_fits_def value_kind_exclusive Value.is_float_def)

lemma number_binary_result:
  assumes "value_fits v t1" "value_fits x t2" "\<not> Sema_Type.is_any t1" "\<not> Sema_Type.is_any t2"
  shows "number_result (fst (number_binary t1 t2 st)) v x"
  using assms by (simp add: number_result_def number_binary_def resolver_alloc_def mk_type_def fits_tests)

lemma numbers_of_fits:
  assumes "value_fits v t" "\<not> Sema_Type.is_any t"
  shows "Sema_Type.is_number t \<longleftrightarrow> (\<exists>n. v = int_value n) \<or> (\<exists>f. v = float_value f)"
  using fits_tests [OF assms] by (simp add: number_flags kind_cases)

text \<open>The operators on numbers.\<close>

lemma int_floor_div_panic: "int_floor_div a b = Inl e \<Longrightarrow> \<not> operand_panic e"
  by (auto simp: int_floor_div_def Let_def split: sum.splits if_splits)

lemma number_operators:
  assumes "number_result t v x" "(\<exists>n. v = int_value n) \<or> (\<exists>f. v = float_value f)"
    "(\<exists>n. x = int_value n) \<or> (\<exists>f. x = float_value f)"
  shows "result_fits (bin_add cfg v x) t" "result_fits (bin_sub cfg v x) t" "result_fits (bin_mul cfg v x) t"
    "result_fits (bin_pow powf cfg v x) t" "result_fits (bin_floor_div v x) t"
proof -
  note fits = number_result_fits
  consider (ii) a b where "v = int_value a" "x = int_value b" | (if') a g where "v = int_value a" "x = float_value g"
    | (fi) f b where "v = float_value f" "x = int_value b" | (ff) f g where "v = float_value f" "x = float_value g"
    using assms(2,3) by blast
  then show "result_fits (bin_add cfg v x) t" "result_fits (bin_sub cfg v x) t" "result_fits (bin_mul cfg v x) t"
    "result_fits (bin_pow powf cfg v x) t" "result_fits (bin_floor_div v x) t"
    using assms(1)
    by (cases; auto simp: bin_add_def bin_sub_def bin_mul_def bin_pow_def bin_floor_div_def int_floor_div_panic
        split: sum.split intro: fits)+
qed

lemma int_operators:
  assumes "ref_kind t = IntK" "v = int_value a" "x = int_value b"
  shows "result_fits (bin_bit_lshift cfg v x) t" "result_fits (bin_bit_rshift cfg v x) t"
    "result_fits (bin_bit_and v x) t" "result_fits (bin_bit_xor v x) t"
  using assms
  by (simp_all add: bin_bit_lshift_def bin_bit_rshift_def bin_bit_and_def bin_bit_xor_def value_fits_def value_kind_exclusive)

definition is_str_literal :: "ty_ref \<Rightarrow> bool" where
  "is_str_literal t = (case ref_kind t of StrLit _ \<Rightarrow> True | _ \<Rightarrow> False)"

lemma fits_any_str: "value_fits (str_value s) t \<Longrightarrow> \<not> is_str_literal t \<Longrightarrow> value_fits (str_value u) t"
  by (simp add: value_fits_def is_str_literal_def Value.is_none_def Value.is_bool_def Value.is_int_def
      Value.is_float_def Value.is_list_def Value.is_dict_def Value.is_schema_def is_unit_def Value.is_str_def
      split: type_kind.splits)

lemma fits_any_list: "value_fits (list_value vs) t \<Longrightarrow> value_fits (list_value us) t"
  by (simp add: value_fits_def Value.is_none_def Value.is_bool_def Value.is_int_def
      Value.is_float_def Value.is_list_def Value.is_dict_def Value.is_schema_def is_unit_def Value.is_str_def
      split: type_kind.splits)

lemma mul_val_fits:
  assumes "value_fits v t" "\<not> Sema_Type.is_any t" "is_mul_val_type_or_mul_val_union_type t"
  shows "Value.is_int v \<or> Value.is_float v \<or> Value.is_str v \<or> Value.is_list v"
proof -
  obtain a k b where t: "t = Arc a (Type k b)" by (metis ty.collapse ty_ref.collapse)
  show ?thesis
    using assms unfolding t
    by (cases k; simp add: is_mul_val_type_or_mul_val_union_type_def is_kind_type_or_kind_union_type_def
        union_types_def value_fits_def contains_flags_def flag_defs)
      (auto simp: value_kind_exclusive)
qed

lemma str_repeat_panic: "str_repeat s n = Inl e \<Longrightarrow> \<not> operand_panic e"
  by (auto simp: str_repeat_def split: if_splits)

lemma repeat_fits:
  assumes "value_fits y t" "\<not> is_str_literal t" "Value.is_str y \<or> Value.is_list y"
  shows "result_fits (bin_mul cfg (int_value a) y) t" "result_fits (bin_mul cfg y (int_value a)) t"
  using assms
  by (auto simp: kind_cases bin_mul_def list_repeat_def str_repeat_panic split: sum.split
      intro: fits_any_str fits_any_list)

text \<open>The operators whose types are right, on these operands: all arithmetic but true division
  and remainder, with the multiplication of string literals left out, and the operators on
  bits but union.\<close>

definition typed_operator :: "bin_op \<Rightarrow> ty_ref \<Rightarrow> ty_ref \<Rightarrow> bool" where
  "typed_operator op t1 t2 = (case op of
     BinAdd \<Rightarrow> True | BinSub \<Rightarrow> True | BinPow \<Rightarrow> True | BinFloorDiv \<Rightarrow> True
   | BinLShift \<Rightarrow> True | BinRShift \<Rightarrow> True | BinBitXor \<Rightarrow> True | BinBitAnd \<Rightarrow> True
   | BinMul \<Rightarrow> \<not> is_str_literal t1 \<and> \<not> is_str_literal t2
   | _ \<Rightarrow> False)"

lemma add_sound:
  assumes fits: "value_fits v t1" "value_fits x t2" and any: "\<not> Sema_Type.is_any t1" "\<not> Sema_Type.is_any t2"
    and st: "builtins st = new_builtin_types n" and table: "add_table t1 t2 st = (Some t, st')"
  shows "result_fits (bin_add cfg v x) t"
proof (cases "Sema_Type.is_number t1 \<and> Sema_Type.is_number t2")
  case True
  then have "t = fst (number_binary t1 t2 st)" using table by (simp add: add_table_def supported_def)
  with True show ?thesis
    using number_operators(1) number_binary_result [OF fits any]
      numbers_of_fits [OF fits(1) any(1)] numbers_of_fits [OF fits(2) any(2)] by blast
next
  case False
  show ?thesis
  proof (cases "Sema_Type.is_str t1 \<and> Sema_Type.is_str t2")
    case True
    with \<open>\<not> (Sema_Type.is_number t1 \<and> Sema_Type.is_number t2)\<close> have "t = str_ty st"
      using table by (auto simp: add_table_def split: if_splits)
    with True show ?thesis
      using fits_tests(3) [OF fits(1) any(1)] fits_tests(3) [OF fits(2) any(2)] st
      by (auto simp: kind_cases bin_add_def value_fits_def new_builtin_types_def mk_type_def)
  next
    case no_str: False
    obtain i j where "list_item_ty t1 = Some i" "list_item_ty t2 = Some j" "t = fst (list_sup i j st)"
      using table False no_str by (auto simp: add_table_def supported_def split: option.splits)
    moreover from this have "ref_kind t = ListK (fst (resolver_sup [i, j] st))"
      by (simp add: list_sup_def resolver_alloc_def mk_type_def split: prod.split)
    ultimately show ?thesis
      using fits_tests(4) [OF fits(1) any(1)] fits_tests(4) [OF fits(2) any(2)]
      by (auto simp: kind_cases bin_add_def value_fits_def)
  qed
qed

lemma mul_sound:
  assumes fits: "value_fits v t1" "value_fits x t2" and any: "\<not> Sema_Type.is_any t1" "\<not> Sema_Type.is_any t2"
    and lit: "\<not> is_str_literal t1" "\<not> is_str_literal t2" and table: "mul_table t1 t2 st = (Some t, st')"
  shows "result_fits (bin_mul cfg v x) t"
proof (cases "Sema_Type.is_number t1 \<and> Sema_Type.is_number t2")
  case True
  then have "t = fst (number_binary t1 t2 st)" using table by (simp add: mul_table_def supported_def)
  with True show ?thesis
    using number_operators(3) number_binary_result [OF fits any]
      numbers_of_fits [OF fits(1) any(1)] numbers_of_fits [OF fits(2) any(2)] by blast
next
  case False
  note tests = fits_tests [OF fits(1) any(1)] fits_tests [OF fits(2) any(2)] number_flags
  from False table consider
      (right) "Sema_Type.is_int t1" "is_mul_val_type_or_mul_val_union_type t2" "t = t2"
    | (left) "is_mul_val_type_or_mul_val_union_type t1" "Sema_Type.is_int t2" "t = t1"
    by (auto simp: mul_table_def split: if_splits)
  then show ?thesis
  proof cases
    case right
    then show ?thesis
      using mul_val_fits [OF fits(2) any(2)] False tests repeat_fits(1) [OF fits(2) lit(2)]
      by (auto simp: kind_cases)
  next
    case left
    then show ?thesis
      using mul_val_fits [OF fits(1) any(1)] False tests repeat_fits(2) [OF fits(1) lit(1)]
      by (auto simp: kind_cases)
  qed
qed

lemma numbers_sound:
  assumes fits: "value_fits v t1" "value_fits x t2" and any: "\<not> Sema_Type.is_any t1" "\<not> Sema_Type.is_any t2"
    and table: "binary_table op t1 t2 rg st = (Some t, st')" and op: "op = BinSub \<or> op = BinPow \<or> op = BinFloorDiv"
  shows "result_fits (apply_binary ev op v x) t"
proof -
  have num: "Sema_Type.is_number t1" "Sema_Type.is_number t2"
    using table op by (auto simp: table_defs split: if_splits)
  with table op obtain st'' where "t = fst (number_binary t1 t2 st'')"
    by (auto simp: table_defs split: if_splits)
  then have "number_result t v x" using number_binary_result [OF fits any] by simp
  with num show ?thesis
    using op number_operators [of t v x] numbers_of_fits [OF fits(1) any(1)] numbers_of_fits [OF fits(2) any(2)]
    by (auto simp: apply_binary_def)
qed

lemma bits_sound:
  assumes fits: "value_fits v t1" "value_fits x t2" and any: "\<not> Sema_Type.is_any t1" "\<not> Sema_Type.is_any t2"
    and st: "builtins st = new_builtin_types n" and table: "binary_table op t1 t2 rg st = (Some t, st')"
    and op: "op = BinLShift \<or> op = BinRShift \<or> op = BinBitXor \<or> op = BinBitAnd"
  shows "result_fits (apply_binary ev op v x) t"
proof -
  have "Sema_Type.is_int t1" "Sema_Type.is_int t2" "t = int_ty st"
    using table op by (auto simp: table_defs split: if_splits)
  then obtain a b where "v = int_value a" "x = int_value b" "ref_kind t = IntK"
    using fits_tests [OF fits(1) any(1)] fits_tests [OF fits(2) any(2)] st
    by (auto simp: kind_cases new_builtin_types_def mk_type_def)
  with op show ?thesis
    using int_operators [of t v a x b] by (auto simp: apply_binary_def)
qed

text \<open>C21. Soundness of the types of operators: when the operands have the types the
  resolver is given and it gives the operation a type other than any, the evaluator does
  not reject the operands, and a value it computes has that type, for addition,
  subtraction, power, floor division, shifts, exclusive or, and, and the multiplication
  of anything but string literals.\<close>
theorem operator_types_sound:
  assumes "value_fits v t1" "value_fits x t2" "builtins st = new_builtin_types n"
    and "typed_operator op t1 t2" "\<not> Sema_Type.is_any (fst (binary t1 t2 op rg st))"
  shows "result_fits (apply_binary ev op v x) (fst (binary t1 t2 op rg st))"
proof -
  note any = binary_table_of(1,2) [OF assms(1-3,5)]
  obtain st' where table: "binary_table op t1 t2 rg st = (Some (fst (binary t1 t2 op rg st)), st')"
    using binary_table_of(3) [OF assms(1-3,5)] by blast
  consider "op = BinAdd" | "op = BinMul" "\<not> is_str_literal t1" "\<not> is_str_literal t2"
    | "op = BinSub \<or> op = BinPow \<or> op = BinFloorDiv"
    | "op = BinLShift \<or> op = BinRShift \<or> op = BinBitXor \<or> op = BinBitAnd"
    using assms(4) by (cases op) (auto simp: typed_operator_def)
  then show ?thesis
  proof cases
    case 1
    then show ?thesis
      using add_sound [OF assms(1,2) any assms(3)] table by (simp add: binary_table_def apply_binary_def)
  next
    case 2
    then show ?thesis
      using mul_sound [OF assms(1,2) any] table by (simp add: binary_table_def apply_binary_def)
  next
    case 3
    then show ?thesis using numbers_sound [OF assms(1,2) any table] by blast
  next
    case 4
    then show ?thesis using bits_sound [OF assms(1,2) any assms(3) table] by blast
  qed
qed

theorem operator_types_sound_witness:
  "result_fits (apply_binary sample_evaluator BinAdd (int_value 2) (float_value f64_zero))
     (fst (binary (Arc 0 (Type IntK False)) (Arc 1 (Type FloatK False)) BinAdd (dummy_pos, dummy_pos) sample_resolver)) \<and>
   ref_kind (fst (binary (Arc 0 (Type IntK False)) (Arc 1 (Type FloatK False)) BinAdd (dummy_pos, dummy_pos) sample_resolver)) = FloatK"
proof -
  have kind: "ref_kind (fst (binary (Arc 0 (Type IntK False)) (Arc 1 (Type FloatK False)) BinAdd (dummy_pos, dummy_pos) sample_resolver)) = FloatK"
    by (simp add: binary_def resolver_literal_union_def literal_union_type_to_variable_type_def has_any_type_def
        binary_table_def add_table_def number_flags supported_def number_binary_def resolver_alloc_def mk_type_def)
  then have "\<not> Sema_Type.is_any (fst (binary (Arc 0 (Type IntK False)) (Arc 1 (Type FloatK False)) BinAdd (dummy_pos, dummy_pos) sample_resolver))"
    by (cases "fst (binary (Arc 0 (Type IntK False)) (Arc 1 (Type FloatK False)) BinAdd (dummy_pos, dummy_pos) sample_resolver)";
        cases "deref (fst (binary (Arc 0 (Type IntK False)) (Arc 1 (Type FloatK False)) BinAdd (dummy_pos, dummy_pos) sample_resolver))") simp
  with kind show ?thesis
    using operator_types_sound [of "int_value 2" "Arc 0 (Type IntK False)" "float_value f64_zero" "Arc 1 (Type FloatK False)"
        sample_resolver 20 BinAdd "(dummy_pos, dummy_pos)" sample_evaluator]
    by (simp add: value_fits_def value_kind_exclusive typed_operator_def sample_resolver_def)
qed

section \<open>Operators with another type\<close>

lemma binary_scalar:
  assumes "k1 \<noteq> AnyK" "k2 \<noteq> AnyK" "\<forall>ts. k1 \<noteq> UnionK ts" "\<forall>ts. k2 \<noteq> UnionK ts"
  shows "binary (Arc a (Type k1 p)) (Arc b (Type k2 q)) op rg st =
    (case binary_table op (Arc a (Type k1 p)) (Arc b (Type k2 q)) rg st of
       (Some t, st') \<Rightarrow> (t, st')
     | (None, st') \<Rightarrow> (any_ty st', add_type_error (unsupported_operands (bin_op_symbol op)
         (Arc a (Type k1 p)) (Arc b (Type k2 q))) rg st'))"
  using assms
  by (auto simp: binary_def resolver_literal_union_def literal_union_type_to_variable_type_def has_any_type_def
      split: type_kind.splits)

lemma walk_string_lit: "walk_expr ev (StringLit t) s = ret (str_value t) s"
  by (subst walk_expr.simps) simp

lemma repeat_twice: "length s < 2 ^ 62 \<Longrightarrow> bin_mul cfg (int_value 2) (str_value s) = Inr (str_value (s @ s))"
proof -
  assume "length s < 2 ^ 62"
  moreover have "as_usize 2 = 2" by (simp add: as_usize_def)
  moreover have "concat (replicate 2 s) = s @ s" by (simp add: numeral_2_eq_2)
  ultimately show ?thesis by (simp add: bin_mul_def str_repeat_def)
qed

text \<open>C29. Four operators whose type is not that of their value: the division of integers
  has type int but gives a float, the remainder of a float has type int but gives a
  float, the product of an integer and a string literal has the type of that literal but
  repeats the string, and a conjunction has type bool but gives its last operand.\<close>
theorem operator_types_unsound:
  assumes "builtins st = new_builtin_types n" "length s < 2 ^ 62"
  shows "ref_kind (fst (binary (Arc a (Type IntK p)) (Arc b (Type IntK q)) BinDiv rg st)) = IntK \<and>
      apply_binary ev BinDiv (int_value i) (int_value j) = Inr (float_value (f64_div (f64_of_i64 i) (f64_of_i64 j))) \<and>
    ref_kind (fst (binary (Arc a (Type FloatK p)) (Arc b (Type IntK q)) BinMod rg st)) = IntK \<and>
      apply_binary ev BinMod (float_value f) (int_value j) = Inr (float_value (f64_rem f (f64_of_i64 j))) \<and>
    ref_kind (fst (binary (Arc a (Type (IntLit 2) p)) (Arc b (Type (StrLit s) q)) BinMul rg st)) = StrLit s \<and>
      apply_binary ev BinMul (int_value 2) (str_value s) = Inr (str_value (s @ s)) \<and>
    ref_kind (fst (binary (Arc a (Type (BoolLit True) p)) (Arc b (Type (StrLit s) q)) BinAnd rg st)) = BoolK \<and>
      walk_expr ev (Binary (NameConstantLit ConstTrue) BinAnd (StringLit s)) env = (Inr (str_value s), env)"
  using assms
  by (simp add: binary_scalar table_defs number_flags number_binary_def resolver_alloc_def mk_type_def
      apply_binary_def bin_div_def bin_mod_def Value.is_number_def as_num_def as_float_def new_builtin_types_def
      is_mul_val_type_or_mul_val_union_type_def is_kind_type_or_kind_union_type_def union_types_def
      contains_flags_def flag_defs check_zero_divisor_def repeat_twice walk_and walk_name_constant
      name_constant_value_def walk_string_lit ret_def bind_def)

theorem operator_types_unsound_witness:
  "ref_kind (fst (binary (Arc 0 (Type (IntLit 2) False)) (Arc 1 (Type (StrLit ''ab'') False)) BinMul
      (dummy_pos, dummy_pos) sample_resolver)) = StrLit ''ab'' \<and>
   apply_binary sample_evaluator BinMul (int_value 2) (str_value ''ab'') = Inr (str_value ''abab'')"
  using operator_types_unsound [of sample_resolver 20 "''ab''" 0 False 1 False "(dummy_pos, dummy_pos)" sample_evaluator]
  by (simp add: sample_resolver_def)

end
